(* ===== verification/Prelude.thy ===== *)
theory Prelude
  imports Main "HOL-Library.Char_ord" "HOL-Library.List_Lexorder"
begin

text \<open>
  Shared vocabulary of the development: the results of fallible operations, the relational
  tables the SQL statements of \<^verbatim>\<open>src/sprinter/db.py\<close> act on (a table is the list of its
  rows in insertion order), Python dictionaries with string keys, and the generic interfaces
  that several components implement: a transition system with an invariant, and a table whose
  rows carry a primary key.
\<close>

named_theorems table_simps \<open>rewrite rules for select, update and delete on tables\<close>
named_theorems row_frames \<open>fields that an update of a row leaves alone\<close>

section \<open>Results\<close>

text \<open>A fallible operation returns \<open>Inl\<close> of the raised exception or \<open>Inr\<close> of its value.\<close>

definition bind_result :: "'e + 'a \<Rightarrow> ('a \<Rightarrow> 'e + 'b) \<Rightarrow> 'e + 'b" where
  "bind_result r f = (case r of Inl e \<Rightarrow> Inl e | Inr x \<Rightarrow> f x)"

lemma bind_result_simps [simp]:
  "bind_result (Inl e) f = Inl e"
  "bind_result (Inr x) f = f x"
  by (simp_all add: bind_result_def)

lemma bind_result_Inr_iff:
  "bind_result r f = Inr y \<longleftrightarrow> (\<exists>x. r = Inr x \<and> f x = Inr y)"
  by (cases r) simp_all

lemma bind_result_Inl_iff:
  "bind_result r f = Inl e \<longleftrightarrow> r = Inl e \<or> (\<exists>x. r = Inr x \<and> f x = Inl e)"
  by (cases r) simp_all

section \<open>Tables: select, update, delete\<close>

definition update_where :: "('r \<Rightarrow> bool) \<Rightarrow> ('r \<Rightarrow> 'r) \<Rightarrow> 'r list \<Rightarrow> 'r list" where
  "update_where p f rows = map (\<lambda>r. if p r then f r else r) rows"

definition delete_where :: "('r \<Rightarrow> bool) \<Rightarrow> 'r list \<Rightarrow> 'r list" where
  "delete_where p rows = filter (\<lambda>r. \<not> p r) rows"

definition rowcount :: "('r \<Rightarrow> bool) \<Rightarrow> 'r list \<Rightarrow> nat" where
  "rowcount p rows = length (filter p rows)"

definition order_by :: "('r \<Rightarrow> 'k::linorder) \<Rightarrow> 'r list \<Rightarrow> 'r list" where
  "order_by k rows = sort_key k rows"

definition first_row :: "'r list \<Rightarrow> 'r option" where
  "first_row rows = (case rows of [] \<Rightarrow> None | r # _ \<Rightarrow> Some r)"

lemma first_row_simps [simp]:
  "first_row [] = None"
  "first_row (r # rs) = Some r"
  by (simp_all add: first_row_def)

lemma first_row_None_iff [simp]: "first_row rows = None \<longleftrightarrow> rows = []"
  by (cases rows) simp_all

lemma first_row_mem: "first_row rows = Some r \<Longrightarrow> r \<in> set rows"
  by (cases rows) simp_all

lemma set_order_by [simp]: "set (order_by k rows) = set rows"
  by (simp add: order_by_def)

lemma length_order_by [simp]: "length (order_by k rows) = length rows"
  by (simp add: order_by_def)

lemma order_by_Nil_iff [simp]: "order_by k rows = [] \<longleftrightarrow> rows = []"
  by (metis length_0_conv length_order_by)

lemma first_row_order_by_least:
  assumes "first_row (order_by k rows) = Some r" and "s \<in> set rows"
  shows "k r \<le> k s"
proof -
  obtain rs where rs: "order_by k rows = r # rs"
    using assms(1) by (cases "order_by k rows") simp_all
  have "sorted (map k (r # rs))"
    unfolding rs [symmetric] order_by_def by (rule sorted_sort_key)
  moreover have "s \<in> set (r # rs)"
    using assms(2) by (simp flip: rs)
  ultimately show ?thesis by auto
qed

lemma update_where_simps [table_simps]:
  "update_where p f [] = []"
  "update_where p f (r # rs) = (if p r then f r else r) # update_where p f rs"
  by (simp_all add: update_where_def)

lemma delete_where_simps [table_simps]:
  "delete_where p [] = []"
  "delete_where p (r # rs) = (if p r then delete_where p rs else r # delete_where p rs)"
  by (simp_all add: delete_where_def)

lemma length_update_where [simp]: "length (update_where p f rows) = length rows"
  by (simp add: update_where_def)

lemma update_where_append [table_simps]:
  "update_where p f (xs @ ys) = update_where p f xs @ update_where p f ys"
  by (simp add: update_where_def)

lemma set_update_where:
  "set (update_where p f rows) = {r \<in> set rows. \<not> p r} \<union> f ` {r \<in> set rows. p r}"
  by (induction rows) (auto simp: update_where_def)

lemma set_delete_where [simp]: "set (delete_where p rows) = {r \<in> set rows. \<not> p r}"
  by (auto simp: delete_where_def)

lemma update_where_cong_frame:
  "(\<And>r. g (f r) = g r) \<Longrightarrow> map g (update_where p f rows) = map g rows"
  by (simp add: update_where_def)

lemma update_where_none: "(\<And>r. r \<in> set rows \<Longrightarrow> \<not> p r) \<Longrightarrow> update_where p f rows = rows"
  by (induction rows) (simp_all add: update_where_def)

lemma rowcount_zero_iff: "rowcount p rows = 0 \<longleftrightarrow> (\<forall>r \<in> set rows. \<not> p r)"
  by (auto simp: rowcount_def filter_empty_conv)

lemma rowcount_delete: "rowcount p rows + length (delete_where p rows) = length rows"
  unfolding rowcount_def delete_where_def by (rule sum_length_filter_compl)

lemma distinct_map_delete_where:
  "distinct (map k rows) \<Longrightarrow> distinct (map k (delete_where p rows))"
  unfolding delete_where_def by (rule distinct_map_filter)

text \<open>Lookup by a unique column.\<close>

definition get_by :: "('r \<Rightarrow> 'k) \<Rightarrow> 'k \<Rightarrow> 'r list \<Rightarrow> 'r option" where
  "get_by k v rows = find (\<lambda>r. k r = v) rows"

lemma get_by_simps [simp]:
  "get_by k v [] = None"
  "get_by k v (r # rs) = (if k r = v then Some r else get_by k v rs)"
  by (simp_all add: get_by_def)

lemma get_by_append:
  "get_by k v (xs @ ys) = (case get_by k v xs of None \<Rightarrow> get_by k v ys | Some r \<Rightarrow> Some r)"
  by (induction xs) auto

lemma get_by_None_iff: "get_by k v rows = None \<longleftrightarrow> v \<notin> k ` set rows"
  by (induction rows) auto

lemma get_by_SomeD: "get_by k v rows = Some r \<Longrightarrow> r \<in> set rows \<and> k r = v"
  by (induction rows) (auto split: if_splits)

lemma get_by_unique:
  "distinct (map k rows) \<Longrightarrow> r \<in> set rows \<Longrightarrow> get_by k (k r) rows = Some r"
  by (induction rows) (auto simp: image_iff)

lemma get_by_eq_iff:
  "distinct (map k rows) \<Longrightarrow> get_by k v rows = Some r \<longleftrightarrow> r \<in> set rows \<and> k r = v"
  using get_by_SomeD get_by_unique by metis

lemma get_by_update_where:
  assumes "\<And>r. k (f r) = k r"
  shows "get_by k v (update_where p f rows) =
    map_option (\<lambda>r. if p r then f r else r) (get_by k v rows)"
  by (induction rows) (simp_all add: update_where_def assms)

section \<open>Interface: a table with a primary key\<close>

text \<open>
  \<open>keyed_update key f\<close> is the contract of an \<^verbatim>\<open>update ... where\<close> statement that never
  assigns the key column. Everything the store components need about such a statement (the
  keys stay unique, which row a lookup finds afterwards, which rows change) is proved once.
\<close>

locale keyed_update =
  fixes key :: "'r \<Rightarrow> 'k"
    and f :: "'r \<Rightarrow> 'r"
  assumes key_frame: "key (f r) = key r"
begin

lemma keys: "map key (update_where p f rows) = map key rows"
  by (rule update_where_cong_frame) (rule key_frame)

lemma keys_distinct:
  "distinct (map key rows) \<Longrightarrow> distinct (map key (update_where p f rows))"
  by (simp add: keys)

lemma lookup_at:
  "get_by key k (update_where (\<lambda>r. key r = k) f rows) = map_option f (get_by key k rows)"
  by (subst get_by_update_where)
     (auto simp: key_frame dest: get_by_SomeD intro!: option.map_cong)

lemma lookup_other:
  "k \<noteq> k' \<Longrightarrow> get_by key k (update_where (\<lambda>r. key r = k') f rows) = get_by key k rows"
  by (induction rows) (auto simp: update_where_def key_frame)

lemma lookup_where:
  "get_by key k (update_where p f rows) =
    map_option (\<lambda>r. if p r then f r else r) (get_by key k rows)"
  by (rule get_by_update_where) (rule key_frame)

end

section \<open>Interface: a transition system with an invariant\<close>

inductive steps_star :: "('s \<Rightarrow> 's \<Rightarrow> bool) \<Rightarrow> 's \<Rightarrow> 's \<Rightarrow> bool" for step where
  steps_refl: "steps_star step s s"
| steps_step: "steps_star step s t \<Longrightarrow> step t u \<Longrightarrow> steps_star step s u"

lemma steps_star_trans:
  "steps_star step t u \<Longrightarrow> steps_star step s t \<Longrightarrow> steps_star step s u"
  by (induction rule: steps_star.induct) (auto intro: steps_star.intros)

lemma steps_star_head: "step s t \<Longrightarrow> steps_star step t u \<Longrightarrow> steps_star step s u"
  by (rule steps_star_trans) (auto intro: steps_star.intros)

locale invariant_system =
  fixes step :: "'s \<Rightarrow> 's \<Rightarrow> bool"
    and inv :: "'s \<Rightarrow> bool"
  assumes inv_step: "inv s \<Longrightarrow> step s t \<Longrightarrow> inv t"
begin

lemma inv_steps: "steps_star step s t \<Longrightarrow> inv s \<Longrightarrow> inv t"
  by (induction rule: steps_star.induct) (auto intro: inv_step)

text \<open>
  A relation between a state and a later one that is reflexive, transitive and established by
  every step from a state satisfying the invariant holds along every run.
\<close>

lemma rel_steps:
  assumes "steps_star step s t" and "inv s"
    and "\<And>s. R s s"
    and "\<And>s t u. R s t \<Longrightarrow> R t u \<Longrightarrow> R s u"
    and "\<And>s t. inv s \<Longrightarrow> step s t \<Longrightarrow> R s t"
  shows "R s t"
  using assms(1,2)
proof (induction rule: steps_star.induct)
  case (steps_refl s)
  show ?case by (rule assms(3))
next
  case (steps_step s t u)
  then have "inv t" by (blast intro: inv_steps)
  with steps_step show ?case by (blast intro: assms(4,5))
qed

end

section \<open>Python dictionaries with string keys\<close>

text \<open>
  A dictionary is the association list of its items in insertion order, with distinct keys:
  assigning an existing key keeps its position.
\<close>

type_synonym 'v dict = "(string \<times> 'v) list"

fun dict_set :: "string \<Rightarrow> 'v \<Rightarrow> 'v dict \<Rightarrow> 'v dict" where
  "dict_set k v [] = [(k, v)]"
| "dict_set k v ((k', v') # d) = (if k = k' then (k, v) # d else (k', v') # dict_set k v d)"

definition dict_get :: "'v dict \<Rightarrow> string \<Rightarrow> 'v option" where
  "dict_get d k = map_of d k"

lemma dict_get_simps [simp]:
  "dict_get [] k = None"
  "dict_get ((k', v) # d) k = (if k' = k then Some v else dict_get d k)"
  by (simp_all add: dict_get_def)

lemma dict_get_set [simp]: "dict_get (dict_set k v d) k' = (if k = k' then Some v else dict_get d k')"
  by (induction d) auto

lemma dict_set_keys: "fst ` set (dict_set k v d) = insert k (fst ` set d)"
  by (induction k v d rule: dict_set.induct) (simp_all add: insert_commute)

lemma distinct_dict_set: "distinct (map fst d) \<Longrightarrow> distinct (map fst (dict_set k v d))"
  by (induction k v d rule: dict_set.induct) (simp_all add: dict_set_keys)

lemma dict_set_fresh: "k \<notin> fst ` set d \<Longrightarrow> dict_set k v d = d @ [(k, v)]"
  by (induction d) auto

end
