(* ===== verification/JsonRoundtrip.thy ===== *)
theory JsonRoundtrip
  imports Json
begin

text \<open>
  Reading back what was written. The string and number readers consume exactly one written
  token; the value reader is then shown correct on \<^term>\<open>render\<close> by structural
  induction, for any separators that are a comma or colon followed by white space and any
  continuation a JSON text allows.
\<close>

section \<open>Strings\<close>

lemma hex_val_digit: "n < 16 \<Longrightarrow> hex_val (hex_digit n) = Some n"
  by (auto simp: hex_val_def hex_digit_def code_of_def Let_def)

lemma hex4_low_byte:
  "n < 256 \<Longrightarrow> hex4 (CHR ''0'') (CHR ''0'') (hex_digit (n div 16)) (hex_digit (n mod 16)) = Some n"
proof -
  assume n: "n < 256"
  then have "n div 16 < 16" by linarith
  moreover have "hex_val (CHR ''0'') = Some 0"
    by (simp add: hex_val_def code_of_def)
  ultimately show ?thesis
    by (simp add: hex4_def hex_val_digit)
qed

lemma read_string_quote: "read_string (CHR 0x22 # t) = Some ([], t)"
  by simp

lemma read_string_esc_unicode:
  "read_string (CHR 0x5C # CHR ''u'' # CHR ''0'' # CHR ''0'' #
      hex_digit (code_of c div 16) # hex_digit (code_of c mod 16) # t) = cons_char c (read_string t)"
  by (simp add: hex4_low_byte)

lemma read_string_esc_simple:
  "unescape e = Some y \<Longrightarrow> read_string (CHR 0x5C # e # t) = cons_char y (read_string t)"
  by (auto simp: unescape_def split: if_splits)

lemma read_string_plain:
  "c \<noteq> CHR 0x22 \<Longrightarrow> c \<noteq> CHR 0x5C \<Longrightarrow> 32 \<le> code_of c \<Longrightarrow>
    read_string (c # t) = cons_char c (read_string t)"
  by simp

lemma escapes:
  "esc_char (CHR 0x22) = [CHR 0x5C, CHR 0x22]" "esc_char (CHR 0x5C) = [CHR 0x5C, CHR 0x5C]"
  "esc_char (CHR 0x08) = [CHR 0x5C, CHR ''b'']" "esc_char (CHR 0x09) = [CHR 0x5C, CHR ''t'']"
  "esc_char (CHR 0x0A) = [CHR 0x5C, CHR ''n'']" "esc_char (CHR 0x0C) = [CHR 0x5C, CHR ''f'']"
  "esc_char (CHR 0x0D) = [CHR 0x5C, CHR ''r'']"
  by code_simp+

lemma unescapes:
  "unescape (CHR 0x22) = Some (CHR 0x22)" "unescape (CHR 0x5C) = Some (CHR 0x5C)"
  "unescape (CHR ''b'') = Some (CHR 0x08)" "unescape (CHR ''t'') = Some (CHR 0x09)"
  "unescape (CHR ''n'') = Some (CHR 0x0A)" "unescape (CHR ''f'') = Some (CHR 0x0C)"
  "unescape (CHR ''r'') = Some (CHR 0x0D)"
  by code_simp+

lemma short_escape:
  "c \<in> {CHR 0x22, CHR 0x5C, CHR 0x08, CHR 0x09, CHR 0x0A, CHR 0x0C, CHR 0x0D} \<Longrightarrow>
    \<exists>e. esc_char c = [CHR 0x5C, e] \<and> unescape e = Some c"
  by (elim insertE emptyE) (simp_all add: escapes unescapes)

lemma code_of_control:
  "code_of c = 8 \<longleftrightarrow> c = CHR 0x08" "code_of c = 9 \<longleftrightarrow> c = CHR 0x09"
  "code_of c = 10 \<longleftrightarrow> c = CHR 0x0A" "code_of c = 12 \<longleftrightarrow> c = CHR 0x0C"
  "code_of c = 13 \<longleftrightarrow> c = CHR 0x0D"
  using code_of_inject [of c "CHR 0x08"] code_of_inject [of c "CHR 0x09"]
    code_of_inject [of c "CHR 0x0A"] code_of_inject [of c "CHR 0x0C"]
    code_of_inject [of c "CHR 0x0D"]
  by (simp_all add: code_of_def del: code_of_inject)

lemma read_string_esc: "read_string (esc_char c @ t) = cons_char c (read_string t)"
proof (cases "c \<in> {CHR 0x22, CHR 0x5C, CHR 0x08, CHR 0x09, CHR 0x0A, CHR 0x0C, CHR 0x0D}")
  case True
  then obtain e where e: "esc_char c = [CHR 0x5C, e]" and y: "unescape e = Some c"
    using short_escape by blast
  show ?thesis using read_string_esc_simple [OF y] by (simp add: e)
next
  case False
  show ?thesis
  proof (cases "32 \<le> code_of c \<and> code_of c \<le> 126")
    case True
    then have "esc_char c = [c]"
      using False by (simp add: esc_char_def Let_def code_of_control)
    with False True show ?thesis by (simp add: read_string_plain)
  next
    case out: False
    then have "esc_char c = [CHR 0x5C, CHR ''u'', CHR ''0'', CHR ''0'',
        hex_digit (code_of c div 16), hex_digit (code_of c mod 16)]"
      using False by (auto simp: esc_char_def Let_def code_of_control)
    then show ?thesis using read_string_esc_unicode by simp
  qed
qed

declare read_string.simps(2) [simp del]

lemma read_string_escaped:
  "read_string (concat (map esc_char s) @ CHR 0x22 # t) = Some (s, t)"
  by (induction s) (simp_all add: read_string_quote read_string_esc cons_char_def)

section \<open>Numbers\<close>

text \<open>A text that may follow a value: nothing that would extend a number.\<close>

definition ends_token :: "string \<Rightarrow> bool" where
  "ends_token r = (case r of [] \<Rightarrow> True
     | c # _ \<Rightarrow> \<not> is_digit c \<and> c \<noteq> CHR ''.'' \<and> c \<noteq> CHR ''e'' \<and> c \<noteq> CHR ''E'')"

lemma takeWhile_digits_append:
  "ends_token r \<Longrightarrow> takeWhile is_digit (s @ r) = takeWhile is_digit s \<and>
    dropWhile is_digit (s @ r) = dropWhile is_digit s @ r"
  by (induction s) (auto simp: ends_token_def split: list.splits)

lemma read_natural_append:
  "ends_token r \<Longrightarrow> read_natural t = Some (ip, u) \<Longrightarrow> read_natural (t @ r) = Some (ip, u @ r)"
  using takeWhile_digits_append [of r t]
  by (cases t) (auto simp: read_natural_def split: if_splits)

lemma read_fraction_append:
  assumes "ends_token r"
  shows "read_fraction (t @ r) = (fst (read_fraction t), snd (read_fraction t) @ r)"
proof (cases t)
  case Nil
  then show ?thesis using assms
    by (auto simp: read_fraction_def ends_token_def split: list.splits)
next
  case (Cons p q)
  then show ?thesis using takeWhile_digits_append [OF assms, of q]
    by (simp add: read_fraction_def)
qed

lemma read_exponent_append:
  assumes "ends_token r" and "snd (read_exponent t) = []"
  shows "read_exponent (t @ r) = (fst (read_exponent t), r)"
proof (cases t)
  case Nil
  then show ?thesis using assms(1)
    by (auto simp: read_exponent_def ends_token_def split: list.splits)
next
  case (Cons e q)
  then show ?thesis
    using assms takeWhile_digits_append [OF assms(1), of q]
      takeWhile_digits_append [OF assms(1), of "tl q"]
    by (cases q) (auto simp: read_exponent_def split: if_splits)
qed

lemma read_number_append:
  assumes "read_number l = Some (v, [])" and r: "ends_token r"
  shows "read_number (l @ r) = Some (v, r)"
proof -
  obtain g t where g: "read_sign l = (g, t)" by fastforce
  with assms(1) obtain ip u where u: "read_natural t = Some (ip, u)"
    by (auto simp: read_number_def split: option.splits)
  then have "t \<noteq> []" by (auto simp: read_natural_def)
  with g have g': "read_sign (l @ r) = (g, t @ r)"
    by (cases l) (auto simp: read_sign_def split: if_splits)
  show ?thesis
    using assms(1) g u g' read_natural_append [OF r u] read_fraction_append [OF r, of u]
      read_exponent_append [OF r, of "snd (read_fraction u)"]
    by (auto simp: read_number_def split: prod.splits)
qed

lemma digits_of_head: "10 \<le> n \<Longrightarrow> hd (digits_of n) \<noteq> CHR ''0''"
proof (induction n rule: digits_of.induct)
  case (1 n)
  have split: "digits_of n = digits_of (n div 10) @ [char_of (48 + n mod 10)]"
    using "1.prems" by (subst digits_of.simps) simp
  show ?case
  proof (cases "n div 10 < 10")
    case True
    have "0 < n div 10" using "1.prems" by linarith
    have "char_of (48 + n div 10) \<noteq> CHR ''0''"
    proof
      assume "char_of (48 + n div 10) = CHR ''0''"
      then have "code_of (char_of (48 + n div 10)) = code_of (CHR ''0'')" by simp
      with True have "n div 10 = 0" by (simp add: code_of_def)
      with \<open>0 < n div 10\<close> show False by simp
    qed
    moreover have "digits_of (n div 10) = [char_of (48 + n div 10)]"
      using True by (subst digits_of.simps) simp
    ultimately show ?thesis by (simp add: split)
  next
    case False
    with "1.prems" "1.IH" show ?thesis by (simp add: split)
  qed
qed

lemma read_natural_digits: "read_natural (digits_of n) = Some (digits_of n, [])"
proof (cases "digits_of n")
  case (Cons d u)
  have all: "\<forall>c \<in> set (d # u). is_digit c" using digits_of_all [of n] by (simp add: Cons)
  have "u = []" if "d = CHR ''0''"
    using that Cons digits_of_head [of n]
    by (cases "n < 10") (auto simp: digits_of.simps [of n])
  then show ?thesis using all unfolding Cons
    by (auto simp: read_natural_def takeWhile_eq_all_conv [THEN iffD2] dropWhile_eq_Nil_conv)
qed simp

lemma read_number_int: "read_number (str_of_int i) = Some (JInt i, [])"
proof -
  have sign: "read_sign (digits_of n) = ([], digits_of n)" for n
  proof (cases "digits_of n")
    case (Cons d u)
    then have "is_digit d" using digits_of_all [of n] by simp
    then have "d \<noteq> CHR ''-''" by (auto simp: is_digit_def code_of_def)
    then show ?thesis by (simp add: Cons read_sign_def)
  qed simp
  show ?thesis
  proof (cases "i < 0")
    case True
    then have "read_sign (str_of_int i) = (''-'', digits_of (nat (- i)))"
      by (simp add: str_of_int_def read_sign_def)
    with True show ?thesis
      by (simp add: read_number_def read_natural_digits read_fraction_def read_exponent_def)
  next
    case False
    then show ?thesis
      by (simp add: str_of_int_def read_number_def sign read_natural_digits
          read_fraction_def read_exponent_def)
  qed
qed

section \<open>Values\<close>

text \<open>
  The values the program can hold: dictionary keys are distinct, and a float is represented by
  a literal that reads as a float.
\<close>

fun wf_json :: "json \<Rightarrow> bool" where
  "wf_json (JFloat l) = (read_number l = Some (JFloat l, []))"
| "wf_json (JArr xs) = (\<forall>x \<in> set xs. wf_json x)"
| "wf_json (JObj kvs) = (distinct (map fst kvs) \<and> (\<forall>p \<in> set kvs. wf_json (snd p)))"
| "wf_json v = True"

lemma read_number_head:
  "read_number l = Some x \<Longrightarrow> \<exists>c t. l = c # t \<and> (c = CHR ''-'' \<or> is_digit c)"
  by (cases l) (auto simp: read_number_def read_sign_def read_natural_def split: if_splits option.splits)

lemma number_head_class:
  assumes "c = CHR ''-'' \<or> is_digit c"
  shows "\<not> is_json_space c \<and> c \<noteq> CHR 0x22 \<and> c \<noteq> CHR '']'' \<and> c \<noteq> CHR ''}'' \<and>
    c \<noteq> CHR ''['' \<and> c \<noteq> CHR ''{'' \<and> c \<noteq> CHR ''n'' \<and> c \<noteq> CHR ''t'' \<and> c \<noteq> CHR ''f''"
  using assms by (auto simp: is_digit_def is_json_space_def code_of_def)

definition starts_value :: "string \<Rightarrow> bool" where
  "starts_value s = (case s of [] \<Rightarrow> False
     | c # _ \<Rightarrow> \<not> is_json_space c \<and> c \<noteq> CHR '']'' \<and> c \<noteq> CHR ''}'')"

lemma quote_json_eq: "quote_json k @ r = CHR 0x22 # concat (map esc_char k) @ CHR 0x22 # r"
  by (simp add: quote_json_def)

lemma starts_value_quote [simp]: "starts_value (quote_json k @ r)"
  by (simp add: quote_json_eq starts_value_def is_json_space_def code_of_def)

lemma starts_value_number: "read_number l = Some x \<Longrightarrow> starts_value (l @ r)"
  using read_number_head [of l x] number_head_class by (fastforce simp: starts_value_def)

lemma starts_value_render: "wf_json v \<Longrightarrow> starts_value (render si sk v @ r)"
proof (cases v)
  case (JInt i)
  then show ?thesis using starts_value_number [OF read_number_int] by simp
next
  case (JFloat l)
  assume "wf_json v"
  with JFloat show ?thesis using starts_value_number by simp
next
  case (JStr s)
  then show ?thesis by simp
qed (auto simp: starts_value_def is_json_space_def code_of_def)

lemma skip_ws_starts: "starts_value s \<Longrightarrow> skip_ws s = s"
  by (cases s) (auto simp: skip_ws_def starts_value_def)

lemma skip_ws_spaces: "\<forall>c \<in> set w. is_json_space c \<Longrightarrow> starts_value s \<Longrightarrow> skip_ws (w @ s) = s"
  by (induction w) (auto simp: skip_ws_starts, simp add: skip_ws_def)

lemma skip_ws_punct:
  "c \<in> {CHR '','', CHR '':'', CHR '']'', CHR ''}''} \<Longrightarrow> skip_ws (c # s) = c # s"
  by (auto simp: skip_ws_def is_json_space_def code_of_def)

lemma ends_token_punct:
  "c \<in> {CHR '','', CHR '':'', CHR '']'', CHR ''}''} \<Longrightarrow> ends_token (c # s)"
  by (auto simp: ends_token_def is_digit_def code_of_def)

lemma parse_value_number:
  assumes "read_number l = Some (v, [])" and "ends_token r"
  shows "parse_value (Suc n) (l @ r) = Some (v, r)"
proof -
  obtain c t where l: "l = c # t" and c: "c = CHR ''-'' \<or> is_digit c"
    using read_number_head [OF assms(1)] by blast
  show ?thesis
    using number_head_class [OF c] read_number_append [OF assms]
    by (simp add: l parse_value.simps starts_with_def)
qed

lemma parse_value_string:
  "parse_value (Suc n) (quote_json s @ r) = Some (JStr s, r)"
  by (simp add: quote_json_eq parse_value.simps read_string_escaped)

text \<open>The reader inverts the writer, for a given pair of separators.\<close>

definition reads_back :: "string \<Rightarrow> string \<Rightarrow> json \<Rightarrow> bool" where
  "reads_back w u v = (\<forall>n r. ends_token r \<longrightarrow> 2 * length (render (CHR '','' # w) (CHR '':'' # u) v) < n \<longrightarrow>
     parse_value n (render (CHR '','' # w) (CHR '':'' # u) v @ r) = Some (v, r))"

lemma reads_backD:
  "reads_back w u v \<Longrightarrow> ends_token r \<Longrightarrow> 2 * length (render (CHR '','' # w) (CHR '':'' # u) v) < n \<Longrightarrow>
    parse_value n (render (CHR '','' # w) (CHR '':'' # u) v @ r) = Some (v, r)"
  by (simp add: reads_back_def)

lemma reads_backI:
  assumes "\<And>m r. ends_token r \<Longrightarrow> 2 * length (render (CHR '','' # w) (CHR '':'' # u) v) \<le> m \<Longrightarrow>
    parse_value (Suc m) (render (CHR '','' # w) (CHR '':'' # u) v @ r) = Some (v, r)"
  shows "reads_back w u v"
  unfolding reads_back_def
proof (intro allI impI)
  fix n r
  assume "ends_token r" and "2 * length (render (CHR '','' # w) (CHR '':'' # u) v) < n"
  moreover then obtain m where "n = Suc m" by (cases n) auto
  ultimately show "parse_value n (render (CHR '','' # w) (CHR '':'' # u) v @ r) = Some (v, r)"
    using assms by simp
qed

lemma parse_value_keywords:
  "parse_value (Suc n) (''null'' @ r) = Some (JNull, r)"
  "parse_value (Suc n) (''true'' @ r) = Some (JBool True, r)"
  "parse_value (Suc n) (''false'' @ r) = Some (JBool False, r)"
  by (simp_all add: parse_value.simps starts_with_def)

lemma parse_elems_render:
  assumes "\<forall>x \<in> set xs. reads_back w u x" and "\<forall>x \<in> set xs. wf_json x" and "xs \<noteq> []"
    and w: "\<forall>c \<in> set w. is_json_space c"
    and "2 * length (join (CHR '','' # w) (map (render (CHR '','' # w) (CHR '':'' # u)) xs)) + 1 < n"
  shows "parse_elems n acc (join (CHR '','' # w) (map (render (CHR '','' # w) (CHR '':'' # u)) xs) @ CHR '']'' # r)
    = Some (JArr (acc @ xs), r)"
  using assms(1-3,5)
proof (induction xs arbitrary: acc n)
  case (Cons x xs)
  let ?R = "render (CHR '','' # w) (CHR '':'' # u)"
  obtain m where m: "n = Suc m" using Cons.prems(4) by (cases n) auto
  show ?case
  proof (cases xs)
    case Nil
    have "parse_value m (?R x @ CHR '']'' # r) = Some (x, CHR '']'' # r)"
      using Cons.prems by (intro reads_backD) (simp_all add: Nil m ends_token_punct)
    then show ?thesis
      by (simp add: Nil m parse_elems.simps skip_ws_punct)
  next
    case (Cons y ys)
    let ?rest = "join (CHR '','' # w) (map ?R xs) @ CHR '']'' # r"
    have "parse_value m (?R x @ CHR '','' # w @ ?rest) = Some (x, CHR '','' # w @ ?rest)"
      using Cons.prems by (intro reads_backD) (simp_all add: Cons m ends_token_punct)
    moreover have "starts_value ?rest"
      using Cons.prems(2) starts_value_render [of y] by (cases ys) (simp_all add: Cons)
    then have "skip_ws (w @ ?rest) = ?rest" by (rule skip_ws_spaces [OF w])
    moreover have "parse_elems m (acc @ [x]) ?rest = Some (JArr ((acc @ [x]) @ xs), r)"
      using Cons.prems by (intro Cons.IH) (simp_all add: Cons m)
    ultimately show ?thesis
      by (simp add: Cons m parse_elems.simps skip_ws_punct)
  qed
qed simp

lemma parse_members_render:
  assumes "\<forall>p \<in> set kvs. reads_back w u (snd p)" and "\<forall>p \<in> set kvs. wf_json (snd p)" and "kvs \<noteq> []"
    and "distinct (map fst (acc @ kvs))"
    and w: "\<forall>c \<in> set w. is_json_space c" and u: "\<forall>c \<in> set u. is_json_space c"
    and "2 * length (join (CHR '','' # w)
      (map (\<lambda>(k, v). quote_json k @ (CHR '':'' # u) @ render (CHR '','' # w) (CHR '':'' # u) v) kvs)) + 1 < n"
  shows "parse_members n acc (join (CHR '','' # w)
      (map (\<lambda>(k, v). quote_json k @ (CHR '':'' # u) @ render (CHR '','' # w) (CHR '':'' # u) v) kvs) @ CHR ''}'' # r)
    = Some (JObj (acc @ kvs), r)"
  using assms(1-4,7)
proof (induction kvs arbitrary: acc n)
  case (Cons p kvs)
  let ?R = "render (CHR '','' # w) (CHR '':'' # u)"
  let ?M = "map (\<lambda>(k, v). quote_json k @ (CHR '':'' # u) @ ?R v)"
  obtain m where m: "n = Suc m" using Cons.prems(5) by (cases n) auto
  obtain k v where p: "p = (k, v)" by fastforce
  have fresh: "dict_set k v acc = acc @ [(k, v)]"
    using Cons.prems(4) by (intro dict_set_fresh) (auto simp: p)
  have colon: "skip_ws (u @ ?R v @ t) = ?R v @ t" for t
    using Cons.prems(2) by (intro skip_ws_spaces [OF u] starts_value_render) (simp add: p)
  have short: "2 * length (?R v) < m"
    using Cons.prems(5) by (cases kvs) (simp_all add: p m)
  have val: "parse_value m (?R v @ c # t) = Some (v, c # t)" if "c \<in> {CHR '','', CHR ''}''}" for c t
    using Cons.prems(1) short that by (intro reads_backD) (auto simp: p ends_token_punct)
  show ?case
  proof (cases kvs)
    case Nil
    then show ?thesis
      using val [of "CHR ''}''" r]
      by (simp add: p m parse_members.simps quote_json_eq read_string_escaped skip_ws_punct colon fresh)
  next
    case kvs: (Cons p' kvs')
    let ?rest = "join (CHR '','' # w) (?M kvs) @ CHR ''}'' # r"
    have "starts_value ?rest" by (cases kvs') (auto simp: kvs split: prod.splits)
    then have sp: "skip_ws (w @ ?rest) = ?rest" by (rule skip_ws_spaces [OF w])
    have "parse_members m (acc @ [(k, v)]) ?rest = Some (JObj ((acc @ [(k, v)]) @ kvs), r)"
      using Cons.prems by (intro Cons.IH) (auto simp: kvs p m)
    moreover have "join (CHR '','' # w) (?M (p # kvs)) @ CHR ''}'' # r =
        CHR 0x22 # concat (map esc_char k) @ CHR 0x22 # CHR '':'' # u @ ?R v @ CHR '','' # w @ ?rest"
      by (simp add: kvs p quote_json_eq)
    ultimately show ?thesis
      using val [of "CHR '',''" "w @ ?rest"] sp
      by (simp add: m parse_members.simps read_string_escaped skip_ws_punct colon fresh p)
  qed
qed simp

lemma reads_back_render:
  assumes w: "\<forall>c \<in> set w. is_json_space c" and u: "\<forall>c \<in> set u. is_json_space c"
  shows "wf_json v \<Longrightarrow> reads_back w u v"
proof (induction v)
  case JNull
  show ?case by (rule reads_backI) (simp only: render.simps parse_value_keywords)
next
  case (JBool b)
  show ?case by (rule reads_backI) (simp only: render.simps parse_value_keywords split: if_split, simp)
next
  case (JInt i)
  show ?case by (rule reads_backI) (simp add: parse_value_number read_number_int)
next
  case (JFloat l)
  then show ?case by (intro reads_backI) (simp add: parse_value_number)
next
  case (JStr s)
  show ?case by (rule reads_backI) (simp add: parse_value_string)
next
  case (JArr xs)
  then have sub: "\<forall>x \<in> set xs. reads_back w u x" and wf: "\<forall>x \<in> set xs. wf_json x" by auto
  show ?case
  proof (rule reads_backI)
    fix m r
    let ?J = "join (CHR '','' # w) (map (render (CHR '','' # w) (CHR '':'' # u)) xs)"
    assume m: "2 * length (render (CHR '','' # w) (CHR '':'' # u) (JArr xs)) \<le> m"
    show "parse_value (Suc m) (render (CHR '','' # w) (CHR '':'' # u) (JArr xs) @ r) = Some (JArr xs, r)"
    proof (cases xs)
      case Nil
      then show ?thesis by (simp add: parse_value.simps skip_ws_punct)
    next
      case (Cons x ys)
      have st: "starts_value (?J @ CHR '']'' # r)"
        using wf starts_value_render [of x] by (cases ys) (simp_all add: Cons)
      have "parse_elems m [] (?J @ CHR '']'' # r) = Some (JArr ([] @ xs), r)"
        using m by (intro parse_elems_render sub wf w) (simp_all add: Cons)
      with st show ?thesis
        by (cases "?J @ CHR '']'' # r") (simp_all add: parse_value.simps skip_ws_starts starts_value_def)
    qed
  qed
next
  case (JObj kvs)
  have sub: "\<forall>p \<in> set kvs. reads_back w u (snd p)"
    using JObj by (auto simp: snds.simps prod_set_simps)
  from JObj have wf: "\<forall>p \<in> set kvs. wf_json (snd p)" and d: "distinct (map fst kvs)" by simp_all
  show ?case
  proof (rule reads_backI)
    fix m r
    let ?J = "join (CHR '','' # w)
      (map (\<lambda>(k, v). quote_json k @ (CHR '':'' # u) @ render (CHR '','' # w) (CHR '':'' # u) v) kvs)"
    assume m: "2 * length (render (CHR '','' # w) (CHR '':'' # u) (JObj kvs)) \<le> m"
    show "parse_value (Suc m) (render (CHR '','' # w) (CHR '':'' # u) (JObj kvs) @ r) = Some (JObj kvs, r)"
    proof (cases kvs)
      case Nil
      then show ?thesis by (simp add: parse_value.simps skip_ws_punct)
    next
      case (Cons p ps)
      have st: "starts_value (?J @ CHR ''}'' # r)"
        by (cases ps) (auto simp: Cons split: prod.splits)
      have "parse_members m [] (?J @ CHR ''}'' # r) = Some (JObj ([] @ kvs), r)"
        using m d by (intro parse_members_render sub wf w u) (simp_all add: Cons)
      with st show ?thesis
        by (cases "?J @ CHR ''}'' # r") (simp_all add: parse_value.simps skip_ws_starts starts_value_def)
    qed
  qed
qed

section \<open>The round trip of the database columns\<close>

lemma distinct_keys_sort: "distinct (map fst kvs) \<Longrightarrow> distinct (map fst (sort_key fst kvs))"
  by (simp add: distinct_map)

lemma wf_sort_keys: "wf_json v \<Longrightarrow> wf_json (sort_keys v)"
proof (induction v)
  case (JObj kvs)
  have "distinct (map fst (map (\<lambda>(k, v). (k, sort_keys v)) kvs))"
    using JObj.prems by (simp add: case_prod_unfold comp_def)
  then have "distinct (map fst (sort_key fst (map (\<lambda>(k, v). (k, sort_keys v)) kvs)))"
    by (rule distinct_keys_sort)
  moreover have "wf_json (snd p)" if "p \<in> set (map (\<lambda>(k, v). (k, sort_keys v)) kvs)" for p
    using that JObj by (force simp: snds.simps prod_set_simps)
  ultimately show ?case by (simp del: set_map)
qed auto

lemma json_loads_render:
  assumes "\<forall>c \<in> set w. is_json_space c" and "\<forall>c \<in> set u. is_json_space c" and "wf_json v"
  shows "json_loads (render (CHR '','' # w) (CHR '':'' # u) v) = Some v"
proof -
  let ?s = "render (CHR '','' # w) (CHR '':'' # u) v"
  have "skip_ws ?s = ?s"
    using starts_value_render [OF assms(3), of _ _ "[]"] by (simp add: skip_ws_starts)
  moreover have "parse_value (Suc (2 * length ?s)) (?s @ []) = Some (v, [])"
    by (rule reads_backD [OF reads_back_render [OF assms]]) (simp_all add: ends_token_def)
  ultimately show ?thesis by (simp add: json_loads_def skip_ws_def)
qed

lemma json_loads_dumps: "wf_json v \<Longrightarrow> json_loads (dumps v) = Some (sort_keys v)"
  unfolding dumps_def by (rule json_loads_render) (simp_all add: wf_sort_keys)

lemma json_loads_dumps_spaced: "wf_json v \<Longrightarrow> json_loads (dumps_spaced v) = Some (sort_keys v)"
  unfolding dumps_spaced_def
  by (rule json_loads_render) (simp_all add: wf_sort_keys is_json_space_def)

lemma dumps_nonempty: "wf_json v \<Longrightarrow> dumps v \<noteq> []"
  using starts_value_render [OF wf_sort_keys, of v "'',''" "'':''" "[]"]
  by (auto simp: dumps_def starts_value_def)

lemma loads_dumps [simp]: "wf_json v \<Longrightarrow> loads (Some (dumps v)) d = sort_keys v"
  by (simp add: loads_def json_loads_dumps dumps_nonempty)

text \<open>
  The contract of a JSON column, for the components that write and compare such columns: what
  is read is the canonical form of what was written.
\<close>

locale codec =
  fixes encode :: "'v \<Rightarrow> string" and decode :: "string \<Rightarrow> 'v option"
    and canon :: "'v \<Rightarrow> 'v" and valid :: "'v \<Rightarrow> bool"
  assumes decode_encode: "valid v \<Longrightarrow> decode (encode v) = Some (canon v)"
    and encode_canon: "canon v = canon v' \<Longrightarrow> encode v = encode v'"
begin

lemma encode_eq_iff: "valid v \<Longrightarrow> valid v' \<Longrightarrow> encode v = encode v' \<longleftrightarrow> canon v = canon v'"
  using decode_encode encode_canon by (metis option.inject)

end

interpretation json_column: codec dumps json_loads sort_keys wf_json
  by unfold_locales (simp add: json_loads_dumps, simp add: dumps_def)

section \<open>Sorting keys changes no lookup\<close>

lemma map_of_sort_key:
  assumes "distinct (map fst kvs)"
  shows "map_of (sort_key fst kvs) k = map_of kvs k"
proof (rule map_of_eqI [THEN fun_cong])
  have s: "set (sort_key fst kvs) = set kvs" by simp
  show "set (map fst (sort_key fst kvs)) = set (map fst kvs)" by simp
  show "\<forall>x \<in> set (map fst (sort_key fst kvs)). map_of (sort_key fst kvs) x = map_of kvs x"
    using assms distinct_keys_sort [OF assms] s
    by (metis (no_types, lifting) imageE list.set_map map_of_eq_Some_iff surjective_pairing)
qed

lemma map_of_map_values: "map_of (map (\<lambda>(k, v). (k, f v)) kvs) k = map_option f (map_of kvs k)"
  by (induction kvs) auto

definition members :: "json \<Rightarrow> json dict" where
  "members v = (case v of JObj kvs \<Rightarrow> kvs | _ \<Rightarrow> [])"

lemma dict_get_sort_keys:
  assumes "wf_json (JObj kvs)"
  shows "dict_get (members (sort_keys (JObj kvs))) k = map_option sort_keys (dict_get kvs k)"
proof -
  have "distinct (map fst (map (\<lambda>(k, v). (k, sort_keys v)) kvs))"
    using assms by (simp add: case_prod_unfold comp_def)
  then show ?thesis
    by (simp add: members_def dict_get_def map_of_sort_key map_of_map_values)
qed

lemma map_sort_keys_id:
  assumes "\<And>v. v \<in> snd ` set kvs \<Longrightarrow> sort_keys v = v"
  shows "map (\<lambda>(k, v). (k, sort_keys v)) kvs = kvs"
  using assms by (induction kvs) auto

lemma sort_keys_idem [simp]: "sort_keys (sort_keys v) = sort_keys v"
proof (induction v)
  case (JObj kvs)
  let ?m = "map (\<lambda>(k, v). (k, sort_keys v)) kvs"
  have "map (\<lambda>(k, v). (k, sort_keys v)) (sort_key fst ?m) = sort_key fst ?m"
    by (rule map_sort_keys_id) (use JObj in \<open>force simp: snds.simps prod_set_simps\<close>)
  then show ?case by (simp add: sort_key_id_if_sorted)
qed simp_all

section \<open>What the reader reads is well-formed\<close>

lemma takeWhile_twice [simp]: "takeWhile P (takeWhile P xs) = takeWhile P xs" "dropWhile P (takeWhile P xs) = []"
  by (induction xs) auto

lemma read_exponent_result:
  assumes "read_exponent r = (ex, r2)"
  shows "read_exponent ex = (ex, []) \<and> (ex = [] \<or> hd ex = CHR ''e'' \<or> hd ex = CHR ''E'')"
proof (cases r)
  case Nil
  with assms show ?thesis by (auto simp: read_exponent_def)
next
  case (Cons e q)
  with assms show ?thesis by (cases q) (auto simp: read_exponent_def split: if_splits)
qed

lemma read_fraction_result:
  assumes "read_fraction r = (fr, r1)" and "ex = [] \<or> hd ex = CHR ''e'' \<or> hd ex = CHR ''E''"
  shows "read_fraction (fr @ ex) = (fr, ex) \<and> (fr = [] \<or> hd fr = CHR ''.'')"
proof -
  have d: "\<not> is_digit (CHR ''e'')" "\<not> is_digit (CHR ''E'')" by code_simp+
  then have ex: "takeWhile is_digit ex = []" "dropWhile is_digit ex = ex"
    using assms(2) by (cases ex; auto)+
  have tw: "takeWhile is_digit (takeWhile is_digit q @ ex) = takeWhile is_digit q"
    "dropWhile is_digit (takeWhile is_digit q @ ex) = ex" for q
    using ex by (induction q) auto
  show ?thesis
    using assms tw by (cases r; cases ex) (auto simp: read_fraction_def split: if_splits)
qed

lemma read_natural_result:
  assumes "read_natural t = Some (ip, u)" and "x = [] \<or> \<not> is_digit (hd x)"
  shows "read_natural (ip @ x) = Some (ip, x) \<and> ip \<noteq> [] \<and> is_digit (hd ip)"
proof -
  have x: "takeWhile is_digit x = []" "dropWhile is_digit x = x"
    using assms(2) by (cases x; auto)+
  have tw: "takeWhile is_digit (takeWhile is_digit q @ x) = takeWhile is_digit q"
    "dropWhile is_digit (takeWhile is_digit q @ x) = x" for q
    using x by (induction q) auto
  have "is_digit (CHR ''0'')" by code_simp
  then show ?thesis
    using assms tw by (cases t) (auto simp: read_natural_def split: if_splits)
qed

lemma read_number_float:
  assumes "read_number s = Some (JFloat l, r)"
  shows "read_number l = Some (JFloat l, [])"
proof -
  obtain g t where g: "read_sign s = (g, t)" by fastforce
  with assms obtain ip u where n: "read_natural t = Some (ip, u)"
    by (auto simp: read_number_def split: option.splits)
  obtain fr r1 where f: "read_fraction u = (fr, r1)" by fastforce
  obtain ex r2 where e: "read_exponent r1 = (ex, r2)" by fastforce
  have l: "l = g @ ip @ fr @ ex" "\<not> (fr = [] \<and> ex = [])"
    using assms g n f e by (auto simp: read_number_def split: if_splits)
  note e' = read_exponent_result [OF e]
  note f' = read_fraction_result [OF f, of ex]
  have nd: "\<not> is_digit (CHR ''e'')" "\<not> is_digit (CHR ''E'')" "\<not> is_digit (CHR ''.'')" "\<not> is_digit (CHR ''-'')" by code_simp+
  have "fr @ ex = [] \<or> \<not> is_digit (hd (fr @ ex))" using e' f' nd by (cases fr) auto
  note n' = read_natural_result [OF n this]
  have "read_sign l = (g, ip @ fr @ ex)"
  proof -
    have "g = [] \<or> g = ''-''" using g by (cases s) (auto simp: read_sign_def split: if_splits)
    moreover have "hd ip \<noteq> CHR ''-''" using n' nd by auto
    ultimately show ?thesis using n' by (cases ip) (auto simp: l(1) read_sign_def)
  qed
  then show ?thesis using n' f' e' l by (auto simp: read_number_def)
qed

lemma read_number_wf: "read_number s = Some (v, r) \<Longrightarrow> wf_json v"
  using read_number_float [of s _ r]
  by (cases v) (auto simp: read_number_def split: option.splits prod.splits if_splits)

lemma dict_set_values: "p \<in> set (dict_set k v d) \<Longrightarrow> p = (k, v) \<or> p \<in> set d"
  by (induction k v d rule: dict_set.induct) (auto split: if_splits)

lemma wf_dict_set: "wf_json (JObj d) \<Longrightarrow> wf_json v \<Longrightarrow> wf_json (JObj (dict_set k v d))"
  by (auto simp: distinct_dict_set dest: dict_set_values)

lemma parse_wf:
  "parse_value n s = Some (v, r) \<Longrightarrow> wf_json v"
  "parse_elems n acc s = Some (v, r) \<Longrightarrow> \<forall>x \<in> set acc. wf_json x \<Longrightarrow> wf_json v"
  "parse_members n kvs s = Some (v, r) \<Longrightarrow> wf_json (JObj kvs) \<Longrightarrow> wf_json v"
proof (induction n s and n acc s and n kvs s arbitrary: v r and v r and v r
    rule: parse_value_parse_elems_parse_members.induct)
  case (2 n s)
  then show ?case
    by (auto simp: parse_value.simps(2) split: list.splits if_splits dest: read_number_wf)
next
  case (4 n acc s)
  then show ?case
    by (auto simp: parse_elems.simps(2) split: list.splits if_splits option.splits prod.splits)
next
  case (6 n acc s)
  from "6.prems"(1) obtain t k r1 u x w where m: "s = CHR 0x22 # t" "read_string t = Some (k, r1)"
      "skip_ws r1 = CHR '':'' # u" "parse_value n (skip_ws u) = Some (x, w)" and
    rest: "(\<exists>y. skip_ws w = CHR '','' # y \<and> parse_members n (dict_set k x acc) (skip_ws y) = Some (v, r)) \<or>
      v = JObj (dict_set k x acc)"
    by (auto simp: parse_members.simps(2) split: list.splits if_splits option.splits prod.splits)
  from m "6.IH"(1) have "wf_json x" by simp
  then have wf: "wf_json (JObj (dict_set k x acc))" using "6.prems"(2) by (rule wf_dict_set [rotated])
  from rest show ?case
  proof
    assume "\<exists>y. skip_ws w = CHR '','' # y \<and> parse_members n (dict_set k x acc) (skip_ws y) = Some (v, r)"
    then obtain y where "skip_ws w = CHR '','' # y" "parse_members n (dict_set k x acc) (skip_ws y) = Some (v, r)" by blast
    with m "6.IH"(2) wf show ?thesis by simp
  next
    assume "v = JObj (dict_set k x acc)"
    with wf show ?thesis by simp
  qed
qed simp_all

lemma json_loads_wf: "json_loads s = Some v \<Longrightarrow> wf_json v"
  by (auto simp: json_loads_def split: option.splits if_splits dest: parse_wf(1))

end
