(* ===== verification/Models.thy ===== *)
theory Models
  imports PyText
begin

text \<open>
  The rows of the database (\<^verbatim>\<open>src/sprinter/models.py\<close>) and the database itself: one list of
  rows per table, in insertion order. An instant is a number of microseconds since the epoch
  (UTC); a JSON column holds the text that \<open>dumps\<close> wrote. The random part of a generated
  identifier (\<^verbatim>\<open>uuid.uuid4().hex\<close>) and the clock reading are arguments of the operations.
\<close>

type_synonym instant = int

definition seconds :: "int \<Rightarrow> int" where "seconds n = n * 1000000"
definition days :: "int \<Rightarrow> int" where "days n = seconds (n * 86400)"

definition new_id :: "string \<Rightarrow> string \<Rightarrow> string" where
  "new_id prefix hex = prefix @ ''_'' @ hex"

datatype job_status = Pending | Running | Retry | Succeeded | Failed

fun status_value :: "job_status \<Rightarrow> string" where
  "status_value Pending = ''pending''"
| "status_value Running = ''running''"
| "status_value Retry = ''retry''"
| "status_value Succeeded = ''succeeded''"
| "status_value Failed = ''failed''"

record job =
  j_id :: string
  j_idempotency_key :: string
  j_selector_type :: string
  j_selector_json :: string
  j_source :: string
  j_summary_json :: string
  j_row_limit :: nat
  j_status :: job_status
  j_attempts :: nat
  j_max_attempts :: nat
  j_available_at :: instant
  j_claimed_at :: "instant option"
  j_completed_at :: "instant option"
  j_result_json :: "string option"
  j_error_json :: "string option"
  j_created_at :: instant
  j_updated_at :: instant

record evidence =
  e_id :: string
  e_job_id :: string
  e_kind :: string
  e_title :: string
  e_uri :: string
  e_payload_json :: string
  e_created_at :: instant
  e_expires_at :: instant

record decision =
  d_id :: string
  d_job_id :: string
  d_verdict :: string
  d_severity :: string
  d_summary :: string
  d_rationale_json :: string
  d_model_provider :: string
  d_model_id :: string
  d_pi_version :: string
  d_created_at :: instant

record finding =
  f_id :: string
  f_dedupe_key :: string
  f_decision_id :: string
  f_occurrences :: nat
  f_first_seen_at :: instant
  f_last_seen_at :: instant

record audit_event =
  a_id :: string
  a_event_type :: string
  a_actor :: string
  a_payload_json :: string
  a_created_at :: instant
  a_expires_at :: instant

datatype delivery_status = Delivery_pending | Delivery_retry | Delivery_sent | Delivery_failed

record outbox =
  o_id :: string
  o_channel :: string
  o_target_id :: string
  o_payload_json :: string
  o_status :: delivery_status
  o_attempts :: nat
  o_max_attempts :: nat
  o_available_at :: instant
  o_last_error :: string
  o_created_at :: instant
  o_updated_at :: instant

record installation =
  t_id :: string
  t_tenant_id :: string
  t_conversation_id :: string
  t_service_url :: string
  t_scope :: string
  t_reference_json :: string
  t_enabled :: bool
  t_active :: bool
  t_discovered_at :: instant
  t_last_seen_at :: instant

record worker_health =
  h_role :: string
  h_heartbeat_at :: instant
  h_pi_ready :: bool
  h_pi_checked_at :: "instant option"
  h_pi_error :: string
  h_details_json :: string

record retention_metadata =
  r_key :: string
  r_last_run_at :: "instant option"
  r_details_json :: string

record database =
  jobs :: "job list"
  evidences :: "evidence list"
  decisions :: "decision list"
  findings :: "finding list"
  audits :: "audit_event list"
  deliveries :: "outbox list"
  installs :: "installation list"
  health :: "worker_health list"
  retention :: "retention_metadata list"

definition empty_database :: database where
  "empty_database = \<lparr>jobs = [], evidences = [], decisions = [], findings = [], audits = [],
     deliveries = [], installs = [], health = [], retention = []\<rparr>"

lemma status_value_inject [simp]: "status_value s = status_value t \<longleftrightarrow> s = t"
  by (cases s; cases t) simp_all

lemma new_id_inject [simp]: "new_id p h = new_id p h' \<longleftrightarrow> h = h'"
  by (simp add: new_id_def)

end
