(* ===== verification/Errors.thy ===== *)
theory Errors
  imports Prelude
begin

text \<open>
  The exceptions the program raises or catches, with the class hierarchy that its
  \<^verbatim>\<open>except\<close> clauses and the API's exception handlers depend on. \<open>Foreign\<close> stands
  for an exception class of a library the sources only call (an HTTP client error, a database
  driver error): a direct subclass of \<^verbatim>\<open>Exception\<close>.
\<close>

datatype exc_type =
    ValueError | JSONDecodeError | ValidationError
  | RuntimeError | PiError | PiUnavailable | PiProtocolError
  | IdempotencyConflict | LegacyDatabaseError
  | OSError | PermissionError | TeamsAuthenticationError | FileExistsError | FileNotFoundError
  | TimeoutError
  | LookupError | KeyError | IndexError | TypeError | AttributeError
  | HTTPException nat
  | Foreign string

text \<open>An exception: its class and \<^verbatim>\<open>str(exc)\<close>.\<close>

type_synonym exc = "exc_type \<times> string"

fun parent :: "exc_type \<Rightarrow> exc_type option" where
  "parent JSONDecodeError = Some ValueError"
| "parent ValidationError = Some ValueError"
| "parent PiError = Some RuntimeError"
| "parent PiUnavailable = Some PiError"
| "parent PiProtocolError = Some PiError"
| "parent IdempotencyConflict = Some RuntimeError"
| "parent LegacyDatabaseError = Some RuntimeError"
| "parent PermissionError = Some OSError"
| "parent TeamsAuthenticationError = Some PermissionError"
| "parent FileExistsError = Some OSError"
| "parent FileNotFoundError = Some OSError"
| "parent TimeoutError = Some OSError"
| "parent KeyError = Some LookupError"
| "parent IndexError = Some LookupError"
| "parent _ = None"

text \<open>\<^verbatim>\<open>isinstance\<close>; the hierarchy above is at most three levels deep.\<close>

definition is_instance :: "exc_type \<Rightarrow> exc_type \<Rightarrow> bool" where
  "is_instance t u =
     (t = u \<or> parent t = Some u \<or> Option.bind (parent t) parent = Some u)"

definition caught :: "exc_type list \<Rightarrow> exc \<Rightarrow> bool" where
  "caught ts e = (\<exists>t \<in> set ts. is_instance (fst e) t)"

fun type_name :: "exc_type \<Rightarrow> string" where
  "type_name ValueError = ''ValueError''"
| "type_name JSONDecodeError = ''JSONDecodeError''"
| "type_name ValidationError = ''ValidationError''"
| "type_name RuntimeError = ''RuntimeError''"
| "type_name PiError = ''PiError''"
| "type_name PiUnavailable = ''PiUnavailable''"
| "type_name PiProtocolError = ''PiProtocolError''"
| "type_name IdempotencyConflict = ''IdempotencyConflict''"
| "type_name LegacyDatabaseError = ''LegacyDatabaseError''"
| "type_name OSError = ''OSError''"
| "type_name PermissionError = ''PermissionError''"
| "type_name TeamsAuthenticationError = ''TeamsAuthenticationError''"
| "type_name FileExistsError = ''FileExistsError''"
| "type_name FileNotFoundError = ''FileNotFoundError''"
| "type_name TimeoutError = ''TimeoutError''"
| "type_name LookupError = ''LookupError''"
| "type_name KeyError = ''KeyError''"
| "type_name IndexError = ''IndexError''"
| "type_name TypeError = ''TypeError''"
| "type_name AttributeError = ''AttributeError''"
| "type_name (HTTPException _) = ''HTTPException''"
| "type_name (Foreign n) = n"

lemma is_instance_refl [simp]: "is_instance t t"
  by (simp add: is_instance_def)

text \<open>
  Subclassing as the order of the type: a handler of a class handles what is below it, so a
  handler higher up handles at least as much.
\<close>

lemma is_instance_trans: "is_instance t u \<Longrightarrow> is_instance u v \<Longrightarrow> is_instance t v"
  by (cases t) (auto simp: is_instance_def)

lemma is_instance_antisym: "is_instance t u \<Longrightarrow> is_instance u t \<Longrightarrow> t = u"
  by (cases t) (auto simp: is_instance_def)

instantiation exc_type :: order
begin

definition less_eq_exc_type :: "exc_type \<Rightarrow> exc_type \<Rightarrow> bool" where
  "less_eq_exc_type t u = is_instance t u"

definition less_exc_type :: "exc_type \<Rightarrow> exc_type \<Rightarrow> bool" where
  "less_exc_type t u = (is_instance t u \<and> \<not> is_instance u t)"

instance
  by standard (auto simp: less_eq_exc_type_def less_exc_type_def intro: is_instance_trans is_instance_antisym)

end

lemma caught_iff: "caught ts e \<longleftrightarrow> (\<exists>t \<in> set ts. fst e \<le> t)"
  by (simp add: caught_def less_eq_exc_type_def)

lemma caught_above: "caught [t] e \<Longrightarrow> t \<le> u \<Longrightarrow> caught [u] e"
  by (auto simp: caught_iff intro: order_trans)

end
