(* ===== verification/Schemas.thy ===== *)
theory Schemas
  imports Json Errors
begin

text \<open>
  \<^verbatim>\<open>src/sprinter/schemas.py\<close>: the request and response schemas whose constraints the rest
  of the program relies on. A schema is a record of the validated fields; validation of a JSON
  value checks required fields, types, literals, lengths and ranges, ignores unknown fields, and
  runs the \<^verbatim>\<open>field_validator\<close> after the length checks. Error messages are not modelled.
\<close>

section \<open>Field checks\<close>

definition invalid :: "string \<Rightarrow> exc + 'a" where
  "invalid field = Inl (ValidationError, field)"

definition check_str :: "string \<Rightarrow> nat \<Rightarrow> nat \<Rightarrow> json \<Rightarrow> exc + string" where
  "check_str field lo hi v =
     (case v of JStr s \<Rightarrow> if lo \<le> length s \<and> length s \<le> hi then Inr s else invalid field
      | _ \<Rightarrow> invalid field)"

definition check_literal :: "string \<Rightarrow> string list \<Rightarrow> json \<Rightarrow> exc + string" where
  "check_literal field options v =
     (case v of JStr s \<Rightarrow> if s \<in> set options then Inr s else invalid field | _ \<Rightarrow> invalid field)"

fun all_strings :: "json list \<Rightarrow> string list option" where
  "all_strings [] = Some []"
| "all_strings (JStr s # vs) = map_option (\<lambda>ss. s # ss) (all_strings vs)"
| "all_strings (_ # vs) = None"

definition check_str_list :: "string \<Rightarrow> nat \<Rightarrow> nat \<Rightarrow> json \<Rightarrow> exc + string list" where
  "check_str_list field lo hi v =
     (case v of
        JArr vs \<Rightarrow>
          (case all_strings vs of
             None \<Rightarrow> invalid field
           | Some ss \<Rightarrow> if lo \<le> length ss \<and> length ss \<le> hi then Inr ss else invalid field)
      | _ \<Rightarrow> invalid field)"

definition required :: "json dict \<Rightarrow> string \<Rightarrow> exc + json" where
  "required d field = (case dict_get d field of None \<Rightarrow> invalid field | Some v \<Rightarrow> Inr v)"

definition optional :: "json dict \<Rightarrow> string \<Rightarrow> json \<Rightarrow> json" where
  "optional d field dflt = (case dict_get d field of None \<Rightarrow> dflt | Some v \<Rightarrow> v)"

section \<open>The model's decision\<close>

record model_decision =
  md_verdict :: string
  md_severity :: string
  md_summary :: string
  md_rationale :: "string list"
  md_recommended_actions :: "string list"
  md_evidence_ids :: "string list"

definition verdicts :: "string list" where
  "verdicts = [''true_positive'', ''false_positive'', ''needs_investigation'', ''no_finding'']"

definition severities :: "string list" where
  "severities = [''informational'', ''low'', ''medium'', ''high'', ''critical'']"

text \<open>The \<^verbatim>\<open>bound_text\<close> validator: strip, drop the blank entries, cut to 1000 characters.\<close>

definition bound_text :: "string list \<Rightarrow> string list" where
  "bound_text values = map (\<lambda>v. take 1000 (strip v)) (filter (\<lambda>v. strip v \<noteq> []) values)"

definition validate_decision :: "json dict \<Rightarrow> exc + model_decision" where
  "validate_decision d =
     bind_result (bind_result (required d ''verdict'') (check_literal ''verdict'' verdicts)) (\<lambda>verdict.
     bind_result (bind_result (required d ''severity'') (check_literal ''severity'' severities)) (\<lambda>severity.
     bind_result (bind_result (required d ''summary'') (check_str ''summary'' 1 1000)) (\<lambda>summary.
     bind_result (bind_result (required d ''rationale'') (check_str_list ''rationale'' 1 10)) (\<lambda>rationale.
     bind_result (check_str_list ''recommended_actions'' 0 10
       (optional d ''recommended_actions'' (JArr []))) (\<lambda>actions.
     bind_result (check_str_list ''evidence_ids'' 0 100 (optional d ''evidence_ids'' (JArr []))) (\<lambda>ids.
       Inr \<lparr>md_verdict = verdict, md_severity = severity, md_summary = summary,
            md_rationale = bound_text rationale, md_recommended_actions = bound_text actions,
            md_evidence_ids = ids\<rparr>))))))"

text \<open>\<^verbatim>\<open>model_dump\<close>: the fields in declaration order.\<close>

definition strings :: "string list \<Rightarrow> json" where
  "strings ss = JArr (map JStr ss)"

definition dump_decision :: "model_decision \<Rightarrow> json dict" where
  "dump_decision m =
     [(''verdict'', JStr (md_verdict m)), (''severity'', JStr (md_severity m)),
      (''summary'', JStr (md_summary m)), (''rationale'', strings (md_rationale m)),
      (''recommended_actions'', strings (md_recommended_actions m)),
      (''evidence_ids'', strings (md_evidence_ids m))]"

section \<open>Review requests\<close>

datatype selector =
    RunSelector string "string option"
  | ResultSelector string
  | LatestSelector string

fun selector_type :: "selector \<Rightarrow> string" where
  "selector_type (RunSelector _ _) = ''run''"
| "selector_type (ResultSelector _) = ''result''"
| "selector_type (LatestSelector _) = ''latest''"

text \<open>The pattern \<^verbatim>\<open>^-[1-9][0-9]*[smhdw]$\<close> of a relative start time.\<close>

definition relative_time :: "string \<Rightarrow> bool" where
  "relative_time s =
     (case s of
        g # d # r \<Rightarrow> g = CHR ''-'' \<and> is_digit d \<and> d \<noteq> CHR ''0'' \<and> r \<noteq> [] \<and>
          list_all is_digit (butlast r) \<and> last r \<in> set ''smhdw''
      | _ \<Rightarrow> False)"

fun valid_selector :: "selector \<Rightarrow> bool" where
  "valid_selector (RunSelector run_id workflow) =
     (1 \<le> length run_id \<and> length run_id \<le> 256 \<and>
      (case workflow of None \<Rightarrow> True | Some w \<Rightarrow> length w \<le> 128))"
| "valid_selector (ResultSelector result_id) = (1 \<le> length result_id \<and> length result_id \<le> 256)"
| "valid_selector (LatestSelector earliest) = relative_time earliest"

text \<open>\<^verbatim>\<open>selector.model_dump(exclude_none=True)\<close>.\<close>

fun dump_selector :: "selector \<Rightarrow> json dict" where
  "dump_selector (RunSelector run_id workflow) =
     [(''type'', JStr ''run''), (''run_id'', JStr run_id)] @
     (case workflow of None \<Rightarrow> [] | Some w \<Rightarrow> [(''workflow'', JStr w)])"
| "dump_selector (ResultSelector result_id) = [(''type'', JStr ''result''), (''result_id'', JStr result_id)]"
| "dump_selector (LatestSelector earliest) = [(''type'', JStr ''latest''), (''earliest'', JStr earliest)]"

record review_request =
  rr_selector :: selector
  rr_source :: string
  rr_summary :: "json dict"
  rr_limit :: nat

definition valid_request :: "review_request \<Rightarrow> bool" where
  "valid_request r =
     (valid_selector (rr_selector r) \<and> 1 \<le> length (rr_source r) \<and> length (rr_source r) \<le> 128 \<and>
      1 \<le> rr_limit r \<and> rr_limit r \<le> 100)"

definition check_nat :: "string \<Rightarrow> nat \<Rightarrow> nat \<Rightarrow> json \<Rightarrow> exc + nat" where
  "check_nat field lo hi v =
     (case v of JInt i \<Rightarrow> if int lo \<le> i \<and> i \<le> int hi then Inr (nat i) else invalid field
      | _ \<Rightarrow> invalid field)"

definition check_optional_str :: "string \<Rightarrow> nat \<Rightarrow> json \<Rightarrow> exc + string option" where
  "check_optional_str field hi v =
     (case v of JNull \<Rightarrow> Inr None | _ \<Rightarrow> bind_result (check_str field 0 hi v) (\<lambda>s. Inr (Some s)))"

definition validate_selector :: "json \<Rightarrow> exc + selector" where
  "validate_selector v =
     (case v of
        JObj d \<Rightarrow>
          bind_result (bind_result (required d ''type'')
            (check_literal ''selector'' [''run'', ''result'', ''latest''])) (\<lambda>t.
            if t = ''run'' then
              bind_result (bind_result (required d ''run_id'') (check_str ''run_id'' 1 256)) (\<lambda>r.
              bind_result (check_optional_str ''workflow'' 128 (optional d ''workflow'' JNull)) (\<lambda>w.
                Inr (RunSelector r w)))
            else if t = ''result'' then
              bind_result (bind_result (required d ''result_id'') (check_str ''result_id'' 1 256)) (\<lambda>r.
                Inr (ResultSelector r))
            else
              (case optional d ''earliest'' (JStr ''-24h'') of
                 JStr e \<Rightarrow> if relative_time e then Inr (LatestSelector e) else invalid ''earliest''
               | _ \<Rightarrow> invalid ''earliest''))
      | _ \<Rightarrow> invalid ''selector'')"

definition validate_review_request :: "json \<Rightarrow> exc + review_request" where
  "validate_review_request v =
     (case v of
        JObj d \<Rightarrow>
          bind_result (bind_result (required d ''selector'') validate_selector) (\<lambda>sel.
          bind_result (check_str ''source'' 1 128 (optional d ''source'' (JStr ''api''))) (\<lambda>source.
          bind_result (case optional d ''summary'' (JObj []) of JObj m \<Rightarrow> Inr m | _ \<Rightarrow> invalid ''summary'') (\<lambda>summary.
          bind_result (check_nat ''limit'' 1 100 (optional d ''limit'' (JInt 20))) (\<lambda>limit.
            Inr \<lparr>rr_selector = sel, rr_source = source, rr_summary = summary, rr_limit = limit\<rparr>))))
      | _ \<Rightarrow> invalid ''request'')"

section \<open>What validation guarantees\<close>

lemma check_str_ok: "check_str f lo hi v = Inr s \<Longrightarrow> v = JStr s \<and> lo \<le> length s \<and> length s \<le> hi"
  by (auto simp: check_str_def invalid_def split: json.splits if_splits)

lemma check_literal_ok: "check_literal f opts v = Inr s \<Longrightarrow> s \<in> set opts"
  by (auto simp: check_literal_def invalid_def split: json.splits if_splits)

lemma check_str_list_ok: "check_str_list f lo hi v = Inr ss \<Longrightarrow> lo \<le> length ss \<and> length ss \<le> hi"
  by (auto simp: check_str_list_def invalid_def split: json.splits option.splits if_splits)

lemma check_nat_ok: "check_nat f lo hi v = Inr n \<Longrightarrow> lo \<le> n \<and> n \<le> hi"
  by (auto simp: check_nat_def invalid_def split: json.splits if_splits)

lemma validate_selector_valid: "validate_selector v = Inr s \<Longrightarrow> valid_selector s"
  by (auto simp: validate_selector_def bind_result_Inr_iff check_optional_str_def invalid_def
      split: json.splits if_splits dest!: check_str_ok)

lemma validate_review_request_valid: "validate_review_request v = Inr r \<Longrightarrow> valid_request r"
  by (auto simp: validate_review_request_def bind_result_Inr_iff valid_request_def invalid_def
      split: json.splits dest!: check_str_ok check_nat_ok validate_selector_valid)

lemma bound_text_bounds:
  "length (bound_text vs) \<le> length vs \<and> (\<forall>v \<in> set (bound_text vs). v \<noteq> [] \<and> length v \<le> 1000)"
  by (auto simp: bound_text_def)

end
