(* ===== verification/Config.thy ===== *)
theory Config
  imports Json Errors
begin

unbundle bit_operations_syntax

text \<open>
  \<^verbatim>\<open>src/sprinter/config.py\<close>: the settings, the API token records and their scrypt
  verifiers, secret files, and the start-up validation. The key derivation
  (\<^verbatim>\<open>hashlib.scrypt\<close> with the fixed cost parameters and \<^verbatim>\<open>dklen=32\<close>) is a parameter
  \<open>kdf\<close> from the encoded token and the salt to the digest; byte strings are texts. The file
  system is a parameter that gives a regular file's contents and permission bits.
\<close>

section \<open>Settings\<close>

record settings =
  environment :: string
  host :: string
  port :: int
  database_path :: string
  log_level :: string
  api_token_records :: string
  max_body_bytes :: int
  rate_limit_per_minute :: nat
  worker_poll_microseconds :: int
  worker_stale_seconds :: int
  job_max_attempts :: nat
  job_retention_days :: int
  evidence_retention_days :: int
  audit_retention_days :: int
  teams_installation_retention_days :: int
  pi_command :: string
  pi_expected_version :: string
  pi_provider :: string
  pi_model :: string
  pi_thinking :: string
  pi_timeout_seconds :: int
  pi_max_output_bytes :: nat
  pi_probe_interval_seconds :: int
  model_data_policy_ack :: bool
  prompt_max_rows :: nat
  prompt_extra_redact_keys :: string
  splunk_base_url :: string
  splunk_web_url :: string
  splunk_hec_url :: string
  splunk_hec_token :: "string option"
  splunk_hec_token_file :: "string option"
  splunk_username :: string
  splunk_password :: "string option"
  splunk_password_file :: "string option"
  splunk_ca_file :: "string option"
  splunk_allowed_indexes :: string
  splunk_results_index :: string
  splunk_default_earliest :: string
  adx_cluster_url :: string
  adx_database :: string
  adx_tenant_id :: string
  adx_client_id :: string
  adx_client_secret :: "string option"
  adx_client_secret_file :: "string option"
  adx_allowed_tables :: string
  confluence_base_url :: string
  confluence_email :: string
  confluence_api_token :: "string option"
  confluence_api_token_file :: "string option"
  confluence_allowed_spaces :: string
  teams_enabled :: bool
  teams_app_id :: string
  teams_tenant_id :: string
  teams_client_secret :: "string option"
  teams_client_secret_file :: "string option"
  teams_allowed_tenant_ids :: string
  teams_public_base_url :: string

definition PI_VERSION :: string where "PI_VERSION = ''0.83.0''"

definition default_settings :: settings where
  "default_settings = \<lparr>
     environment = ''production'', host = ''127.0.0.1'', port = 8080,
     database_path = ''/var/lib/sprinter/sprinter.db'', log_level = ''INFO'',
     api_token_records = [], max_body_bytes = 1048576, rate_limit_per_minute = 60,
     worker_poll_microseconds = 2000000, worker_stale_seconds = 120, job_max_attempts = 5,
     job_retention_days = 90, evidence_retention_days = 180, audit_retention_days = 365,
     teams_installation_retention_days = 365,
     pi_command = ''pi'', pi_expected_version = PI_VERSION, pi_provider = [], pi_model = [],
     pi_thinking = ''high'', pi_timeout_seconds = 180, pi_max_output_bytes = 262144,
     pi_probe_interval_seconds = 900, model_data_policy_ack = False, prompt_max_rows = 20,
     prompt_extra_redact_keys = [],
     splunk_base_url = [], splunk_web_url = [], splunk_hec_url = [], splunk_hec_token = None,
     splunk_hec_token_file = None, splunk_username = [], splunk_password = None,
     splunk_password_file = None, splunk_ca_file = None, splunk_allowed_indexes = [],
     splunk_results_index = [], splunk_default_earliest = ''-24h'',
     adx_cluster_url = [], adx_database = [], adx_tenant_id = [], adx_client_id = [],
     adx_client_secret = None, adx_client_secret_file = None, adx_allowed_tables = [],
     confluence_base_url = [], confluence_email = [], confluence_api_token = None,
     confluence_api_token_file = None, confluence_allowed_spaces = [],
     teams_enabled = False, teams_app_id = [], teams_tenant_id = [], teams_client_secret = None,
     teams_client_secret_file = None, teams_allowed_tenant_ids = [], teams_public_base_url = []\<rparr>"

text \<open>The bounds that the field declarations enforce on every settings object.\<close>

definition settings_in_range :: "settings \<Rightarrow> bool" where
  "settings_in_range s =
     (environment s \<in> {''development'', ''production''} \<and>
      1 \<le> port s \<and> port s \<le> 65535 \<and>
      1 \<le> max_body_bytes s \<and> max_body_bytes s \<le> 16777216 \<and>
      1 \<le> rate_limit_per_minute s \<and> rate_limit_per_minute s \<le> 100000 \<and>
      100000 \<le> worker_poll_microseconds s \<and> worker_poll_microseconds s \<le> 60000000 \<and>
      10 \<le> worker_stale_seconds s \<and> worker_stale_seconds s \<le> 3600 \<and>
      1 \<le> job_max_attempts s \<and> job_max_attempts s \<le> 20 \<and>
      1 \<le> job_retention_days s \<and> 1 \<le> evidence_retention_days s \<and>
      1 \<le> audit_retention_days s \<and> 1 \<le> teams_installation_retention_days s \<and>
      pi_thinking s \<in> {''off'', ''minimal'', ''low'', ''medium'', ''high'', ''xhigh'', ''max''} \<and>
      10 \<le> pi_timeout_seconds s \<and> pi_timeout_seconds s \<le> 900 \<and>
      4096 \<le> pi_max_output_bytes s \<and> pi_max_output_bytes s \<le> 4194304 \<and>
      60 \<le> pi_probe_interval_seconds s \<and> pi_probe_interval_seconds s \<le> 86400 \<and>
      1 \<le> prompt_max_rows s \<and> prompt_max_rows s \<le> 100)"

text \<open>Comma-separated settings: the non-empty parts, stripped.\<close>

definition csv_set :: "string \<Rightarrow> string set" where
  "csv_set s = set (filter (\<lambda>p. p \<noteq> []) (map strip (split_on (CHR '','') s)))"

definition allowed_splunk_indexes :: "settings \<Rightarrow> string set" where
  "allowed_splunk_indexes s = csv_set (splunk_allowed_indexes s)"

definition allowed_adx_tables :: "settings \<Rightarrow> string set" where
  "allowed_adx_tables s = csv_set (adx_allowed_tables s)"

definition allowed_confluence_spaces :: "settings \<Rightarrow> string set" where
  "allowed_confluence_spaces s = csv_set (confluence_allowed_spaces s)"

definition allowed_teams_tenants :: "settings \<Rightarrow> string set" where
  "allowed_teams_tenants s = csv_set (teams_allowed_tenant_ids s)"

definition redaction_defaults :: "string set" where
  "redaction_defaults = {''authorization'', ''password'', ''secret'', ''token'', ''api_key'',
     ''apikey'', ''credential'', ''cookie''}"

definition redaction_keys :: "settings \<Rightarrow> string set" where
  "redaction_keys s = redaction_defaults \<union>
     set (map (\<lambda>p. lower (strip p))
       (filter (\<lambda>p. strip p \<noteq> []) (split_on (CHR '','') (prompt_extra_redact_keys s))))"

definition reject_legacy_environment :: "string list \<Rightarrow> exc + unit" where
  "reject_legacy_environment environ =
     (let legacy = sort (filter (starts_with ''ANALYST_'') environ) in
      if legacy \<noteq> []
      then Inl (ValueError, ''legacy ANALYST_* configuration is not supported: '' @ join '', '' legacy)
      else Inr ())"

section \<open>Token verifiers\<close>

definition ALL_SCOPES :: "string set" where
  "ALL_SCOPES = {''reviews:write'', ''jobs:read'', ''tools:splunk'', ''tools:adx'',
     ''tools:confluence'', ''tools:sigma'', ''teams:admin'', ''admin''}"

record token_record =
  tr_name :: string
  tr_verifier :: string
  tr_scopes :: "string set"

definition hex_of_bytes :: "string \<Rightarrow> string" where
  "hex_of_bytes b = concat (map (\<lambda>c. [hex_digit (code_of c div 16), hex_digit (code_of c mod 16)]) b)"

fun bytes_fromhex :: "string \<Rightarrow> exc + string" where
  "bytes_fromhex [] = Inr []"
| "bytes_fromhex [_] = Inl (ValueError, ''non-hexadecimal number found in fromhex() arg'')"
| "bytes_fromhex (a # b # s) =
     (case (hex_val a, hex_val b) of
        (Some x, Some y) \<Rightarrow> bind_result (bytes_fromhex s) (\<lambda>t. Inr (char_of (x * 16 + y) # t))
      | _ \<Rightarrow> Inl (ValueError, ''non-hexadecimal number found in fromhex() arg''))"

definition verifier_prefix :: string where "verifier_prefix = ''scrypt_16384_8_1_''"

text \<open>\<^verbatim>\<open>TOKEN_VERIFIER.fullmatch\<close>: the salt and the digest, in hexadecimal.\<close>

definition match_verifier :: "string \<Rightarrow> (string \<times> string) option" where
  "match_verifier v =
     (if \<not> starts_with verifier_prefix v then None
      else let r = drop (length verifier_prefix) v; salt = take 32 r; t = drop 32 r in
        if length salt = 32 \<and> list_all is_lower_hex salt then
          (case t of
             [] \<Rightarrow> None
           | u # digest \<Rightarrow>
               if u = CHR ''_'' \<and> length digest = 64 \<and> list_all is_lower_hex digest
               then Some (salt, digest) else None)
        else None)"

definition make_token_verifier ::
  "(string \<Rightarrow> string \<Rightarrow> string) \<Rightarrow> string \<Rightarrow> string \<Rightarrow> string \<Rightarrow> exc + string" where
  "make_token_verifier kdf urandom token salt0 =
     (let salt = (if salt0 \<noteq> [] then salt0 else urandom) in
      if length salt \<noteq> 16 then Inl (ValueError, ''token verifier salt must contain 16 bytes'')
      else Inr (verifier_prefix @ hex_of_bytes salt @ ''_'' @ hex_of_bytes (kdf token salt)))"

definition after_last :: "char \<Rightarrow> string \<Rightarrow> string" where
  "after_last c s = rev (takeWhile (\<lambda>x. x \<noteq> c) (rev s))"

definition verify_token :: "(string \<Rightarrow> string \<Rightarrow> string) \<Rightarrow> string \<Rightarrow> string \<Rightarrow> string \<Rightarrow> exc + bool" where
  "verify_token kdf urandom token verifier =
     (case match_verifier verifier of
        None \<Rightarrow> Inr False
      | Some (salt_hex, expected) \<Rightarrow>
          bind_result (bytes_fromhex salt_hex) (\<lambda>salt.
          bind_result (make_token_verifier kdf urandom token salt) (\<lambda>v.
            Inr (after_last (CHR ''_'') v = expected))))"

section \<open>Token records\<close>

definition parse_record :: "string set \<Rightarrow> string \<Rightarrow> exc + token_record" where
  "parse_record names item =
     (case split_max 2 (CHR '':'') item of
        [name, verifier, scopes_csv] \<Rightarrow>
          (let scopes = csv_set scopes_csv; unknown = scopes - ALL_SCOPES in
           if name = [] \<or> name \<in> names
             then Inl (ValueError, ''token record names must be unique and non-empty'')
           else if match_verifier verifier = None
             then Inl (ValueError, ''token record '' @ repr_str name @ '' does not contain a valid scrypt verifier'')
           else if unknown \<noteq> {}
             then Inl (ValueError, ''token record '' @ repr_str name @ '' contains unknown scopes: '' @
               py_repr (JArr (map JStr (sorted_list_of_set unknown))))
           else if scopes = {}
             then Inl (ValueError, ''token record '' @ repr_str name @ '' must contain at least one scope'')
           else Inr \<lparr>tr_name = name, tr_verifier = verifier, tr_scopes = scopes\<rparr>)
      | _ \<Rightarrow> Inl (ValueError, ''token records must use name:scrypt-verifier:scope,scope''))"

fun parse_items :: "string set \<Rightarrow> string list \<Rightarrow> exc + token_record list" where
  "parse_items names [] = Inr []"
| "parse_items names (item # items) =
     bind_result (parse_record names item) (\<lambda>r.
     bind_result (parse_items (insert (tr_name r) names) items) (\<lambda>rs. Inr (r # rs)))"

definition record_items :: "string \<Rightarrow> string list" where
  "record_items raw = filter (\<lambda>p. p \<noteq> []) (map strip (split_on (CHR '';'') raw))"

definition parse_token_records :: "string \<Rightarrow> exc + token_record list" where
  "parse_token_records raw = parse_items {} (record_items raw)"

definition token_records :: "settings \<Rightarrow> exc + token_record list" where
  "token_records s = parse_token_records (api_token_records s)"

section \<open>Secrets\<close>

record fs_file =
  file_content :: string
  file_mode :: nat

type_synonym file_system = "string \<Rightarrow> fs_file option"

definition read_secret :: "file_system \<Rightarrow> string option \<Rightarrow> string option \<Rightarrow> exc + string" where
  "read_secret fs value file_path =
     (case value of
        Some (c # v) \<Rightarrow> Inr (c # v)
      | _ \<Rightarrow>
          (case file_path of
             None \<Rightarrow> Inr []
           | Some p \<Rightarrow>
               (case fs p of
                  None \<Rightarrow> Inl (FileNotFoundError, p)
                | Some f \<Rightarrow> Inr (strip (file_content f)))))"

datatype secret_name = Secret_splunk | Secret_adx | Secret_confluence | Secret_teams

fun secret_value :: "file_system \<Rightarrow> settings \<Rightarrow> secret_name \<Rightarrow> exc + string" where
  "secret_value fs s Secret_splunk = read_secret fs (splunk_password s) (splunk_password_file s)"
| "secret_value fs s Secret_adx = read_secret fs (adx_client_secret s) (adx_client_secret_file s)"
| "secret_value fs s Secret_confluence =
     read_secret fs (confluence_api_token s) (confluence_api_token_file s)"
| "secret_value fs s Secret_teams = read_secret fs (teams_client_secret s) (teams_client_secret_file s)"

text \<open>\<^verbatim>\<open>path.is_file()\<close> and no permission bit for group or others.\<close>

definition private_file :: "file_system \<Rightarrow> string \<Rightarrow> bool" where
  "private_file fs p = (case fs p of None \<Rightarrow> False | Some f \<Rightarrow> file_mode f AND 63 = 0)"

definition is_https :: "string \<Rightarrow> bool" where
  "is_https url = starts_with ''https://'' url"

section \<open>Start-up validation\<close>

text \<open>
  \<^verbatim>\<open>validate_runtime\<close> collects its complaints in order and raises them together; reading a
  secret file may raise on its own. Each block of the method is one function from the
  settings to its complaints.
\<close>

definition complain :: "bool \<Rightarrow> string \<Rightarrow> string list" where
  "complain bad msg = (if bad then [msg] else [])"

definition core_errors :: "token_record list \<Rightarrow> settings \<Rightarrow> string list" where
  "core_errors records s =
     complain (records = []) ''SPRINTER_API_TOKEN_RECORDS is required'' @
     complain (pi_expected_version s \<noteq> PI_VERSION)
       (''SPRINTER_PI_EXPECTED_VERSION must remain pinned to '' @ PI_VERSION) @
     complain (pi_provider s = [] \<or> pi_model s = []) ''SPRINTER_PI_PROVIDER and SPRINTER_PI_MODEL are required'' @
     complain (\<not> model_data_policy_ack s) ''SPRINTER_MODEL_DATA_POLICY_ACK=1 is required''"

definition secret_paths :: "settings \<Rightarrow> (string \<times> string option) list" where
  "secret_paths s =
     [(''SPRINTER_SPLUNK_CA_FILE'', splunk_ca_file s),
      (''SPRINTER_SPLUNK_PASSWORD_FILE'', splunk_password_file s),
      (''SPRINTER_SPLUNK_HEC_TOKEN_FILE'', splunk_hec_token_file s),
      (''SPRINTER_ADX_CLIENT_SECRET_FILE'', adx_client_secret_file s),
      (''SPRINTER_CONFLUENCE_API_TOKEN_FILE'', confluence_api_token_file s),
      (''SPRINTER_TEAMS_CLIENT_SECRET_FILE'', teams_client_secret_file s)]"

definition path_errors :: "file_system \<Rightarrow> settings \<Rightarrow> string list" where
  "path_errors fs s = concat (map (\<lambda>(name, path).
     case path of None \<Rightarrow> []
     | Some p \<Rightarrow> complain (\<not> private_file fs p) (name @ '' must be a private readable file''))
     (secret_paths s))"

definition splunk_errors :: "file_system \<Rightarrow> settings \<Rightarrow> exc + string list" where
  "splunk_errors fs s =
     (if splunk_base_url s = [] then Inr []
      else
        (let urls = complain (\<not> is_https (splunk_base_url s)) ''SPRINTER_SPLUNK_BASE_URL must use HTTPS'' @
           complain (allowed_splunk_indexes s = {})
             ''SPRINTER_SPLUNK_ALLOWED_INDEXES is required when Splunk is configured'' @
           (if splunk_results_index s = []
            then [''SPRINTER_SPLUNK_RESULTS_INDEX is required when Splunk is configured'']
            else complain (splunk_results_index s \<notin> allowed_splunk_indexes s)
              ''SPRINTER_SPLUNK_RESULTS_INDEX must be included in SPRINTER_SPLUNK_ALLOWED_INDEXES'');
           creds = ''Splunk username and password secret are required'' in
         if splunk_username s = [] then Inr (urls @ [creds])
         else bind_result (secret_value fs s Secret_splunk) (\<lambda>p. Inr (urls @ complain (p = []) creds))))"

definition hec_errors :: "file_system \<Rightarrow> settings \<Rightarrow> exc + string list" where
  "hec_errors fs s =
     (if splunk_hec_url s = [] then Inr []
      else bind_result (read_secret fs (splunk_hec_token s) (splunk_hec_token_file s)) (\<lambda>t.
        Inr (complain (\<not> is_https (splunk_hec_url s)) ''SPRINTER_SPLUNK_HEC_URL must use HTTPS'' @
             complain (t = []) ''Splunk HEC token secret is required'')))"

definition adx_errors :: "file_system \<Rightarrow> settings \<Rightarrow> exc + string list" where
  "adx_errors fs s =
     (if adx_cluster_url s = [] then Inr []
      else bind_result (secret_value fs s Secret_adx) (\<lambda>t.
        Inr (complain (\<not> is_https (adx_cluster_url s)) ''SPRINTER_ADX_CLUSTER_URL must use HTTPS'' @
             complain (adx_database s = [] \<or> adx_tenant_id s = [] \<or> adx_client_id s = [] \<or> t = [])
               ''ADX database and client credentials are required'')))"

definition confluence_errors :: "file_system \<Rightarrow> settings \<Rightarrow> exc + string list" where
  "confluence_errors fs s =
     (if confluence_base_url s = [] then Inr []
      else
        (let url = complain (\<not> is_https (confluence_base_url s)) ''SPRINTER_CONFLUENCE_BASE_URL must use HTTPS'';
             creds = ''Confluence email and API token secret are required'' in
         if confluence_email s = [] then Inr (url @ [creds])
         else bind_result (secret_value fs s Secret_confluence) (\<lambda>t. Inr (url @ complain (t = []) creds))))"

definition teams_errors :: "file_system \<Rightarrow> settings \<Rightarrow> exc + string list" where
  "teams_errors fs s =
     (if \<not> teams_enabled s then Inr []
      else bind_result (secret_value fs s Secret_teams) (\<lambda>t.
        Inr (complain (teams_app_id s = [] \<or> teams_tenant_id s = [] \<or> t = [])
               ''Teams app, tenant, and client secret configuration are required'' @
             complain (allowed_teams_tenants s = {}) ''SPRINTER_TEAMS_ALLOWED_TENANT_IDS is required'' @
             complain (\<not> is_https (teams_public_base_url s)) ''SPRINTER_TEAMS_PUBLIC_BASE_URL must use HTTPS'')))"

definition parent_dir :: "string \<Rightarrow> string" where
  "parent_dir p = (case dropWhile (\<lambda>c. c \<noteq> CHR ''/'') (rev p) of
     [] \<Rightarrow> ''.'' | [_] \<Rightarrow> ''/'' | _ # q \<Rightarrow> rev q)"

datatype role = Role_api | Role_worker | Role_ready

definition host_errors :: "bool \<Rightarrow> settings \<Rightarrow> role \<Rightarrow> string list" where
  "host_errors writable s r =
     complain (environment s = ''production'' \<and> host s \<notin> {''127.0.0.1'', ''::1''})
       ''SPRINTER_HOST must bind to loopback; container exposure is configured separately'' @
     complain (r = Role_worker \<and> \<not> writable) (''database directory is not writable: '' @ parent_dir (database_path s))"

definition validate_runtime :: "file_system \<Rightarrow> bool \<Rightarrow> settings \<Rightarrow> role \<Rightarrow> exc + unit" where
  "validate_runtime fs writable s r =
     bind_result (token_records s) (\<lambda>records.
     bind_result (splunk_errors fs s) (\<lambda>es.
     bind_result (hec_errors fs s) (\<lambda>eh.
     bind_result (adx_errors fs s) (\<lambda>ea.
     bind_result (confluence_errors fs s) (\<lambda>ec.
     bind_result (teams_errors fs s) (\<lambda>et.
       (let errors = core_errors records s @ path_errors fs s @ es @ eh @ ea @ ec @ et @
              host_errors writable s r in
        if errors \<noteq> [] then Inl (ValueError, join ''; '' errors) else Inr ())))))))"

end
