(* ===== verification/JobStore.thy ===== *)
theory JobStore
  imports JsonRoundtrip Models Schemas Config
begin

text \<open>
  The job operations of \<^verbatim>\<open>Database\<close> (\<^verbatim>\<open>src/sprinter/db.py\<close>). Each runs in one
  transaction; the clock reading and the generated identifiers are arguments. Where the code
  first selects and later writes (\<open>create_job\<close>, \<open>claim_job\<close>), another process may have
  committed in between: \<open>seen\<close> is the database at the select, \<open>db\<close> the one the write meets.
  A claim returns the object of its select, on which the session repeats the update.
  A fresh identifier is assumed not to collide, except in \<open>create_job\<close>, whose handling of a
  constraint violation is modelled.
\<close>

section \<open>Submission\<close>

definition new_job ::
  "settings \<Rightarrow> instant \<Rightarrow> string \<Rightarrow> string \<Rightarrow> string \<Rightarrow> json \<Rightarrow> string \<Rightarrow> json \<Rightarrow> nat \<Rightarrow> job"
where
  "new_job s now hex key seltype sel source summary row_limit =
     \<lparr>j_id = new_id ''job'' hex, j_idempotency_key = key, j_selector_type = seltype,
      j_selector_json = dumps sel, j_source = take 128 source, j_summary_json = dumps summary,
      j_row_limit = row_limit, j_status = Pending, j_attempts = 0,
      j_max_attempts = job_max_attempts s, j_available_at = now, j_claimed_at = None,
      j_completed_at = None, j_result_json = None, j_error_json = None,
      j_created_at = now, j_updated_at = now\<rparr>"

definition request_tuple :: "job \<Rightarrow> string \<times> string \<times> string \<times> string \<times> nat" where
  "request_tuple j =
     (j_selector_type j, j_selector_json j, j_source j, j_summary_json j, j_row_limit j)"

definition create_job ::
  "settings \<Rightarrow> instant \<Rightarrow> string \<Rightarrow> database \<Rightarrow> string \<Rightarrow> string \<Rightarrow> json \<Rightarrow> string \<Rightarrow> json \<Rightarrow> nat \<Rightarrow>
   database \<Rightarrow> database \<times> (exc + job \<times> bool)"
where
  "create_job s now hex seen key seltype sel source summary row_limit db =
     (case get_by j_idempotency_key key (jobs seen) of
        Some existing \<Rightarrow>
          if request_tuple existing \<noteq> (seltype, dumps sel, take 128 source, dumps summary, row_limit)
          then (db, Inl (IdempotencyConflict, ''idempotency key was already used for a different request''))
          else (db, Inr (existing, False))
      | None \<Rightarrow>
          let job = new_job s now hex key seltype sel source summary row_limit in
          if (\<exists>r \<in> set (jobs db). j_idempotency_key r = key \<or> j_id r = j_id job)
          then (case get_by j_idempotency_key key (jobs db) of
                  Some existing \<Rightarrow> (db, Inr (existing, False))
                | None \<Rightarrow> (db, Inl (Foreign ''IntegrityError'', ''UNIQUE constraint failed: jobs.id'')))
          else (db\<lparr>jobs := jobs db @ [job]\<rparr>, Inr (job, True)))"

definition get_job :: "string \<Rightarrow> database \<Rightarrow> job option" where
  "get_job i db = get_by j_id i (jobs db)"

section \<open>Claiming\<close>

definition claimable :: "job \<Rightarrow> bool" where
  "claimable j = (j_status j \<in> {Pending, Retry})"

definition due :: "instant \<Rightarrow> job \<Rightarrow> bool" where
  "due now j = (claimable j \<and> j_available_at j \<le> now)"

definition mark_claimed :: "instant \<Rightarrow> job \<Rightarrow> job" where
  "mark_claimed now j = j\<lparr>j_status := Running, j_attempts := j_attempts j + 1,
     j_claimed_at := Some now, j_updated_at := now\<rparr>"

definition claim_job :: "instant \<Rightarrow> database \<Rightarrow> database \<Rightarrow> database \<times> job option" where
  "claim_job now seen db =
     (case first_row (order_by j_created_at (filter (due now) (jobs seen))) of
        None \<Rightarrow> (db, None)
      | Some candidate \<Rightarrow>
          let cond = (\<lambda>r. j_id r = j_id candidate \<and> claimable r);
              db' = db\<lparr>jobs := update_where cond (mark_claimed now) (jobs db)\<rparr> in
          if rowcount cond (jobs db) \<noteq> 1 then (db', None)
          else (db', Some (mark_claimed now candidate)))"

section \<open>Recovery, failure and completion\<close>

definition abandoned :: "instant \<Rightarrow> job \<Rightarrow> bool" where
  "abandoned cutoff j = (j_status j = Running \<and>
     (case j_claimed_at j of None \<Rightarrow> False | Some t \<Rightarrow> t < cutoff))"

definition mark_recovered :: "instant \<Rightarrow> job \<Rightarrow> job" where
  "mark_recovered now j = j\<lparr>j_status := Retry, j_available_at := now, j_updated_at := now\<rparr>"

definition recover_abandoned_jobs :: "instant \<Rightarrow> int \<Rightarrow> database \<Rightarrow> database \<times> nat" where
  "recover_abandoned_jobs now older_than_seconds db =
     (let cond = abandoned (now - seconds older_than_seconds) in
      (db\<lparr>jobs := update_where cond (mark_recovered now) (jobs db)\<rparr>, rowcount cond (jobs db)))"

definition mark_failed :: "instant \<Rightarrow> bool \<Rightarrow> json \<Rightarrow> int \<Rightarrow> job \<Rightarrow> job" where
  "mark_failed now terminal err delay_seconds j =
     j\<lparr>j_status := if terminal then Failed else Retry,
       j_error_json := Some (dumps err),
       j_available_at := now + seconds delay_seconds,
       j_completed_at := if terminal then Some now else None,
       j_updated_at := now\<rparr>"

definition retry_job :: "instant \<Rightarrow> job \<Rightarrow> json \<Rightarrow> int \<Rightarrow> database \<Rightarrow> database" where
  "retry_job now job err delay_seconds db =
     (let terminal = (j_attempts job \<ge> j_max_attempts job) in
      db\<lparr>jobs := update_where (\<lambda>r. j_id r = j_id job) (mark_failed now terminal err delay_seconds) (jobs db)\<rparr>)"

record evidence_item =
  x_external_id :: string
  x_kind :: string
  x_title :: string
  x_uri :: string
  x_payload :: json

record model_info =
  mi_provider :: string
  mi_model :: string
  mi_pi_version :: string

definition evidence_row :: "settings \<Rightarrow> instant \<Rightarrow> string \<Rightarrow> evidence_item \<Rightarrow> string \<Rightarrow> evidence" where
  "evidence_row s now jid item hex =
     \<lparr>e_id = new_id ''evidence'' hex, e_job_id = jid,
      e_kind = take 32 (if x_kind item \<noteq> [] then x_kind item else ''event''),
      e_title = take 256 (if x_title item \<noteq> [] then x_title item else ''Evidence''),
      e_uri = x_uri item,
      e_payload_json = dumps (py_or (x_payload item) (JObj [])),
      e_created_at = now, e_expires_at = now + days (evidence_retention_days s)\<rparr>"

definition decision_row ::
  "instant \<Rightarrow> string \<Rightarrow> string \<Rightarrow> model_decision \<Rightarrow> model_info \<Rightarrow> decision"
where
  "decision_row now did jid md m =
     \<lparr>d_id = did, d_job_id = jid, d_verdict = md_verdict md, d_severity = md_severity md,
      d_summary = md_summary md,
      d_rationale_json = dumps (JObj [(''rationale'', strings (md_rationale md)),
        (''recommended_actions'', strings (md_recommended_actions md)),
        (''evidence_ids'', strings (md_evidence_ids md))]),
      d_model_provider = mi_provider m, d_model_id = mi_model m, d_pi_version = mi_pi_version m,
      d_created_at = now\<rparr>"

definition note_finding :: "instant \<Rightarrow> string \<Rightarrow> string \<Rightarrow> string \<Rightarrow> finding list \<Rightarrow> finding list" where
  "note_finding now hex key did fs =
     (case get_by f_dedupe_key key fs of
        Some _ \<Rightarrow> update_where (\<lambda>f. f_dedupe_key f = key)
          (\<lambda>f. f\<lparr>f_occurrences := f_occurrences f + 1, f_last_seen_at := now, f_decision_id := did\<rparr>) fs
      | None \<Rightarrow> fs @ [\<lparr>f_id = new_id ''finding'' hex, f_dedupe_key = key, f_decision_id = did,
          f_occurrences = 1, f_first_seen_at = now, f_last_seen_at = now\<rparr>])"

definition public_decision :: "model_decision \<Rightarrow> string \<Rightarrow> string \<Rightarrow> json dict" where
  "public_decision md key did =
     dump_decision md @ [(''finding_key'', JStr key), (''decision_id'', JStr did)]"

definition mark_succeeded :: "instant \<Rightarrow> json \<Rightarrow> job \<Rightarrow> job" where
  "mark_succeeded now result j =
     j\<lparr>j_status := Succeeded, j_result_json := Some (dumps result), j_error_json := None,
       j_completed_at := Some now, j_updated_at := now\<rparr>"

text \<open>
  \<^verbatim>\<open>hexes\<close> are the random parts of the decision's, the finding's and the evidence rows'
  identifiers. Inserting evidence or a decision for a job that does not exist violates the
  foreign key, and the transaction rolls back.
\<close>

record complete_hexes =
  hx_decision :: string
  hx_finding :: string
  hx_evidence :: "nat \<Rightarrow> string"

definition complete_job ::
  "settings \<Rightarrow> instant \<Rightarrow> complete_hexes \<Rightarrow> job \<Rightarrow> model_decision \<Rightarrow> string \<Rightarrow> evidence_item list \<Rightarrow> model_info \<Rightarrow>
   database \<Rightarrow> database \<times> (exc + string)"
where
  "complete_job s now hx job md key evidence m db =
     (let did = new_id ''decision'' (hx_decision hx) in
      if get_by j_id (j_id job) (jobs db) = None
      then (db, Inl (Foreign ''IntegrityError'', ''FOREIGN KEY constraint failed''))
      else
        (db\<lparr>evidences := evidences db @
              map (\<lambda>(i, item). evidence_row s now (j_id job) item (hx_evidence hx i)) (enumerate 0 evidence),
            decisions := decisions db @ [decision_row now did (j_id job) md m],
            findings := note_finding now (hx_finding hx) key did (findings db),
            jobs := update_where (\<lambda>r. j_id r = j_id job)
              (mark_succeeded now (JObj (public_decision md key did))) (jobs db)\<rparr>,
         Inr did))"

section \<open>Row updates keep the key columns\<close>

lemma job_frames [row_frames, simp]:
  "j_id (mark_claimed now j) = j_id j"
  "j_id (mark_recovered now j) = j_id j"
  "j_id (mark_failed now b e d j) = j_id j"
  "j_id (mark_succeeded now r j) = j_id j"
  "j_idempotency_key (mark_claimed now j) = j_idempotency_key j"
  "j_idempotency_key (mark_recovered now j) = j_idempotency_key j"
  "j_idempotency_key (mark_failed now b e d j) = j_idempotency_key j"
  "j_idempotency_key (mark_succeeded now r j) = j_idempotency_key j"
  "request_tuple (mark_claimed now j) = request_tuple j"
  "request_tuple (mark_recovered now j) = request_tuple j"
  "request_tuple (mark_failed now b e d j) = request_tuple j"
  "request_tuple (mark_succeeded now r j) = request_tuple j"
  by (simp_all add: mark_claimed_def mark_recovered_def mark_failed_def mark_succeeded_def request_tuple_def)

interpretation claim_upd: keyed_update j_id "mark_claimed now" for now by unfold_locales simp
interpretation recover_upd: keyed_update j_id "mark_recovered now" for now by unfold_locales simp
interpretation fail_upd: keyed_update j_id "mark_failed now b e d" for now b e d by unfold_locales simp
interpretation success_upd: keyed_update j_id "mark_succeeded now r" for now r by unfold_locales simp

end
