(* ===== verification/OutboxStore.thy ===== *)
theory OutboxStore
  imports JsonRoundtrip Models
begin

text \<open>
  The delivery outbox of \<^verbatim>\<open>Database\<close> (\<^verbatim>\<open>src/sprinter/db.py\<close>): items are queued, read in
  creation order when due, and marked sent or failed with exponential backoff.
\<close>

definition enqueue :: "instant \<Rightarrow> string \<Rightarrow> string \<Rightarrow> json \<Rightarrow> string \<Rightarrow> database \<Rightarrow> database \<times> string" where
  "enqueue now hex channel payload target_id db =
     (let oid = new_id ''delivery'' hex in
      (db\<lparr>deliveries := deliveries db @
         [\<lparr>o_id = oid, o_channel = channel, o_target_id = target_id, o_payload_json = dumps payload,
           o_status = Delivery_pending, o_attempts = 0, o_max_attempts = 10, o_available_at = now,
           o_last_error = [], o_created_at = now, o_updated_at = now\<rparr>]\<rparr>, oid))"

definition delivery_due :: "instant \<Rightarrow> outbox \<Rightarrow> bool" where
  "delivery_due now o1 =
     (o_status o1 \<in> {Delivery_pending, Delivery_retry} \<and> o_available_at o1 \<le> now)"

definition pending_deliveries :: "instant \<Rightarrow> nat \<Rightarrow> database \<Rightarrow> outbox list" where
  "pending_deliveries now limit db =
     take limit (order_by o_created_at (filter (delivery_due now) (deliveries db)))"

definition mark_sent :: "instant \<Rightarrow> outbox \<Rightarrow> outbox" where
  "mark_sent now o1 = o1\<lparr>o_status := Delivery_sent, o_attempts := o_attempts o1 + 1,
     o_last_error := [], o_updated_at := now\<rparr>"

definition delivery_succeeded :: "instant \<Rightarrow> string \<Rightarrow> database \<Rightarrow> database" where
  "delivery_succeeded now i db =
     db\<lparr>deliveries := update_where (\<lambda>r. o_id r = i) (mark_sent now) (deliveries db)\<rparr>"

definition delivery_delay :: "nat \<Rightarrow> int" where
  "delivery_delay attempts = min 3600 (2 ^ min attempts 10)"

text \<open>\<open>item\<close> is the row as it was read; its attempt count decides whether this failure is final.\<close>

definition mark_undelivered :: "instant \<Rightarrow> outbox \<Rightarrow> string \<Rightarrow> outbox \<Rightarrow> outbox" where
  "mark_undelivered now item err r =
     (let attempts = o_attempts item + 1; terminal = (attempts \<ge> o_max_attempts item) in
      r\<lparr>o_status := if terminal then Delivery_failed else Delivery_retry, o_attempts := attempts,
        o_last_error := take 4000 err,
        o_available_at := now + seconds (delivery_delay attempts), o_updated_at := now\<rparr>)"

definition delivery_failed :: "instant \<Rightarrow> outbox \<Rightarrow> string \<Rightarrow> database \<Rightarrow> database" where
  "delivery_failed now item err db =
     db\<lparr>deliveries := update_where (\<lambda>r. o_id r = o_id item) (mark_undelivered now item err) (deliveries db)\<rparr>"

section \<open>Frames and basic facts\<close>

lemma delivery_frames [row_frames, simp]:
  "o_id (mark_sent now r) = o_id r"
  "o_id (mark_undelivered now item e r) = o_id r"
  "o_channel (mark_sent now r) = o_channel r"
  "o_channel (mark_undelivered now item e r) = o_channel r"
  "o_max_attempts (mark_sent now r) = o_max_attempts r"
  "o_max_attempts (mark_undelivered now item e r) = o_max_attempts r"
  by (simp_all add: mark_sent_def mark_undelivered_def Let_def)

interpretation sent_upd: keyed_update o_id "mark_sent now" for now by unfold_locales simp
interpretation undelivered_upd: keyed_update o_id "mark_undelivered now item e" for now item e
  by unfold_locales simp

lemma delivery_delay_bounds: "1 \<le> n \<Longrightarrow> 2 \<le> delivery_delay n \<and> delivery_delay n \<le> 1024"
proof -
  assume n: "1 \<le> n"
  have "(2::int) ^ 1 \<le> 2 ^ min n 10" using n by (intro power_increasing) auto
  moreover have "(2::int) ^ min n 10 \<le> 2 ^ 10" by (intro power_increasing) auto
  ultimately show ?thesis by (simp add: delivery_delay_def)
qed

lemma delivery_delay_mono: "m \<le> n \<Longrightarrow> delivery_delay m \<le> delivery_delay n"
proof -
  assume "m \<le> n"
  then have "(2::int) ^ min m 10 \<le> 2 ^ min n 10" by (intro power_increasing) auto
  then show ?thesis unfolding delivery_delay_def by linarith
qed

end
