(* ===== verification/TeamsStore.thy ===== *)
theory TeamsStore
  imports Models
begin

text \<open>
  Teams destinations in \<^verbatim>\<open>Database\<close> (\<^verbatim>\<open>src/sprinter/db.py\<close>): discovered disabled,
  enabled by an administrator only while active, deactivated on removal. The activity of the
  Teams SDK is reduced to what the code reads from it: the conversation's id and type, the
  service URL, and the serialised conversation reference.
\<close>

record activity_info =
  act_conversation_id :: string
  act_conversation_type :: "string option"
  act_service_url :: string
  act_reference_json :: string

definition destination :: "string \<Rightarrow> string \<Rightarrow> installation \<Rightarrow> bool" where
  "destination tenant_id conversation_id t =
     (t_tenant_id t = tenant_id \<and> t_conversation_id t = conversation_id)"

definition activity_scope :: "activity_info \<Rightarrow> string" where
  "activity_scope a = (case act_conversation_type a of
     None \<Rightarrow> ''personal'' | Some s \<Rightarrow> if s = [] then ''personal'' else s)"

definition touch_installation :: "instant \<Rightarrow> activity_info \<Rightarrow> installation \<Rightarrow> installation" where
  "touch_installation now a t =
     t\<lparr>t_service_url := act_service_url a, t_scope := activity_scope a,
       t_reference_json := act_reference_json a, t_active := True, t_last_seen_at := now\<rparr>"

definition new_installation :: "instant \<Rightarrow> string \<Rightarrow> activity_info \<Rightarrow> string \<Rightarrow> installation" where
  "new_installation now hex a tenant_id =
     \<lparr>t_id = new_id ''teams'' hex, t_tenant_id = tenant_id,
      t_conversation_id = act_conversation_id a, t_service_url = act_service_url a,
      t_scope = activity_scope a, t_reference_json = act_reference_json a, t_enabled = False,
      t_active = True, t_discovered_at = now, t_last_seen_at = now\<rparr>"

definition upsert_installation ::
  "instant \<Rightarrow> string \<Rightarrow> activity_info \<Rightarrow> string \<Rightarrow> database \<Rightarrow> database \<times> installation"
where
  "upsert_installation now hex a tenant_id db =
     (let here = destination tenant_id (act_conversation_id a) in
      case find here (installs db) of
        None \<Rightarrow>
          (let t = new_installation now hex a tenant_id in (db\<lparr>installs := installs db @ [t]\<rparr>, t))
      | Some t \<Rightarrow>
          (db\<lparr>installs := update_where (\<lambda>r. t_id r = t_id t) (touch_installation now a) (installs db)\<rparr>,
           touch_installation now a t))"

definition mark_inactive :: "instant \<Rightarrow> installation \<Rightarrow> installation" where
  "mark_inactive now t = t\<lparr>t_active := False, t_enabled := False, t_last_seen_at := now\<rparr>"

definition deactivate_installation :: "instant \<Rightarrow> string \<Rightarrow> string \<Rightarrow> database \<Rightarrow> database \<times> bool" where
  "deactivate_installation now tenant_id conversation_id db =
     (let cond = destination tenant_id conversation_id in
      (db\<lparr>installs := update_where cond (mark_inactive now) (installs db)\<rparr>,
       rowcount cond (installs db) \<noteq> 0))"

definition installations :: "bool \<Rightarrow> database \<Rightarrow> installation list" where
  "installations enabled_only db =
     order_by t_discovered_at
       (if enabled_only then filter (\<lambda>t. t_enabled t \<and> t_active t) (installs db) else installs db)"

definition mark_enabled :: "instant \<Rightarrow> bool \<Rightarrow> installation \<Rightarrow> installation" where
  "mark_enabled now enabled t = t\<lparr>t_enabled := enabled, t_last_seen_at := now\<rparr>"

definition set_installation_enabled ::
  "instant \<Rightarrow> string \<Rightarrow> bool \<Rightarrow> database \<Rightarrow> database \<times> installation option"
where
  "set_installation_enabled now installation_id enabled db =
     (case get_by t_id installation_id (installs db) of
        None \<Rightarrow> (db, None)
      | Some t \<Rightarrow>
          if enabled \<and> \<not> t_active t then (db, None)
          else (db\<lparr>installs := update_where (\<lambda>r. t_id r = installation_id) (mark_enabled now enabled) (installs db)\<rparr>,
                Some (mark_enabled now enabled t)))"

section \<open>Frames\<close>

lemma installation_frames [row_frames, simp]:
  "t_id (touch_installation now a t) = t_id t"
  "t_id (mark_inactive now t) = t_id t"
  "t_id (mark_enabled now b t) = t_id t"
  "destination x y (touch_installation now a t) = destination x y t"
  "destination x y (mark_inactive now t) = destination x y t"
  "destination x y (mark_enabled now b t) = destination x y t"
  by (simp_all add: touch_installation_def mark_inactive_def mark_enabled_def destination_def)

interpretation touch_upd: keyed_update t_id "touch_installation now a" for now a by unfold_locales simp
interpretation inactive_upd: keyed_update t_id "mark_inactive now" for now by unfold_locales simp
interpretation enabled_upd: keyed_update t_id "mark_enabled now b" for now b by unfold_locales simp

section \<open>The well-formedness of the destination table\<close>

text \<open>
  Identifiers and destinations are unique (the second is the table's unique constraint), and a
  destination is enabled only while it is active.
\<close>

definition installs_ok :: "installation list \<Rightarrow> bool" where
  "installs_ok ts =
     (distinct (map t_id ts) \<and> distinct (map (\<lambda>t. (t_tenant_id t, t_conversation_id t)) ts) \<and>
      (\<forall>t \<in> set ts. t_enabled t \<longrightarrow> t_active t))"

lemma installs_ok_update:
  assumes "installs_ok ts" and "\<And>t. t_id (f t) = t_id t" and "\<And>t. t_tenant_id (f t) = t_tenant_id t"
    and "\<And>t. t_conversation_id (f t) = t_conversation_id t"
    and "\<And>t. t \<in> set ts \<Longrightarrow> p t \<Longrightarrow> t_enabled (f t) \<Longrightarrow> t_active (f t)"
  shows "installs_ok (update_where p f ts)"
  using assms by (auto simp: installs_ok_def update_where_cong_frame set_update_where)

lemma upsert_installation_ok:
  assumes "installs_ok (installs db)" and "new_id ''teams'' hex \<notin> t_id ` set (installs db)"
  shows "installs_ok (installs (fst (upsert_installation now hex a tenant_id db)))"
proof (cases "find (destination tenant_id (act_conversation_id a)) (installs db)")
  case None
  then have "(tenant_id, act_conversation_id a) \<notin>
      (\<lambda>t. (t_tenant_id t, t_conversation_id t)) ` set (installs db)"
    by (auto simp: find_None_iff destination_def)
  with None assms show ?thesis
    by (auto simp: upsert_installation_def installs_ok_def new_installation_def Let_def)
next
  case (Some t)
  have "installs_ok (update_where (\<lambda>r. t_id r = t_id t) (touch_installation now a) (installs db))"
    by (rule installs_ok_update [OF assms(1)]) (simp_all add: touch_installation_def)
  with Some show ?thesis by (simp add: upsert_installation_def)
qed

lemma deactivate_installation_ok:
  "installs_ok (installs db) \<Longrightarrow> installs_ok (installs (fst (deactivate_installation now x y db)))"
  by (auto simp: deactivate_installation_def mark_inactive_def Let_def intro!: installs_ok_update)

lemma set_installation_enabled_ok:
  assumes "installs_ok (installs db)"
  shows "installs_ok (installs (fst (set_installation_enabled now i b db)))"
proof (cases "get_by t_id i (installs db)")
  case (Some t)
  have "t_active r" if "r \<in> set (installs db)" "t_id r = i" "b" "\<not> (b \<and> \<not> t_active t)" for r
    using that Some assms get_by_unique [of t_id "installs db" r] by (auto simp: installs_ok_def)
  with Some assms show ?thesis
    by (auto simp: set_installation_enabled_def mark_enabled_def intro!: installs_ok_update)
qed (simp add: set_installation_enabled_def assms)

end
