(* ===== verification/Retention.thy ===== *)
theory Retention
  imports JobStore OutboxStore TeamsStore
begin

text \<open>
  The remaining operations of \<^verbatim>\<open>Database\<close> (\<^verbatim>\<open>src/sprinter/db.py\<close>): audit events, the
  worker's heartbeat, readiness, and the daily purge. Two facts of the database driver are
  parameters of the operations: whether a timestamp column is loaded as a timezone-aware value
  (\<open>aware\<close>; SQLite drops the time zone), and how the stored text of a timestamp is ordered against
  the text of a bound parameter (\<open>before\<close>). \<open>driver_before\<close> is that order as SQLite and the adapter
  of \<^verbatim>\<open>db.py\<close> make it.
\<close>

section \<open>Audit events and the heartbeat\<close>

definition audit_row :: "settings \<Rightarrow> instant \<Rightarrow> string \<Rightarrow> string \<Rightarrow> string \<Rightarrow> json \<Rightarrow> audit_event" where
  "audit_row s now eid event_type actor payload =
     \<lparr>a_id = eid, a_event_type = event_type, a_actor = take 128 actor, a_payload_json = dumps payload,
      a_created_at = now, a_expires_at = now + days (audit_retention_days s)\<rparr>"

definition audit ::
  "settings \<Rightarrow> instant \<Rightarrow> string \<Rightarrow> string \<Rightarrow> string \<Rightarrow> json \<Rightarrow> database \<Rightarrow> database \<times> string"
where
  "audit s now hex event_type actor payload db =
     (let eid = new_id ''audit'' hex in
      (db\<lparr>audits := audits db @ [audit_row s now eid event_type actor payload]\<rparr>, eid))"

definition report_health :: "instant \<Rightarrow> bool \<Rightarrow> string \<Rightarrow> json \<Rightarrow> worker_health \<Rightarrow> worker_health" where
  "report_health now pi_ready pi_error details h =
     h\<lparr>h_heartbeat_at := now, h_pi_ready := pi_ready, h_pi_checked_at := Some now,
       h_pi_error := take 4000 pi_error, h_details_json := dumps details\<rparr>"

definition heartbeat :: "instant \<Rightarrow> bool \<Rightarrow> string \<Rightarrow> json \<Rightarrow> database \<Rightarrow> database" where
  "heartbeat now pi_ready pi_error details db =
     (let report = report_health now pi_ready pi_error (py_or details (JObj [])) in
      case get_by h_role ''worker'' (health db) of
        None \<Rightarrow>
          db\<lparr>health := health db @
            [report \<lparr>h_role = ''worker'', h_heartbeat_at = now, h_pi_ready = False,
                     h_pi_checked_at = None, h_pi_error = [], h_details_json = ''{}''\<rparr>]\<rparr>
      | Some _ \<Rightarrow> db\<lparr>health := update_where (\<lambda>h. h_role h = ''worker'') report (health db)\<rparr>)"

section \<open>Readiness\<close>

record readiness_view =
  rv_worker_heartbeat :: "instant option"
  rv_worker_fresh :: bool
  rv_pi_ready :: bool
  rv_pi_error :: string
  rv_enabled_teams_destinations :: nat

text \<open>
  Comparing a naive with an aware timestamp raises \<^verbatim>\<open>TypeError\<close>; the current time is aware.
\<close>

definition fresh :: "bool \<Rightarrow> settings \<Rightarrow> instant \<Rightarrow> worker_health \<Rightarrow> exc + bool" where
  "fresh aware s now worker =
     (if aware then Inr (now - seconds (worker_stale_seconds s) \<le> h_heartbeat_at worker)
      else Inl (TypeError, ''can't compare offset-naive and offset-aware datetimes''))"

definition readiness :: "bool \<Rightarrow> settings \<Rightarrow> instant \<Rightarrow> database \<Rightarrow> exc + readiness_view" where
  "readiness aware s now db =
     (let targets = rowcount (\<lambda>t. t_enabled t \<and> t_active t) (installs db) in
      case get_by h_role ''worker'' (health db) of
        None \<Rightarrow> Inr \<lparr>rv_worker_heartbeat = None, rv_worker_fresh = False, rv_pi_ready = False,
          rv_pi_error = ''worker has not reported'', rv_enabled_teams_destinations = targets\<rparr>
      | Some worker \<Rightarrow>
          bind_result (fresh aware s now worker) (\<lambda>b.
            Inr \<lparr>rv_worker_heartbeat = Some (h_heartbeat_at worker), rv_worker_fresh = b,
                 rv_pi_ready = h_pi_ready worker, rv_pi_error = h_pi_error worker,
                 rv_enabled_teams_destinations = targets\<rparr>))"

section \<open>Timestamps as texts\<close>

text \<open>
  A column of type \<^verbatim>\<open>DateTime\<close> holds \<^verbatim>\<open>YYYY-MM-DD HH:MM:SS.ffffff\<close> in UTC. A parameter of a
  statement given as \<^verbatim>\<open>text\<close> goes through the adapter, which writes \<^verbatim>\<open>value.isoformat()\<close>:
  \<^verbatim>\<open>YYYY-MM-DDTHH:MM:SS.ffffff+00:00\<close>. SQLite compares the two as texts: first the ten characters of
  the dates, which order dates of four-digit years as days, then what follows them.
\<close>

definition day_of :: "instant \<Rightarrow> int" where
  "day_of t = t div days 1"

definition two_digits :: "nat \<Rightarrow> string" where
  "two_digits n = (if n < 10 then ''0'' else []) @ digits_of n"

definition clock_text :: "instant \<Rightarrow> string" where
  "clock_text t =
     (let q = nat (t mod days 1 div seconds 1) in
      two_digits (q div 3600) @ '':'' @ two_digits (q div 60 mod 60) @ '':'' @ two_digits (q mod 60))"

definition fraction_text :: "instant \<Rightarrow> string" where
  "fraction_text t =
     (let d = digits_of (nat (t mod seconds 1)) in ''.'' @ replicate (6 - length d) (CHR ''0'') @ d)"

definition stored_time :: "instant \<Rightarrow> string" where
  "stored_time t = '' '' @ clock_text t @ fraction_text t"

definition bound_time :: "instant \<Rightarrow> string" where
  "bound_time t = ''T'' @ clock_text t @ (if t mod seconds 1 = 0 then [] else fraction_text t) @ ''+00:00''"

definition driver_before :: "instant \<Rightarrow> instant \<Rightarrow> bool" where
  "driver_before stored bound =
     (day_of stored < day_of bound \<or> day_of stored = day_of bound \<and> stored_time stored < bound_time bound)"

text \<open>The blank sorts before the letter: a timestamp of the day of the bound always counts as earlier.\<close>

lemma driver_before_iff: "driver_before stored bound \<longleftrightarrow> day_of stored \<le> day_of bound"
proof -
  have "stored_time stored < bound_time bound"
    by (simp add: stored_time_def bound_time_def less_char_def)
  then show ?thesis by (auto simp: driver_before_def)
qed

lemma day_of_minus_days [simp]: "day_of (t - days n) = day_of t - n"
proof -
  have "t - days n = t + (- n) * days 1" by (simp add: days_def seconds_def)
  then show ?thesis by (simp add: day_of_def days_def seconds_def)
qed

lemma day_of_plus_days [simp]: "day_of (t + days n) = day_of t + n"
  using day_of_minus_days [of t "- n"] by (simp add: days_def seconds_def)

lemma day_of_mono: "t \<le> t' \<Longrightarrow> day_of t \<le> day_of t'"
  by (simp add: day_of_def days_def seconds_def zdiv_mono1)

section \<open>The purge\<close>

definition terminal :: "job \<Rightarrow> bool" where
  "terminal j = (j_status j \<in> {Succeeded, Failed})"

definition stale_job :: "(instant \<Rightarrow> instant \<Rightarrow> bool) \<Rightarrow> instant \<Rightarrow> job \<Rightarrow> bool" where
  "stale_job before cutoff j =
     (terminal j \<and> (case j_completed_at j of None \<Rightarrow> False | Some t \<Rightarrow> before t cutoff))"

text \<open>Deleting jobs; the foreign keys cascade to evidence and decisions, and from these to findings.\<close>

definition delete_jobs :: "(job \<Rightarrow> bool) \<Rightarrow> database \<Rightarrow> database" where
  "delete_jobs p db =
     (let dead = map j_id (filter p (jobs db));
          lost = map d_id (filter (\<lambda>d. d_job_id d \<in> set dead) (decisions db)) in
      db\<lparr>jobs := delete_where p (jobs db),
         evidences := delete_where (\<lambda>e. e_job_id e \<in> set dead) (evidences db),
         decisions := delete_where (\<lambda>d. d_job_id d \<in> set dead) (decisions db),
         findings := delete_where (\<lambda>f. f_decision_id f \<in> set lost) (findings db)\<rparr>)"

definition stale_delivery :: "(instant \<Rightarrow> instant \<Rightarrow> bool) \<Rightarrow> instant \<Rightarrow> outbox \<Rightarrow> bool" where
  "stale_delivery before cutoff r =
     (o_status r \<in> {Delivery_sent, Delivery_failed} \<and> before (o_updated_at r) cutoff)"

record purge_counts =
  pc_evidence :: nat
  pc_audit_events :: nat
  pc_jobs :: nat
  pc_teams_installations :: nat
  pc_delivery_outbox :: nat

definition counts_json :: "purge_counts \<Rightarrow> json" where
  "counts_json c = JObj [(''evidence'', JInt (int (pc_evidence c))),
     (''audit_events'', JInt (int (pc_audit_events c))), (''jobs'', JInt (int (pc_jobs c))),
     (''teams_installations'', JInt (int (pc_teams_installations c))),
     (''delivery_outbox'', JInt (int (pc_delivery_outbox c)))]"

definition note_retention :: "instant \<Rightarrow> purge_counts \<Rightarrow> retention_metadata list \<Rightarrow> retention_metadata list" where
  "note_retention now c rs =
     (let row = \<lparr>r_key = ''daily'', r_last_run_at = Some now, r_details_json = dumps (counts_json c)\<rparr> in
      case get_by r_key ''daily'' rs of
        None \<Rightarrow> rs @ [row]
      | Some _ \<Rightarrow> update_where (\<lambda>r. r_key r = ''daily'') (\<lambda>_. row) rs)"

definition purge ::
  "(instant \<Rightarrow> instant \<Rightarrow> bool) \<Rightarrow> settings \<Rightarrow> instant \<Rightarrow> database \<Rightarrow> database \<times> purge_counts"
where
  "purge before s now db =
     (let job_cutoff = now - days (job_retention_days s);
          teams_cutoff = now - days (teams_installation_retention_days s);
          audit_cutoff = now - days (audit_retention_days s);
          expired_evidence = (\<lambda>e. before (e_expires_at e) now);
          expired_audit = (\<lambda>a. before (a_expires_at a) now);
          old_job = stale_job before job_cutoff;
          old_install = (\<lambda>t. \<not> t_active t \<and> before (t_last_seen_at t) teams_cutoff);
          old_delivery = stale_delivery before audit_cutoff;
          c = \<lparr>pc_evidence = rowcount expired_evidence (evidences db),
               pc_audit_events = rowcount expired_audit (audits db),
               pc_jobs = rowcount old_job (jobs db),
               pc_teams_installations = rowcount old_install (installs db),
               pc_delivery_outbox = rowcount old_delivery (deliveries db)\<rparr>;
          db1 = db\<lparr>evidences := delete_where expired_evidence (evidences db)\<rparr>;
          db2 = db1\<lparr>audits := delete_where expired_audit (audits db1)\<rparr>;
          db3 = delete_jobs old_job db2;
          db4 = db3\<lparr>installs := delete_where old_install (installs db3)\<rparr>;
          db5 = db4\<lparr>deliveries := delete_where old_delivery (deliveries db4)\<rparr> in
      (db5\<lparr>retention := note_retention now c (retention db5)\<rparr>, c))"

section \<open>Facts\<close>

lemma purge_tables [simp]:
  "jobs (fst (purge before s now db)) =
     delete_where (stale_job before (now - days (job_retention_days s))) (jobs db)"
  "audits (fst (purge before s now db)) = delete_where (\<lambda>a. before (a_expires_at a) now) (audits db)"
  "installs (fst (purge before s now db)) =
     delete_where (\<lambda>t. \<not> t_active t \<and> before (t_last_seen_at t) (now - days (teams_installation_retention_days s)))
       (installs db)"
  "deliveries (fst (purge before s now db)) =
     delete_where (stale_delivery before (now - days (audit_retention_days s))) (deliveries db)"
  "health (fst (purge before s now db)) = health db"
  by (simp_all add: purge_def delete_jobs_def Let_def)

lemma delete_where_delete_where: "delete_where p (delete_where q rows) = delete_where (\<lambda>r. p r \<or> q r) rows"
  by (auto simp: delete_where_def intro!: filter_cong)

lemma purge_cascade:
  assumes "dead = j_id ` {j \<in> set (jobs db). stale_job before (now - days (job_retention_days s)) j}"
  shows "evidences (fst (purge before s now db)) =
      delete_where (\<lambda>e. e_job_id e \<in> dead \<or> before (e_expires_at e) now) (evidences db)"
    and "decisions (fst (purge before s now db)) = delete_where (\<lambda>d. d_job_id d \<in> dead) (decisions db)"
    and "findings (fst (purge before s now db)) =
      delete_where (\<lambda>f. f_decision_id f \<in> d_id ` {d \<in> set (decisions db). d_job_id d \<in> dead}) (findings db)"
  by (simp_all add: purge_def delete_jobs_def Let_def assms delete_where_delete_where)

end
