(* ===== verification/PiGateway.thy ===== *)
theory PiGateway
  imports JsonRoundtrip Schemas Config
begin

text \<open>
  The gateway to the model runtime (\<^verbatim>\<open>src/sprinter/pi_gateway.py\<close>). The child process is
  outside the program: what it does on one invocation is an argument, \<open>version_run\<close> for
  \<^verbatim>\<open>pi --version\<close> and \<open>rpc_run\<close> for one prompt. A run of the prompt protocol is the list
  of what \<^verbatim>\<open>readline\<close> yields until the stream ends: a line with its length in bytes and
  its decoded text, a line longer than the stream's buffer (on which \<^verbatim>\<open>readline\<close> raises
  \<^verbatim>\<open>ValueError\<close>), or the deadline passing while the gateway waits. Terminating the child
  afterwards has no effect on the result.
\<close>

section \<open>Version check\<close>

datatype version_run =
    Version_not_executable string
  | Version_timeout
  | Version_exit int string string

text \<open>The first match of \<^verbatim>\<open>\b(\d+\.\d+\.\d+)\b\<close>.\<close>

definition version_at :: "string \<Rightarrow> string option" where
  "version_at s =
     (let a = takeWhile is_digit s; r1 = dropWhile is_digit s in
      case r1 of
        c1 # t1 \<Rightarrow>
          if c1 \<noteq> CHR ''.'' then None
          else (let b = takeWhile is_digit t1 in
            case dropWhile is_digit t1 of
              c2 # t2 \<Rightarrow>
                if c2 \<noteq> CHR ''.'' then None
                else (let c = takeWhile is_digit t2; r3 = dropWhile is_digit t2 in
                  if a = [] \<or> b = [] \<or> c = [] \<or> (r3 \<noteq> [] \<and> is_word (hd r3)) then None
                  else Some (a @ ''.'' @ b @ ''.'' @ c))
            | [] \<Rightarrow> None)
      | [] \<Rightarrow> None)"

fun find_version :: "bool \<Rightarrow> string \<Rightarrow> string option" where
  "find_version after_word [] = None"
| "find_version after_word (c # s) =
     (case (if after_word then None else version_at (c # s)) of
        Some v \<Rightarrow> Some v
      | None \<Rightarrow> find_version (is_word c) s)"

definition version :: "version_run \<Rightarrow> exc + string" where
  "version run =
     (case run of
        Version_not_executable e \<Rightarrow> Inl (PiUnavailable, ''Pi is not executable: '' @ e)
      | Version_timeout \<Rightarrow> Inl (PiUnavailable, ''Pi version check timed out'')
      | Version_exit code out err \<Rightarrow>
          if code \<noteq> 0
          then Inl (PiUnavailable, if take 1000 err \<noteq> [] then take 1000 err else ''Pi version check failed'')
          else (case find_version False out of
                  None \<Rightarrow> Inl (PiProtocolError, ''Pi returned an unrecognised version'')
                | Some v \<Rightarrow> Inr v))"

definition check_version :: "settings \<Rightarrow> version_run \<Rightarrow> exc + string" where
  "check_version s run =
     bind_result (version run) (\<lambda>v.
       if v \<noteq> pi_expected_version s
       then Inl (PiUnavailable, ''Pi version '' @ v @ '' is installed; expected '' @ pi_expected_version s)
       else Inr v)"

definition argv :: "settings \<Rightarrow> string list" where
  "argv s = [pi_command s, ''--mode'', ''rpc'', ''--provider'', pi_provider s, ''--model'', pi_model s,
     ''--thinking'', pi_thinking s, ''--no-session'', ''--no-tools'', ''--no-extensions'',
     ''--no-skills'', ''--no-prompt-templates'', ''--no-context-files'']"

definition environment_overrides :: "(string \<times> string) list" where
  "environment_overrides = [(''PI_TELEMETRY'', ''0''), (''PI_SKIP_VERSION_CHECK'', ''1''), (''NO_COLOR'', ''1'')]"

section \<open>One prompt\<close>

datatype rpc_item = Line nat string | Overrun | Deadline

datatype rpc_run = Rpc_not_executable string | Rpc_stream "rpc_item list" string

definition prompt_request :: "string \<Rightarrow> string" where
  "prompt_request prompt =
     render '', '' '': '' (JObj [(''id'', JStr ''sprinter-review''), (''type'', JStr ''prompt''),
       (''message'', JStr prompt)]) @ [CHR 0x0A]"

fun python_type :: "json \<Rightarrow> string" where
  "python_type JNull = ''NoneType''"
| "python_type (JBool _) = ''bool''"
| "python_type (JInt _) = ''int''"
| "python_type (JFloat _) = ''float''"
| "python_type (JStr _) = ''str''"
| "python_type (JArr _) = ''list''"
| "python_type (JObj _) = ''dict''"

text \<open>\<^verbatim>\<open>v.get\<close> exists on dictionaries only.\<close>

definition as_dict :: "json \<Rightarrow> exc + json dict" where
  "as_dict v = (case v of JObj d \<Rightarrow> Inr d
     | _ \<Rightarrow> Inl (AttributeError, [CHR 0x27] @ python_type v @ [CHR 0x27] @ '' object has no attribute '' @ [CHR 0x27] @ ''get'' @ [CHR 0x27]))"

definition is_prompt_response :: "json dict \<Rightarrow> bool" where
  "is_prompt_response ev =
     (get_or_none ev ''type'' = JStr ''response'' \<and> get_or_none ev ''command'' = JStr ''prompt'')"

definition settled :: "json dict \<Rightarrow> bool" where
  "settled ev = (get_or_none ev ''type'' = JStr ''agent_settled'')"

text \<open>The assistant text one event adds to the output.\<close>

definition delta_text :: "json dict \<Rightarrow> exc + string" where
  "delta_text ev =
     (if get_or_none ev ''type'' \<noteq> JStr ''message_update'' then Inr []
      else bind_result (as_dict (py_or (get_or_none ev ''assistantMessageEvent'') (JObj []))) (\<lambda>delta.
        if get_or_none delta ''type'' = JStr ''text_delta''
        then Inr (py_str (py_or (get_or_none delta ''delta'') (JStr [])))
        else Inr []))"

fun rpc_loop :: "nat \<Rightarrow> nat \<Rightarrow> bool \<Rightarrow> string \<Rightarrow> rpc_item list \<Rightarrow> exc + bool \<times> string" where
  "rpc_loop limit bytes accepted out [] = Inr (accepted, out)"
| "rpc_loop limit bytes accepted out (Deadline # items) = Inl (PiUnavailable, ''Pi request timed out'')"
| "rpc_loop limit bytes accepted out (Overrun # items) =
     Inl (ValueError, ''Separator is not found, and chunk exceed the limit'')"
| "rpc_loop limit bytes accepted out (Line n line # items) =
     (if n = 0 then Inr (accepted, out)
      else if bytes + n > limit then Inl (PiProtocolError, ''Pi output exceeded the configured limit'')
      else case json_loads line of
        None \<Rightarrow> Inl (PiProtocolError, ''Pi emitted invalid JSONL'')
      | Some v \<Rightarrow>
          bind_result (as_dict v) (\<lambda>ev.
            if is_prompt_response ev \<and> \<not> truthy (get_or_none ev ''success'')
            then Inl (PiUnavailable, py_str (py_or (get_or_none ev ''error'') (JStr ''Pi rejected the prompt'')))
            else bind_result (delta_text ev) (\<lambda>text.
              let accepted' = accepted \<or> is_prompt_response ev; out' = out @ text in
              if settled ev then Inr (accepted', out')
              else rpc_loop limit (bytes + n) accepted' out' items)))"

definition rpc_prompt :: "settings \<Rightarrow> rpc_run \<Rightarrow> exc + string" where
  "rpc_prompt s run =
     (case run of
        Rpc_not_executable e \<Rightarrow> Inl (PiUnavailable, ''Pi is not executable: '' @ e)
      | Rpc_stream items err \<Rightarrow>
          bind_result (rpc_loop (pi_max_output_bytes s) 0 False [] items) (\<lambda>(accepted, out).
            if \<not> accepted
            then Inl (PiUnavailable, if take 2000 err \<noteq> [] then take 2000 err
                                     else ''Pi exited before accepting the prompt'')
            else if strip out = [] then Inl (PiProtocolError, ''Pi returned no assistant text'')
            else Inr out))"

section \<open>Reading the answer\<close>

definition fence :: string where
  "fence = [CHR 0x60, CHR 0x60, CHR 0x60]"

definition ends_with :: "string \<Rightarrow> string \<Rightarrow> bool" where
  "ends_with p s = (length p \<le> length s \<and> drop (length s - length p) s = p)"

text \<open>The two substitutions that remove a Markdown fence, on a stripped text.\<close>

definition open_fence :: "string \<Rightarrow> string" where
  "open_fence v =
     (let r = drop (length fence) v in lstrip (if starts_with ''json'' r then drop 4 r else r))"

definition close_fence :: "string \<Rightarrow> string" where
  "close_fence v = (if ends_with fence v then rstrip (take (length v - length fence) v) else v)"

definition extract_json :: "string \<Rightarrow> exc + json dict" where
  "extract_json value =
     (let v = strip value;
          body = (if starts_with fence v then close_fence (open_fence v) else v) in
      case json_loads body of
        None \<Rightarrow> Inl (JSONDecodeError, ''Expecting value'')
      | Some (JObj d) \<Rightarrow> Inr d
      | Some _ \<Rightarrow> Inl (ValueError, ''expected a JSON object''))"

definition read_decision :: "string \<Rightarrow> exc + model_decision" where
  "read_decision raw = bind_result (extract_json raw) validate_decision"

section \<open>Review and probe\<close>

record pi_result =
  pr_decision :: model_decision
  pr_provider :: string
  pr_model :: string
  pr_pi_version :: string

definition correction_prompt :: "string \<Rightarrow> string \<Rightarrow> string" where
  "correction_prompt err raw =
     ''Your prior response did not match the required JSON schema. '' @
     ''Return only one corrected JSON object. Do not use markdown.'' @ [CHR 0x0A, CHR 0x0A] @
     ''Validation error: '' @ err @ [CHR 0x0A, CHR 0x0A] @ ''Prior response:'' @ [CHR 0x0A] @ take 8000 raw"

text \<open>
  \<open>ask1\<close> and \<open>ask2\<close> are what the child does on the prompt and on the correction; the errors of
  reading an answer are exactly the ones that the \<^verbatim>\<open>except\<close> clauses name.
\<close>

definition review ::
  "settings \<Rightarrow> version_run \<Rightarrow> (string \<Rightarrow> rpc_run) \<Rightarrow> (string \<Rightarrow> rpc_run) \<Rightarrow> string \<Rightarrow> exc + pi_result"
where
  "review s vrun ask1 ask2 prompt =
     bind_result (check_version s vrun) (\<lambda>v.
     bind_result (rpc_prompt s (ask1 prompt)) (\<lambda>raw.
     bind_result
       (case read_decision raw of
          Inr d \<Rightarrow> Inr d
        | Inl first_error \<Rightarrow>
            bind_result (rpc_prompt s (ask2 (correction_prompt (snd first_error) raw))) (\<lambda>corrected.
              case read_decision corrected of
                Inr d \<Rightarrow> Inr d
              | Inl e \<Rightarrow>
                  Inl (PiProtocolError, ''Pi returned invalid review output after correction: '' @ snd e)))
       (\<lambda>d. Inr \<lparr>pr_decision = d, pr_provider = pi_provider s, pr_model = pi_model s, pr_pi_version = v\<rparr>)))"

definition probe_prompt :: string where
  "probe_prompt =
     ''Return exactly this JSON object and nothing else: '' @ render '','' '':'' (JObj [(''status'', JStr ''ok'')])"

record pi_details =
  pd_version :: string
  pd_provider :: string
  pd_model :: string

definition probe :: "settings \<Rightarrow> version_run \<Rightarrow> (string \<Rightarrow> rpc_run) \<Rightarrow> exc + pi_details" where
  "probe s vrun ask =
     bind_result (check_version s vrun) (\<lambda>v.
     bind_result (rpc_prompt s (ask probe_prompt)) (\<lambda>out.
       case extract_json out of
         Inl _ \<Rightarrow> Inl (PiUnavailable, ''Pi model/authentication probe returned invalid output'')
       | Inr payload \<Rightarrow>
           if payload \<noteq> [(''status'', JStr ''ok'')]
           then Inl (PiUnavailable, ''Pi model/authentication probe did not return the expected response'')
           else Inr \<lparr>pd_version = v, pd_provider = pi_provider s, pd_model = pi_model s\<rparr>))"

section \<open>What the gateway guarantees\<close>

definition event_of :: "rpc_item \<Rightarrow> json dict option" where
  "event_of it = (case it of
     Line n t \<Rightarrow> (case json_loads t of Some (JObj ev) \<Rightarrow> Some ev | _ \<Rightarrow> None)
   | _ \<Rightarrow> None)"

definition item_bytes :: "rpc_item \<Rightarrow> nat" where
  "item_bytes it = (case it of Line n _ \<Rightarrow> n | _ \<Rightarrow> 0)"

definition text_of :: "json dict \<Rightarrow> string" where
  "text_of ev = (case delta_text ev of Inr t \<Rightarrow> t | Inl _ \<Rightarrow> [])"

lemma as_dict_JObj [simp]: "as_dict (JObj d) = Inr d"
  by (simp add: as_dict_def)

lemma as_dict_Inr [simp]: "as_dict v = Inr d \<longleftrightarrow> v = JObj d"
  by (auto simp: as_dict_def split: json.splits)

text \<open>One successful step of the loop reads one event.\<close>

lemma rpc_loop_Line:
  assumes "rpc_loop limit b acc out (Line n line # items) = Inr r" and "n \<noteq> 0"
  obtains ev where "json_loads line = Some (JObj ev)" "b + n \<le> limit"
    "is_prompt_response ev \<longrightarrow> truthy (get_or_none ev ''success'')"
    "(if settled ev then Inr (acc \<or> is_prompt_response ev, out @ text_of ev)
      else rpc_loop limit (b + n) (acc \<or> is_prompt_response ev) (out @ text_of ev) items) = Inr r"
  using assms
  by (auto simp: bind_result_Inr_iff text_of_def Let_def split: if_split_asm option.split_asm)

lemma rpc_loop_sound:
  assumes "rpc_loop limit b acc out items = Inr (acc', out')"
  shows "\<exists>pre rest evs. items = pre @ rest \<and> map event_of pre = map Some evs \<and>
    sum_list (map item_bytes pre) \<le> limit - b \<and>
    (\<forall>ev \<in> set evs. is_prompt_response ev \<longrightarrow> truthy (get_or_none ev ''success'')) \<and>
    acc' = (acc \<or> (\<exists>ev \<in> set evs. is_prompt_response ev)) \<and>
    out' = out @ concat (map text_of evs)"
  using assms
proof (induction items arbitrary: b acc out)
  case Nil
  then show ?case by (intro exI [of _ "[]"]) auto
next
  case (Cons it items)
  show ?case
  proof (cases it)
    case (Line n line)
    show ?thesis
    proof (cases "n = 0")
      case True
      with Cons.prems Line show ?thesis by (intro exI [of _ "[]"] exI [of _ "it # items"]) auto
    next
      case False
      from Cons.prems Line False obtain ev where ev: "json_loads line = Some (JObj ev)" "b + n \<le> limit"
        "is_prompt_response ev \<longrightarrow> truthy (get_or_none ev ''success'')"
        and rest: "(if settled ev then Inr (acc \<or> is_prompt_response ev, out @ text_of ev)
          else rpc_loop limit (b + n) (acc \<or> is_prompt_response ev) (out @ text_of ev) items) = Inr (acc', out')"
        by (metis rpc_loop_Line)
      have here: "event_of it = Some ev" "item_bytes it = n" by (simp_all add: Line event_of_def item_bytes_def ev(1))
      show ?thesis
      proof (cases "settled ev")
        case True
        with rest have "acc' = (acc \<or> is_prompt_response ev)" "out' = out @ text_of ev" by simp_all
        with here ev(2,3) show ?thesis
          by (intro exI [of _ "[it]"] exI [of _ items] exI [of _ "[ev]"]) auto
      next
        case False
        with rest have "rpc_loop limit (b + n) (acc \<or> is_prompt_response ev) (out @ text_of ev) items = Inr (acc', out')"
          by simp
        from Cons.IH [OF this] obtain pre rest' evs where IH: "items = pre @ rest'" "map event_of pre = map Some evs"
          "sum_list (map item_bytes pre) \<le> limit - (b + n)"
          "\<forall>ev \<in> set evs. is_prompt_response ev \<longrightarrow> truthy (get_or_none ev ''success'')"
          "acc' = ((acc \<or> is_prompt_response ev) \<or> (\<exists>ev \<in> set evs. is_prompt_response ev))"
          "out' = (out @ text_of ev) @ concat (map text_of evs)" by blast
        with here ev(2,3) show ?thesis
          by (intro exI [of _ "it # pre"] exI [of _ rest'] exI [of _ "ev # evs"]) auto
      qed
    qed
  qed (use Cons.prems in simp_all)
qed

text \<open>
  C29: The text a prompt returns was produced by an accepted prompt within the output limit: the
  events read form an initial part of the stream whose lines together do not exceed
  \<^verbatim>\<open>pi_max_output_bytes\<close>, every response to the prompt among them reports success and there
  is one, and the result is the concatenation of their text deltas and is not blank.
\<close>

theorem rpc_prompt_sound:
  assumes "rpc_prompt s (Rpc_stream items err) = Inr out"
  shows "\<exists>pre rest evs. items = pre @ rest \<and> map event_of pre = map Some evs \<and>
    sum_list (map item_bytes pre) \<le> pi_max_output_bytes s \<and>
    (\<forall>ev \<in> set evs. is_prompt_response ev \<longrightarrow> truthy (get_or_none ev ''success'')) \<and>
    (\<exists>ev \<in> set evs. is_prompt_response ev) \<and>
    out = concat (map text_of evs) \<and> strip out \<noteq> []"
proof -
  obtain acc where loop: "rpc_loop (pi_max_output_bytes s) 0 False [] items = Inr (acc, out)"
    and "acc" "strip out \<noteq> []"
    using assms by (auto simp: rpc_prompt_def bind_result_Inr_iff split: if_split_asm)
  with rpc_loop_sound [OF loop] show ?thesis by auto
qed

text \<open>A sample stream: the prompt is accepted, one piece of text arrives, the agent settles.\<close>

definition accepted_event :: json where
  "accepted_event = JObj [(''command'', JStr ''prompt''), (''success'', JBool True), (''type'', JStr ''response'')]"

definition text_event :: "string \<Rightarrow> json" where
  "text_event t = JObj [(''assistantMessageEvent'', JObj [(''delta'', JStr t), (''type'', JStr ''text_delta'')]),
     (''type'', JStr ''message_update'')]"

definition settled_event :: json where
  "settled_event = JObj [(''type'', JStr ''agent_settled'')]"

definition sample_stream :: "string \<Rightarrow> rpc_run" where
  "sample_stream t = Rpc_stream (map (\<lambda>v. Line (length (dumps v)) (dumps v))
     [accepted_event, text_event t, settled_event]) []"

lemma read_event: "wf_json v \<Longrightarrow> sort_keys v = v \<Longrightarrow> json_loads (dumps v) = Some v"
  by (simp add: json_loads_dumps)

lemma sample_events:
  "json_loads (dumps accepted_event) = Some accepted_event"
  "json_loads (dumps (text_event t)) = Some (text_event t)"
  "json_loads (dumps settled_event) = Some settled_event"
  by (rule read_event, code_simp, code_simp)+

lemma sample_prompt:
  assumes "length (dumps accepted_event) + length (dumps (text_event t)) + length (dumps settled_event)
      \<le> pi_max_output_bytes s"
    and "dumps (text_event t) \<noteq> []" and "strip t \<noteq> []"
  shows "rpc_prompt s (sample_stream t) = Inr t"
proof -
  have ne: "dumps accepted_event \<noteq> []" "dumps settled_event \<noteq> []" by code_simp+
  have acc: "as_dict accepted_event = Inr [(''command'', JStr ''prompt''), (''success'', JBool True), (''type'', JStr ''response'')]"
    by (simp add: accepted_event_def)
  have tev: "as_dict (text_event t) = Inr [(''assistantMessageEvent'', JObj [(''delta'', JStr t), (''type'', JStr ''text_delta'')]),
     (''type'', JStr ''message_update'')]"
    by (simp add: text_event_def)
  have stl: "as_dict settled_event = Inr [(''type'', JStr ''agent_settled'')]"
    by (simp add: settled_event_def)
  have "t \<noteq> []" using assms(3) by (auto simp: strip_def lstrip_def rstrip_def)
  then show ?thesis
    using assms ne
    by (simp add: sample_stream_def rpc_prompt_def sample_events acc tev stl is_prompt_response_def
        settled_def delta_text_def get_or_none_def py_or_def py_str_def Let_def)
qed

lemma sample_limit [simp]: "pi_max_output_bytes default_settings = 262144"
  by (simp add: default_settings_def)

lemma rpc_prompt_sound_witness:
  "\<exists>items. rpc_prompt default_settings (Rpc_stream items []) = Inr ''ok'' \<and> (\<exists>ev pre. ev \<in> set pre \<and>
     event_of ev \<noteq> None \<and> set pre \<subseteq> set items)"
proof -
  have small: "length (dumps accepted_event) + length (dumps (text_event ''ok'')) + length (dumps settled_event) < 400"
    "dumps (text_event ''ok'') \<noteq> []" "strip ''ok'' \<noteq> []"
    by code_simp+
  obtain items where items: "sample_stream ''ok'' = Rpc_stream items []" by (simp add: sample_stream_def)
  have run: "rpc_prompt default_settings (Rpc_stream items []) = Inr ''ok''"
    using sample_prompt [of "''ok''" default_settings] small by (simp add: items)
  from rpc_prompt_sound [OF this] obtain pre rest evs ev where "items = pre @ rest"
    "map event_of pre = map Some evs" "ev \<in> set evs" by blast
  moreover then have "pre \<noteq> []" by auto
  ultimately have "hd pre \<in> set pre" "event_of (hd pre) \<noteq> None" "set pre \<subseteq> set items"
    by (auto simp: neq_Nil_conv)
  with run show ?thesis by blast
qed

lemma check_errors:
  "check_str f lo hi v = Inl e \<Longrightarrow> fst e = ValidationError"
  "check_literal f opts v = Inl e \<Longrightarrow> fst e = ValidationError"
  "check_str_list f lo hi v = Inl e \<Longrightarrow> fst e = ValidationError"
  "required d f = Inl e \<Longrightarrow> fst e = ValidationError"
  by (auto simp: check_str_def check_literal_def check_str_list_def required_def invalid_def
      split: json.splits option.splits if_splits)

lemma validate_decision_error: "validate_decision d = Inl e \<Longrightarrow> fst e = ValidationError"
  unfolding validate_decision_def by (auto simp: bind_result_Inl_iff dest: check_errors)

lemma validate_decision_valid:
  assumes "validate_decision d = Inr m"
  shows "md_verdict m \<in> set verdicts \<and> md_severity m \<in> set severities \<and>
    1 \<le> length (md_summary m) \<and> length (md_summary m) \<le> 1000 \<and>
    length (md_rationale m) \<le> 10 \<and> length (md_recommended_actions m) \<le> 10 \<and>
    (\<forall>x \<in> set (md_rationale m) \<union> set (md_recommended_actions m). x \<noteq> [] \<and> length x \<le> 1000) \<and>
    length (md_evidence_ids m) \<le> 100"
proof -
  obtain v sv sm ra ac ids where checks:
      "bind_result (required d ''verdict'') (check_literal ''verdict'' verdicts) = Inr v"
      "bind_result (required d ''severity'') (check_literal ''severity'' severities) = Inr sv"
      "bind_result (required d ''summary'') (check_str ''summary'' 1 1000) = Inr sm"
      "bind_result (required d ''rationale'') (check_str_list ''rationale'' 1 10) = Inr ra"
      "check_str_list ''recommended_actions'' 0 10 (optional d ''recommended_actions'' (JArr [])) = Inr ac"
      "check_str_list ''evidence_ids'' 0 100 (optional d ''evidence_ids'' (JArr [])) = Inr ids"
    and m: "m = \<lparr>md_verdict = v, md_severity = sv, md_summary = sm, md_rationale = bound_text ra,
      md_recommended_actions = bound_text ac, md_evidence_ids = ids\<rparr>"
    using assms unfolding validate_decision_def bind_result_Inr_iff [of "bind_result _ _"]
      bind_result_Inr_iff [of "check_str_list _ _ _ _"] by blast
  have "v \<in> set verdicts" "sv \<in> set severities" "1 \<le> length sm \<and> length sm \<le> 1000" "length ra \<le> 10"
    using checks(1-4) unfolding bind_result_Inr_iff
    by (blast dest: check_literal_ok check_str_ok check_str_list_ok)+
  moreover have "length ac \<le> 10" "length ids \<le> 100"
    using checks(5,6) check_str_list_ok by blast+
  ultimately show ?thesis
    using bound_text_bounds [of ra] bound_text_bounds [of ac] by (auto simp: m)
qed

lemma read_decision_errors: "read_decision raw = Inl e \<Longrightarrow> fst e \<in> {ValueError, JSONDecodeError, ValidationError}"
  by (auto simp: read_decision_def bind_result_Inl_iff extract_json_def Let_def validate_decision_error
      split: option.splits json.splits if_splits)

lemma check_version_Inr: "check_version s run = Inr v \<Longrightarrow> v = pi_expected_version s"
  by (auto simp: check_version_def bind_result_Inr_iff split: if_split_asm)

text \<open>
  C30: A review that succeeds was produced by the pinned version of the runtime and carries a
  decision within the schema: a known verdict and severity, a summary of 1 to 1000 characters,
  at most ten reasons and ten actions, each non-empty and at most 1000 characters long, and at
  most a hundred evidence ids; and the decision is what the first answer says, or, only when
  that answer is not a valid decision, what the answer to the correction says.
\<close>

theorem review_sound:
  assumes "review s vrun ask1 ask2 prompt = Inr r"
  shows "pr_pi_version r = pi_expected_version s \<and> pr_provider r = pi_provider s \<and> pr_model r = pi_model s \<and>
    (let m = pr_decision r in
      md_verdict m \<in> set verdicts \<and> md_severity m \<in> set severities \<and>
      1 \<le> length (md_summary m) \<and> length (md_summary m) \<le> 1000 \<and>
      length (md_rationale m) \<le> 10 \<and> length (md_recommended_actions m) \<le> 10 \<and>
      (\<forall>x \<in> set (md_rationale m) \<union> set (md_recommended_actions m). x \<noteq> [] \<and> length x \<le> 1000) \<and>
      length (md_evidence_ids m) \<le> 100) \<and>
    (\<exists>raw. rpc_prompt s (ask1 prompt) = Inr raw \<and>
      (read_decision raw = Inr (pr_decision r) \<or>
       (\<exists>e corrected. read_decision raw = Inl e \<and>
          rpc_prompt s (ask2 (correction_prompt (snd e) raw)) = Inr corrected \<and>
          read_decision corrected = Inr (pr_decision r))))"
proof -
  obtain v raw d where v: "check_version s vrun = Inr v" and raw: "rpc_prompt s (ask1 prompt) = Inr raw"
    and d: "(case read_decision raw of Inr d \<Rightarrow> Inr d
        | Inl first_error \<Rightarrow>
            bind_result (rpc_prompt s (ask2 (correction_prompt (snd first_error) raw))) (\<lambda>corrected.
              case read_decision corrected of Inr d \<Rightarrow> Inr d
              | Inl e \<Rightarrow> Inl (PiProtocolError, ''Pi returned invalid review output after correction: '' @ snd e))) = Inr d"
    and r: "r = \<lparr>pr_decision = d, pr_provider = pi_provider s, pr_model = pi_model s, pr_pi_version = v\<rparr>"
    using assms unfolding review_def bind_result_Inr_iff by blast
  have answer: "read_decision raw = Inr d \<or> (\<exists>e corrected. read_decision raw = Inl e \<and>
      rpc_prompt s (ask2 (correction_prompt (snd e) raw)) = Inr corrected \<and> read_decision corrected = Inr d)"
  proof (cases "read_decision raw")
    case (Inl e)
    with d obtain corrected where "rpc_prompt s (ask2 (correction_prompt (snd e) raw)) = Inr corrected"
      "(case read_decision corrected of Inr d \<Rightarrow> Inr d
        | Inl e \<Rightarrow> Inl (PiProtocolError, ''Pi returned invalid review output after correction: '' @ snd e)) = Inr d"
      by (auto simp: bind_result_Inr_iff)
    with Inl show ?thesis by (cases "read_decision corrected") auto
  qed (use d in simp)
  then obtain any where "read_decision any = Inr d" by blast
  then obtain obj where "validate_decision obj = Inr d" by (auto simp: read_decision_def bind_result_Inr_iff)
  from validate_decision_valid [OF this] answer raw r check_version_Inr [OF v]
  show ?thesis by (auto simp: Let_def)
qed

definition sample_answer :: json where
  "sample_answer = JObj [(''evidence_ids'', JArr []), (''rationale'', JArr [JStr ''nothing found'']),
     (''severity'', JStr ''low''), (''summary'', JStr ''clean''), (''verdict'', JStr ''no_finding'')]"

definition pinned_settings :: settings where
  "pinned_settings = default_settings\<lparr>pi_provider := ''p'', pi_model := ''m''\<rparr>"

lemma pinned_fields [simp]:
  "pi_max_output_bytes pinned_settings = 262144" "pi_expected_version pinned_settings = ''0.83.0''"
  by (simp_all add: pinned_settings_def default_settings_def PI_VERSION_def)

lemma review_sound_witness:
  "\<exists>r. review pinned_settings (Version_exit 0 ''pi 0.83.0'' []) (\<lambda>_. sample_stream (dumps sample_answer))
      (\<lambda>_. sample_stream []) ''prompt'' = Inr r \<and> pr_pi_version r = ''0.83.0''"
proof -
  let ?run = "review pinned_settings (Version_exit 0 ''pi 0.83.0'' []) (\<lambda>_. sample_stream (dumps sample_answer))
      (\<lambda>_. sample_stream []) ''prompt''"
  have small: "length (dumps accepted_event) + length (dumps (text_event (dumps sample_answer))) +
      length (dumps settled_event) < 600"
    "dumps (text_event (dumps sample_answer)) \<noteq> []" "strip (dumps sample_answer) \<noteq> []"
    by code_simp+
  have p: "rpc_prompt pinned_settings (sample_stream (dumps sample_answer)) = Inr (dumps sample_answer)"
    using sample_prompt [of "dumps sample_answer" pinned_settings] small by simp
  have v: "check_version pinned_settings (Version_exit 0 ''pi 0.83.0'' []) = Inr ''0.83.0''"
  proof -
    have "find_version False ''pi 0.83.0'' = Some ''0.83.0''" by code_simp
    then show ?thesis by (simp add: check_version_def version_def)
  qed
  have "case read_decision (dumps sample_answer) of Inr _ \<Rightarrow> True | Inl _ \<Rightarrow> False" by code_simp
  then obtain d where "read_decision (dumps sample_answer) = Inr d" by (auto split: sum.splits)
  then have "?run = Inr \<lparr>pr_decision = d, pr_provider = pi_provider pinned_settings,
      pr_model = pi_model pinned_settings, pr_pi_version = ''0.83.0''\<rparr>"
    by (simp add: review_def v p)
  with review_sound [OF this] show ?thesis by simp
qed

end
