(* ===== verification/Integrations.thy ===== *)
theory Integrations
  imports JsonRoundtrip Config
begin

text \<open>
  The query clients (\<^verbatim>\<open>src/sprinter/integrations/\<close>): validation of Splunk, ADX and
  Confluence queries against the configured allowlists, the requests built from them, and the
  Splunk search, whose HTTP exchange is an argument. The regular expressions are transcribed as
  scanners that follow the order in which Python's \<^verbatim>\<open>re\<close> tries the alternatives.
\<close>

section \<open>Scanners\<close>

definition boundary :: "string \<Rightarrow> bool" where
  "boundary rest = (case rest of [] \<Rightarrow> True | c # _ \<Rightarrow> \<not> is_word c)"

text \<open>One of the words, in any case, followed by a word boundary.\<close>

definition word_ahead :: "string list \<Rightarrow> string \<Rightarrow> bool" where
  "word_ahead ws s =
     (\<exists>w \<in> set ws. lower (take (length w) s) = w \<and> boundary (drop (length w) s))"

text \<open>\<^verbatim>\<open>(?:^|\|)\s*(?:w1|w2|...)\b\<close>: a pipeline stage that starts with one of the words.\<close>

fun stage_ahead :: "bool \<Rightarrow> string list \<Rightarrow> string \<Rightarrow> bool" where
  "stage_ahead at_start ws s =
     ((at_start \<and> word_ahead ws (lstrip s)) \<or>
      (case s of [] \<Rightarrow> False | c # t \<Rightarrow> stage_ahead (c = CHR ''|'') ws t))"

declare stage_ahead.simps [simp del]

section \<open>Splunk\<close>

definition blocked_commands :: "string list" where
  "blocked_commands = [''delete'', ''outputlookup'', ''collect'', ''sendemail'', ''script'', ''run'',
     ''map'', ''rest'', ''loadjob'', ''savedsearch'']"

definition blocked :: "string \<Rightarrow> bool" where
  "blocked s = stage_ahead True blocked_commands s"

definition index_char :: "char \<Rightarrow> bool" where
  "index_char c = (is_ascii_letter c \<or> is_digit c \<or> c \<in> set ''_.:-'')"

definition quoted_value :: "char \<Rightarrow> string \<Rightarrow> (string \<times> string) option" where
  "quoted_value q s =
     (let v = takeWhile (\<lambda>c. c \<noteq> q) s; r = dropWhile (\<lambda>c. c \<noteq> q) s in
      if v = [] \<or> r = [] then None else Some (v, tl r))"

text \<open>\<^verbatim>\<open>index\s*=\s*("..."|'...'|bare)\<close> at the head of the text: the value and the rest.\<close>

definition index_here :: "string \<Rightarrow> (string \<times> string) option" where
  "index_here s =
     (if lower (take 5 s) \<noteq> ''index'' then None
      else case lstrip (drop 5 s) of
        [] \<Rightarrow> None
      | e # t \<Rightarrow>
          if e \<noteq> CHR ''='' then None
          else (let u = lstrip t in
            case u of
              [] \<Rightarrow> None
            | q # v \<Rightarrow>
                if q = CHR 0x22 \<or> q = CHR 0x27 then quoted_value q v
                else if index_char q then Some (takeWhile index_char u, dropWhile index_char u)
                else None))"

definition index_separator :: "char \<Rightarrow> bool" where
  "index_separator c = (is_space c \<or> c = CHR ''|'' \<or> c = CHR ''('')"

lemma length_lstrip: "length (lstrip s) \<le> length s"
  by (simp add: lstrip_def length_dropWhile_le)

lemma index_here_shorter: "index_here s = Some (v, r) \<Longrightarrow> length r < length s"
proof -
  assume h: "index_here s = Some (v, r)"
  from h obtain e t where e: "lstrip (drop 5 s) = e # t"
    by (auto simp: index_here_def split: if_split_asm list.split_asm)
  have t: "length t < length s"
    using length_lstrip [of "drop 5 s"] by (simp add: e)
  from h e obtain q w where u: "lstrip t = q # w"
    by (auto simp: index_here_def Let_def split: if_split_asm list.split_asm)
  then have w: "length w < length t" using length_lstrip [of t] by simp
  have drop_le: "length (dropWhile P x) \<le> length x" for P and x :: string
    by (rule length_dropWhile_le)
  have "length r \<le> length t"
    using h e u w drop_le [of index_char w] drop_le [of "\<lambda>c. c \<noteq> q" w]
    by (auto simp: index_here_def quoted_value_def Let_def split: if_split_asm)
  with t show ?thesis by simp
qed

text \<open>\<^verbatim>\<open>INDEX.findall\<close>: the leftmost matches that do not overlap.\<close>

function find_indexes :: "bool \<Rightarrow> string \<Rightarrow> string list" where
  "find_indexes at_start s =
     (case (if at_start then index_here s else None) of
        Some (v, r) \<Rightarrow> v # find_indexes False r
      | None \<Rightarrow>
          (case s of
             [] \<Rightarrow> []
           | c # t \<Rightarrow>
               (case (if index_separator c then index_here t else None) of
                  Some (v, r) \<Rightarrow> v # find_indexes False r
                | None \<Rightarrow> find_indexes False t)))"
  by pat_completeness auto
termination
  by (relation "measure (length \<circ> snd)")
     (auto split: if_split_asm dest!: index_here_shorter)

declare find_indexes.simps [simp del]

definition splunk_validate :: "settings \<Rightarrow> string \<Rightarrow> exc + string" where
  "splunk_validate s search =
     (let clean = join '' '' (split_words (strip search));
          indexes = find_indexes True clean;
          forbidden = filter (\<lambda>i. i \<notin> allowed_splunk_indexes s) indexes in
      if blocked clean then Inl (ValueError, ''Splunk search contains a disallowed command'')
      else if indexes = [] then Inl (ValueError, ''Splunk searches must include an explicit index'')
      else if forbidden \<noteq> []
      then Inl (ValueError, ''Splunk indexes are not allowed: '' @
             py_repr (JArr (map JStr (sort (remdups forbidden)))))
      else Inr (if starts_with ''search '' (lower clean) then clean else ''search '' @ clean))"

definition splunk_configured :: "settings \<Rightarrow> bool" where
  "splunk_configured s = (splunk_base_url s \<noteq> [])"

definition audit_configured :: "settings \<Rightarrow> bool" where
  "audit_configured s = (splunk_hec_url s \<noteq> [])"

text \<open>\<^verbatim>\<open>urllib.parse.quote(text, safe='')\<close>: UTF-8 bytes, the unreserved characters kept.\<close>

definition percent :: "nat \<Rightarrow> string" where
  "percent n = (let d = (\<lambda>k. if k < 10 then char_of (48 + k) else char_of (55 + k)) in
     [CHR ''%'', d (n div 16), d (n mod 16)])"

definition quote_char :: "char \<Rightarrow> string" where
  "quote_char c = (let n = code_of c in
     if is_ascii_letter c \<or> is_digit c \<or> c \<in> set ''_.-~'' then [c]
     else if n < 128 then percent n
     else percent (192 + n div 64) @ percent (128 + n mod 64))"

definition strip_slashes :: "string \<Rightarrow> string" where
  "strip_slashes s = rev (dropWhile (\<lambda>c. c = CHR ''/'') (rev s))"

definition search_url :: "settings \<Rightarrow> string \<Rightarrow> string" where
  "search_url s search =
     (if splunk_web_url s = [] then []
      else strip_slashes (splunk_web_url s) @ ''/en-US/app/search/search?q='' @ concat (map quote_char search))"

record splunk_request =
  sq_url :: string
  sq_search :: string
  sq_earliest_time :: string
  sq_latest_time :: string
  sq_count :: nat

record splunk_result =
  sr_rows :: "json dict list"
  sr_count :: nat
  sr_search :: string
  sr_url :: string

text \<open>
  \<^verbatim>\<open>str.splitlines\<close> followed by skipping the blank lines; a carriage return before a newline
  only adds a blank line.
\<close>

definition line_end :: "char \<Rightarrow> bool" where
  "line_end c = (let n = code_of c in (10 \<le> n \<and> n \<le> 13) \<or> (28 \<le> n \<and> n \<le> 30) \<or> n = 133)"

fun split_lines :: "string \<Rightarrow> string list" where
  "split_lines [] = [[]]"
| "split_lines (c # s) =
     (if line_end c then [] # split_lines s
      else (case split_lines s of [] \<Rightarrow> [[c]] | l # ls \<Rightarrow> (c # l) # ls))"

definition content_lines :: "string \<Rightarrow> string list" where
  "content_lines s = filter (\<lambda>l. strip l \<noteq> []) (split_lines s)"

fun result_rows :: "string list \<Rightarrow> exc + json dict list" where
  "result_rows [] = Inr []"
| "result_rows (l # ls) =
     (case json_loads l of
        None \<Rightarrow> Inl (JSONDecodeError, ''Expecting value'')
      | Some v \<Rightarrow>
          bind_result (result_rows ls) (\<lambda>rows.
            case v of
              JObj d \<Rightarrow> (case get_or_none d ''result'' of JObj r \<Rightarrow> Inr (r # rows) | _ \<Rightarrow> Inr rows)
            | _ \<Rightarrow> Inr rows))"

text \<open>\<open>http\<close> is the exchange with Splunk: the response body, or the exception the client raises.\<close>

definition splunk_search ::
  "(splunk_request \<Rightarrow> exc + string) \<Rightarrow> file_system \<Rightarrow> settings \<Rightarrow> string \<Rightarrow> string \<Rightarrow> string \<Rightarrow> nat \<Rightarrow>
   exc + splunk_result"
where
  "splunk_search http fs s search earliest latest max_rows =
     (if \<not> splunk_configured s then Inl (RuntimeError, ''Splunk is not configured'')
      else
        bind_result (splunk_validate s search) (\<lambda>clean.
        bind_result (secret_value fs s Secret_splunk) (\<lambda>_.
        bind_result (http \<lparr>sq_url = strip_slashes (splunk_base_url s) @ ''/services/search/jobs/export'',
            sq_search = clean, sq_earliest_time = earliest, sq_latest_time = latest, sq_count = max_rows\<rparr>) (\<lambda>body.
        bind_result (result_rows (content_lines body)) (\<lambda>rows.
          Inr \<lparr>sr_rows = take max_rows rows, sr_count = min (length rows) max_rows, sr_search = clean,
               sr_url = search_url s clean\<rparr>)))))"

text \<open>\<^verbatim>\<open>post_event\<close>; the exchange takes the token and the posted document.\<close>

definition post_event ::
  "(string \<Rightarrow> json \<Rightarrow> exc + unit) \<Rightarrow> file_system \<Rightarrow> settings \<Rightarrow> json \<Rightarrow> string \<Rightarrow> exc + unit"
where
  "post_event http fs s ev sourcetype =
     (if \<not> audit_configured s then Inl (RuntimeError, ''Splunk HEC is not configured'')
      else bind_result (read_secret fs (splunk_hec_token s) (splunk_hec_token_file s)) (\<lambda>token.
        http token (JObj [(''event'', ev), (''sourcetype'', JStr sourcetype)])))"

section \<open>Azure Data Explorer\<close>

definition write_commands :: "string list" where
  "write_commands = [''set'', ''append'', ''set-or-append'', ''drop'', ''delete'', ''alter'', ''create'',
     ''clear'', ''rename'', ''move'', ''replace'']"

fun control_command :: "string \<Rightarrow> bool" where
  "control_command [] = False"
| "control_command (c # s) = ((c = CHR ''.'' \<and> word_ahead write_commands s) \<or> control_command s)"

definition writes_kql :: "string \<Rightarrow> bool" where
  "writes_kql s = (control_command s \<or> stage_ahead True [''into''] s)"

text \<open>\<^verbatim>\<open>^\s*([A-Za-z_][A-Za-z0-9_]*)\<close>\<close>

definition leading_table :: "string \<Rightarrow> string option" where
  "leading_table s =
     (case lstrip s of
        [] \<Rightarrow> None
      | c # t \<Rightarrow>
          if is_ascii_letter c \<or> c = CHR ''_''
          then Some (c # takeWhile (\<lambda>d. is_ascii_letter d \<or> is_digit d \<or> d = CHR ''_'') t)
          else None)"

definition adx_validate :: "settings \<Rightarrow> string \<Rightarrow> exc + string" where
  "adx_validate s query =
     (let clean = strip query in
      if CHR '';'' \<in> set clean \<or> writes_kql clean
      then Inl (ValueError, ''ADX query must be one read-only statement'')
      else case leading_table clean of
        None \<Rightarrow> Inl (ValueError, ''ADX query must begin with an allowlisted table'')
      | Some t \<Rightarrow> if t \<in> allowed_adx_tables s then Inr clean
          else Inl (ValueError, ''ADX query must begin with an allowlisted table''))"

text \<open>The statement sent to the cluster.\<close>

definition adx_statement :: "settings \<Rightarrow> string \<Rightarrow> nat \<Rightarrow> exc + string" where
  "adx_statement s query max_rows =
     (if adx_cluster_url s = [] then Inl (RuntimeError, ''ADX is not configured'')
      else bind_result (adx_validate s query) (\<lambda>q.
        Inr (q @ [CHR 0x0A] @ ''| take '' @ str_of_int (int max_rows))))"

section \<open>Confluence\<close>

text \<open>The allowed spaces are listed in sorted order.\<close>

definition confluence_cql :: "string \<Rightarrow> string list \<Rightarrow> string" where
  "confluence_cql query spaces =
     (let escaped = replace_char (CHR 0x22) [CHR 0x5C, CHR 0x22] query;
          text_clause = ''text ~ '' @ [CHR 0x22] @ escaped @ [CHR 0x22];
          quoted = map (\<lambda>sp. [CHR 0x22] @ sp @ [CHR 0x22]) spaces in
      join '' and '' (text_clause # (if spaces = [] then [] else [''space in ('' @ join '','' quoted @ '')''])))"

definition confluence_search_cql :: "settings \<Rightarrow> string \<Rightarrow> exc + string" where
  "confluence_search_cql s query =
     (if confluence_base_url s = [] then Inl (RuntimeError, ''Confluence is not configured'')
      else Inr (confluence_cql query (sorted_list_of_set (allowed_confluence_spaces s))))"

section \<open>Words and white space\<close>

lemma words_from_spaces: "\<forall>c \<in> set s. is_space c \<Longrightarrow> words_from [] s = []"
  by (induction s) simp_all

lemma words_from_append_spaces:
  "\<forall>c \<in> set t. is_space c \<Longrightarrow> words_from acc (s @ t) = words_from acc s"
proof (induction s arbitrary: acc)
  case Nil
  then show ?case by (cases t) (simp_all add: words_from_spaces)
next
  case (Cons c s)
  then show ?case by simp
qed

lemma words_from_lstrip: "words_from [] (lstrip s) = words_from [] s"
  by (induction s) (simp_all add: lstrip_def)

lemma rstrip_decompose: "\<exists>t. s = rstrip s @ t \<and> (\<forall>c \<in> set t. is_space c)"
proof -
  have "rev s = takeWhile is_space (rev s) @ dropWhile is_space (rev s)" by simp
  then have "s = rev (dropWhile is_space (rev s)) @ rev (takeWhile is_space (rev s))"
    by (metis rev_append rev_rev_ident)
  moreover have "\<forall>c \<in> set (rev (takeWhile is_space (rev s))). is_space c"
    by (auto dest: set_takeWhileD)
  ultimately show ?thesis unfolding rstrip_def by blast
qed

lemma split_words_strip: "split_words (strip s) = split_words s"
proof -
  obtain t where "lstrip s = strip s @ t" "\<forall>c \<in> set t. is_space c"
    using rstrip_decompose [of "lstrip s"] by (auto simp: strip_def)
  then have "words_from [] (lstrip s) = words_from [] (strip s)"
    by (simp add: words_from_append_spaces)
  then show ?thesis by (simp add: split_words_def words_from_lstrip)
qed

definition is_word_list :: "string list \<Rightarrow> bool" where
  "is_word_list ws = (\<forall>w \<in> set ws. w \<noteq> [] \<and> (\<forall>c \<in> set w. \<not> is_space c))"

lemma words_from_words: "(\<forall>c \<in> set acc. \<not> is_space c) \<Longrightarrow> is_word_list (words_from acc s)"
proof (induction s arbitrary: acc)
  case Nil
  then show ?case by (simp add: is_word_list_def)
next
  case (Cons c s)
  have "is_word_list (words_from [] s)" by (rule Cons.IH) simp
  moreover have "is_word_list (words_from (acc @ [c]) s)" if "\<not> is_space c"
    by (rule Cons.IH) (use that Cons.prems in auto)
  ultimately show ?case
    using Cons.prems by (cases "is_space c"; cases "acc = []") (simp_all add: is_word_list_def)
qed

lemma words_from_word:
  "(\<forall>c \<in> set w. \<not> is_space c) \<Longrightarrow> words_from acc (w @ s) = words_from (acc @ w) s"
  by (induction w arbitrary: acc) simp_all

lemma is_space_blank [simp]: "is_space (CHR '' '')"
  by code_simp

lemma split_words_join: "is_word_list ws \<Longrightarrow> split_words (join '' '' ws) = ws"
proof (induction ws)
  case Nil
  then show ?case by (simp add: split_words_def)
next
  case (Cons w ws)
  then have w: "w \<noteq> []" "\<forall>c \<in> set w. \<not> is_space c" and ws: "is_word_list ws"
    by (simp_all add: is_word_list_def)
  show ?case
  proof (cases ws)
    case Nil
    then show ?thesis using words_from_word [of w "[]" "[]"] w by (simp add: split_words_def)
  next
    case (Cons v vs)
    have "split_words (join '' '' (w # ws)) = words_from w ('' '' @ join '' '' ws)"
      using words_from_word [of w "[]"] w(2) by (simp add: split_words_def Cons)
    also have "\<dots> = w # split_words (join '' '' ws)"
      using w(1) by (simp add: split_words_def)
    finally show ?thesis using Cons.IH ws by (simp add: Cons)
  qed
qed

section \<open>What a validated search is\<close>

lemma stage_ahead_False: "stage_ahead True ws s = (word_ahead ws (lstrip s) \<or> stage_ahead False ws s)"
  by (subst (1 2) stage_ahead.simps) simp

lemma stage_ahead_step: "stage_ahead False ws (c # s) = stage_ahead (c = CHR ''|'') ws s"
  by (subst stage_ahead.simps) simp

lemma find_indexes_start:
  "find_indexes True s = (case index_here s of Some (v, r) \<Rightarrow> v # find_indexes False r | None \<Rightarrow> find_indexes False s)"
proof (cases "index_here s")
  case None
  then show ?thesis
    unfolding find_indexes.simps [of True s] find_indexes.simps [of False s] by simp
next
  case (Some p)
  then show ?thesis unfolding find_indexes.simps [of True s] by (cases p) simp
qed

lemma find_indexes_step:
  "find_indexes False (c # s) = (if index_separator c then find_indexes True s else find_indexes False s)"
proof -
  have "find_indexes False (c # s) =
      (case (if index_separator c then index_here s else None) of
         Some (v, r) \<Rightarrow> v # find_indexes False r | None \<Rightarrow> find_indexes False s)"
    by (subst find_indexes.simps) simp
  then show ?thesis by (simp add: find_indexes_start)
qed

text \<open>Putting \<^verbatim>\<open>search\<close> in front adds no index and no blocked stage.\<close>

lemma lower_search: "lower (''search '' @ s) = ''search '' @ lower s"
proof -
  have "lower ''search '' = ''search ''" by code_simp
  then show ?thesis by (simp add: lower_def)
qed

lemma not_blocked_search: "\<not> word_ahead blocked_commands (''search '' @ s)"
proof -
  have ws: "\<forall>w \<in> set blocked_commands. 3 \<le> length w \<and> take 3 w \<noteq> ''sea''" by code_simp
  have "take 3 w = ''sea''" if "lower (take (length w) (''search '' @ s)) = w" "3 \<le> length w" for w
  proof -
    have "take 3 w = take 3 (lower (take (length w) (''search '' @ s)))" using that(1) by simp
    also have "\<dots> = take 3 (lower (''search '' @ s))" using that(2) by (simp add: lower_def take_map min_def)
    finally show ?thesis by (simp only: lower_search) simp
  qed
  with ws show ?thesis by (auto simp: word_ahead_def)
qed

lemma blocked_search: "blocked (''search '' @ s) = stage_ahead False blocked_commands s"
proof -
  have "lstrip (''search '' @ s) = ''search '' @ s"
    using is_space_def by (simp add: lstrip_def is_space_def code_of_def)
  then have "blocked (''search '' @ s) = stage_ahead False blocked_commands (''search '' @ s)"
    using not_blocked_search [of s] by (simp only: blocked_def stage_ahead_False simp_thms)
  also have "\<dots> = stage_ahead False blocked_commands s"
    by (simp add: stage_ahead_step)
  finally show ?thesis .
qed

lemma index_separators [simp]:
  "index_separator (CHR '' '')" "\<not> index_separator (CHR ''s'')" "\<not> index_separator (CHR ''e'')"
  "\<not> index_separator (CHR ''a'')" "\<not> index_separator (CHR ''r'')" "\<not> index_separator (CHR ''c'')"
  "\<not> index_separator (CHR ''h'')"
  by code_simp+

lemma find_indexes_search: "find_indexes True (''search '' @ s) = find_indexes True s"
proof -
  have "lower (take 5 (''search '' @ s)) \<noteq> ''index''"
  proof -
    have "lower (take 5 (''search '' @ s)) = ''searc''" by (simp, code_simp)
    then show ?thesis by simp
  qed
  then have "index_here (''search '' @ s) = None" by (simp only: index_here_def if_True simp_thms)
  then have "find_indexes True (''search '' @ s) = find_indexes False (''search '' @ s)"
    by (simp only: find_indexes_start option.simps)
  also have "\<dots> = find_indexes True s" by (simp add: find_indexes_step)
  finally show ?thesis .
qed

section \<open>Reading a search without the scanner\<close>

text \<open>
  What it means that a text names an index with \<^verbatim>\<open>index=value\<close>, said of the text alone: the word
  in any case, at the start or after white space, a bar or a parenthesis; an equality sign, with
  white space around it; and a value, quoted, or plain and read as far as its characters go.
\<close>

definition index_term :: "string \<Rightarrow> string \<Rightarrow> bool" where
  "index_term v t = (\<exists>kw g h w rest. t = kw @ g @ CHR ''='' # h @ w @ rest \<and> lower kw = ''index'' \<and>
     (\<forall>c \<in> set (g @ h). is_space c) \<and> v \<noteq> [] \<and>
     ((\<exists>q \<in> {CHR 0x22, CHR 0x27}. w = q # v @ [q] \<and> q \<notin> set v) \<or>
      (w = v \<and> (\<forall>c \<in> set v. index_char c) \<and> (rest = [] \<or> \<not> index_char (hd rest)))))"

definition names_index :: "string \<Rightarrow> string \<Rightarrow> bool" where
  "names_index text v =
     (index_term v text \<or> (\<exists>pre c t. text = pre @ c # t \<and> index_separator c \<and> index_term v t))"

text \<open>A command at the head of a pipeline stage: at the start of the text, or after a bar.\<close>

definition stage_command :: "string \<Rightarrow> string \<Rightarrow> bool" where
  "stage_command text w = (\<exists>pre g u rest. text = pre @ g @ u @ rest \<and> (pre = [] \<or> last pre = CHR ''|'') \<and>
     (\<forall>c \<in> set g. is_space c) \<and> lower u = w \<and> (rest = [] \<or> \<not> is_word (hd rest)))"

text \<open>
  The names of a configuration that the scanner cannot be confused by: none holds a character that
  separates terms, and none is the word \<^verbatim>\<open>index\<close>.
\<close>

definition plain_names :: "string set \<Rightarrow> bool" where
  "plain_names A = (\<forall>n \<in> A. (\<forall>c \<in> set n. \<not> index_separator c) \<and> lower n \<noteq> ''index'')"

lemma length_lower [simp]: "length (lower s) = length s"
  by (simp add: lower_def)

lemma lstrip_spaces: "\<forall>c \<in> set g. is_space c \<Longrightarrow> lstrip (g @ s) = lstrip s"
  by (induction g) (simp_all add: lstrip_def)

lemma lstrip_head: "\<not> is_space c \<Longrightarrow> lstrip (c # s) = c # s"
  by (simp add: lstrip_def)

lemma equals_no_space [simp]:
  "\<not> is_space (CHR ''='')" "\<not> is_space (CHR 0x22)" "\<not> is_space (CHR 0x27)" "\<not> index_char (CHR 0x22)" "\<not> index_char (CHR 0x27)"
  "\<not> index_char (CHR ''='')" "\<not> index_separator (CHR ''='')" "\<not> index_separator (CHR 0x22)" "\<not> index_separator (CHR 0x27)"
  by code_simp+

lemma index_char_plain: "index_char c \<Longrightarrow> \<not> is_space c \<and> \<not> index_separator c"
  by (auto simp: index_char_def index_separator_def is_space_def is_ascii_letter_def is_digit_def code_of_def Let_def)

lemma lower_char_code:
  "code_of (lower_char c) = (let n = code_of c in
     if (65 \<le> n \<and> n \<le> 90) \<or> (192 \<le> n \<and> n \<le> 222 \<and> n \<noteq> 215) then n + 32 else n)"
  by (auto simp: lower_char_def Let_def code_of_def)

lemma lower_index_letter:
  assumes "lower_char c \<in> set ''index''"
  shows "index_char c" and "c \<notin> {CHR ''='', CHR 0x22, CHR 0x27}"
proof -
  from assms have "code_of (lower_char c) \<in> {105, 110, 100, 101, 120}" by (auto simp: code_of_def)
  then have n: "code_of c \<in> {105, 110, 100, 101, 120, 73, 78, 68, 69, 88}"
    by (auto simp: lower_char_code Let_def split: if_split_asm)
  then show "index_char c" by (auto simp: index_char_def is_ascii_letter_def Let_def)
  show "c \<notin> {CHR ''='', CHR 0x22, CHR 0x27}" using n by (auto simp: code_of_def)
qed

lemma lower_index_word:
  assumes "lower kw = ''index''" and "c \<in> set kw"
  shows "index_char c" and "c \<notin> {CHR ''='', CHR 0x22, CHR 0x27}"
proof -
  have "lower_char c \<in> set (lower kw)" using assms(2) by (simp add: lower_def)
  then show "index_char c" "c \<notin> {CHR ''='', CHR 0x22, CHR 0x27}" using lower_index_letter [of c] assms(1) by simp_all
qed

text \<open>What the scanner reads at the head of a text is a term, with all that follows it.\<close>

lemma index_term_here:
  assumes "index_term v t"
  shows "\<exists>rest. index_here t = Some (v, rest)"
proof -
  from assms obtain kw g h w rest where t: "t = kw @ g @ CHR ''='' # h @ w @ rest" and kw: "lower kw = ''index''"
    and spaces: "\<forall>c \<in> set (g @ h). is_space c" and v: "v \<noteq> []"
    and w: "(\<exists>q \<in> {CHR 0x22, CHR 0x27}. w = q # v @ [q] \<and> q \<notin> set v) \<or>
      (w = v \<and> (\<forall>c \<in> set v. index_char c) \<and> (rest = [] \<or> \<not> index_char (hd rest)))"
    unfolding index_term_def by blast
  have sp: "\<forall>c \<in> set g. is_space c" "\<forall>c \<in> set h. is_space c" using spaces by simp_all
  have "length (lower kw) = 5" by (simp add: kw)
  then have len: "length kw = 5" by simp
  have head: "lower (take 5 t) = ''index''" "lstrip (drop 5 t) = CHR ''='' # h @ w @ rest"
    using len kw sp(1) by (simp_all add: t lstrip_spaces lstrip_head)
  from w show ?thesis
  proof
    assume "\<exists>q \<in> {CHR 0x22, CHR 0x27}. w = q # v @ [q] \<and> q \<notin> set v"
    then obtain q where q: "q = CHR 0x22 \<or> q = CHR 0x27" "w = q # v @ [q]" "q \<notin> set v" by auto
    then have "\<not> is_space q" by auto
    then have "lstrip (h @ w @ rest) = q # v @ q # rest" using sp(2) q(2) by (simp add: lstrip_spaces lstrip_head)
    moreover have "takeWhile (\<lambda>c. c \<noteq> q) (v @ q # rest) = v" "dropWhile (\<lambda>c. c \<noteq> q) (v @ q # rest) = q # rest"
      using q(3) by (auto simp: takeWhile_append dropWhile_append)
    ultimately show ?thesis using head q(1) v by (auto simp: index_here_def quoted_value_def Let_def)
  next
    assume b: "w = v \<and> (\<forall>c \<in> set v. index_char c) \<and> (rest = [] \<or> \<not> index_char (hd rest))"
    obtain c u where c: "v = c # u" using v by (cases v) auto
    with b have ic: "index_char c" by simp
    then have "lstrip (h @ w @ rest) = v @ rest" using sp(2) b index_char_plain by (simp add: lstrip_spaces c lstrip_head)
    moreover have "takeWhile index_char (v @ rest) = v"
      using b by (cases rest) (auto simp: takeWhile_append)
    moreover have "c \<noteq> CHR 0x22" "c \<noteq> CHR 0x27" using ic by auto
    ultimately show ?thesis using head ic c by (auto simp: index_here_def Let_def)
  qed
qed

lemma quoted_value_split:
  "quoted_value q u = Some (v, r) \<Longrightarrow> u = v @ q # r \<and> v \<noteq> [] \<and> q \<notin> set v"
proof -
  assume q: "quoted_value q u = Some (v, r)"
  then have v: "v = takeWhile (\<lambda>c. c \<noteq> q) u" "v \<noteq> []" and r: "dropWhile (\<lambda>c. c \<noteq> q) u \<noteq> []" "r = tl (dropWhile (\<lambda>c. c \<noteq> q) u)"
    by (auto simp: quoted_value_def Let_def split: if_split_asm)
  have "hd (dropWhile (\<lambda>c. c \<noteq> q) u) = q" using hd_dropWhile [OF r(1)] by simp
  then have "dropWhile (\<lambda>c. c \<noteq> q) u = q # r" using r by (metis list.collapse)
  then have "u = v @ q # r" using takeWhile_dropWhile_id [of "\<lambda>c. c \<noteq> q" u] v(1) by simp
  moreover have "q \<notin> set v" using v(1) by (auto dest: set_takeWhileD)
  ultimately show ?thesis using v(2) by blast
qed

lemma lstrip_split: "\<exists>g. s = g @ lstrip s \<and> (\<forall>c \<in> set g. is_space c)"
  by (rule exI [of _ "takeWhile is_space s"]) (auto simp: lstrip_def dest: set_takeWhileD)

lemma index_here_split:
  assumes "index_here s = Some (v, r)"
  obtains kw g h w where "s = kw @ g @ CHR ''='' # h @ w @ r" "lower kw = ''index''" "\<forall>c \<in> set (g @ h). is_space c" "v \<noteq> []"
    "(\<exists>q \<in> {CHR 0x22, CHR 0x27}. w = q # v @ [q] \<and> q \<notin> set v) \<or>
     (w = v \<and> (\<forall>c \<in> set v. index_char c) \<and> (r = [] \<or> \<not> index_char (hd r)))"
proof -
  have kw: "lower (take 5 s) = ''index''" using assms by (auto simp: index_here_def split: if_split_asm)
  obtain t where t: "lstrip (drop 5 s) = CHR ''='' # t"
    using assms by (auto simp: index_here_def split: if_split_asm list.split_asm)
  obtain q u where u: "lstrip t = q # u"
    using assms t by (auto simp: index_here_def Let_def split: if_split_asm list.split_asm)
  obtain g where g: "drop 5 s = g @ CHR ''='' # t" "\<forall>c \<in> set g. is_space c" using lstrip_split [of "drop 5 s"] t by auto
  obtain h where h: "t = h @ q # u" "\<forall>c \<in> set h. is_space c" using lstrip_split [of t] u by auto
  have s: "s = take 5 s @ g @ CHR ''='' # h @ q # u" using append_take_drop_id [of 5 s] g(1) h(1) by simp
  show thesis
  proof (cases "q = CHR 0x22 \<or> q = CHR 0x27")
    case True
    then have "quoted_value q u = Some (v, r)" using assms kw t u by (auto simp: index_here_def Let_def)
    with quoted_value_split [OF this] True show ?thesis
      using s kw g(2) h(2) by (intro that [of "take 5 s" g h "q # v @ [q]"]) auto
  next
    case False
    then have i: "index_char q" "v = takeWhile index_char (q # u)" "r = dropWhile index_char (q # u)"
      using assms kw t u by (auto simp: index_here_def Let_def split: if_split_asm)
    have "r = [] \<or> \<not> index_char (hd r)" unfolding i(3) using hd_dropWhile [of index_char "q # u"] by blast
    moreover have "q # u = v @ r" unfolding i(2,3) by simp
    moreover have "\<forall>c \<in> set v. index_char c" unfolding i(2) by (auto dest: set_takeWhileD)
    moreover have "v \<noteq> []" using i by simp
    ultimately show ?thesis using s kw g(2) h(2) by (intro that [of "take 5 s" g h v]) auto
  qed
qed

lemma index_here_term: "index_here s = Some (v, r) \<Longrightarrow> index_term v s"
  by (erule index_here_split) (unfold index_term_def, blast)

text \<open>A separator inside the text of a match begins no further term.\<close>

lemma split_within:
  assumes "xs @ ys = pre @ c # t"
  obtains (left) z where "xs = pre @ c # z" "t = z @ ys" | (right) p where "pre = xs @ p" "ys = p @ c # t"
  using assms by (auto simp: append_eq_append_conv2 Cons_eq_append_conv append_eq_Cons_conv)

lemma index_term_head: "index_term v (c # t) \<Longrightarrow> index_char c \<and> c \<notin> {CHR ''='', CHR 0x22, CHR 0x27}"
proof -
  assume "index_term v (c # t)"
  then obtain kw z where kw: "c # t = kw @ z" "lower kw = ''index''" unfolding index_term_def by auto
  then obtain kw' where "kw = c # kw'" by (cases kw) (auto simp: lower_def)
  with kw(2) lower_index_word [of kw c] show ?thesis by simp
qed

lemma index_term_word:
  assumes "index_term v (n @ rest)" and "\<forall>c \<in> set n. index_char c" and "rest = [] \<or> \<not> index_char (hd rest)" and "n \<noteq> []"
  shows "lower n = ''index''"
proof -
  from assms(1) obtain kw g z where e: "n @ rest = kw @ g @ CHR ''='' # z" "lower kw = ''index''" "\<forall>c \<in> set g. is_space c"
    unfolding index_term_def by auto
  have kw: "\<forall>c \<in> set kw. index_char c" using lower_index_word(1) [OF e(2)] by blast
  have stop: "\<not> index_char (hd (g @ CHR ''='' # z))" using e(3) index_char_plain by (cases g) auto
  have "takeWhile index_char (n @ rest) = n" using assms(2,3) by (cases rest) (auto simp: takeWhile_append)
  moreover have "takeWhile index_char (kw @ g @ CHR ''='' # z) = kw"
    using kw stop by (cases g) (auto simp: takeWhile_append)
  ultimately show ?thesis using e(1,2) by simp
qed

lemma no_term_within:
  assumes m: "index_here s = Some (n, r)" and plain: "\<forall>c \<in> set n. \<not> index_separator c" "lower n \<noteq> ''index''"
    and occ: "s = pre @ c # t" "index_separator c" "index_term v t"
  shows "\<exists>pre'. r = pre' @ c # t"
proof -
  from m obtain kw g h w where s: "s = kw @ g @ CHR ''='' # h @ w @ r" and kw: "lower kw = ''index''"
    and sp: "\<forall>c \<in> set (g @ h). is_space c" and ne: "n \<noteq> []"
    and w: "(\<exists>q \<in> {CHR 0x22, CHR 0x27}. w = q # n @ [q] \<and> q \<notin> set n) \<or>
      (w = n \<and> (\<forall>c \<in> set n. index_char c) \<and> (r = [] \<or> \<not> index_char (hd r)))" by (rule index_here_split)
  have spaces: "\<not> index_term v (x # y)" if "is_space x \<or> x = CHR ''=''" for x y
    using index_term_head [of v x y] index_char_plain that by auto
  have sep_kw: "c \<notin> set kw" using lower_index_word(1) [OF kw] index_char_plain occ(2) by blast
  have sep_w: "c \<notin> set w"
    using w
  proof
    assume "\<exists>q \<in> {CHR 0x22, CHR 0x27}. w = q # n @ [q] \<and> q \<notin> set n"
    then show ?thesis using plain(1) occ(2) by auto
  qed (use plain(1) occ(2) in auto)
  have eq: "kw @ (g @ (CHR ''='' # (h @ (w @ r)))) = pre @ c # t" using s occ(1) by simp
  from eq obtain p1 where p1: "g @ (CHR ''='' # (h @ (w @ r))) = p1 @ c # t"
    by (rule split_within) (use sep_kw in auto)
  from p1 obtain p2 where p2: "CHR ''='' # (h @ (w @ r)) = p2 @ c # t"
  proof (rule split_within)
    fix z assume z: "g = p1 @ c # z" "t = z @ CHR ''='' # (h @ (w @ r))"
    then show thesis using spaces occ(3) sp by (cases z) auto
  qed blast
  have "c \<noteq> CHR ''=''" using occ(2) by auto
  with p2 obtain p3 where p3: "h @ (w @ r) = p3 @ c # t" by (cases p2) auto
  from p3 obtain p4 where p4: "w @ r = p4 @ c # t"
  proof (rule split_within)
    fix z assume z: "h = p3 @ c # z" "t = z @ (w @ r)"
    show thesis
    proof (cases z)
      case Nil
      with z have t: "t = w @ r" by simp
      from w show ?thesis
      proof
        assume "\<exists>q \<in> {CHR 0x22, CHR 0x27}. w = q # n @ [q] \<and> q \<notin> set n"
        then obtain q where q: "q \<in> {CHR 0x22, CHR 0x27}" "w = q # n @ [q]" by blast
        then have "index_term v (q # n @ [q] @ r)" using occ(3) t by simp
        from index_term_head [OF this] q(1) show ?thesis by blast
      next
        assume "w = n \<and> (\<forall>c \<in> set n. index_char c) \<and> (r = [] \<or> \<not> index_char (hd r))"
        then show ?thesis using index_term_word [of v n r] occ(3) t ne plain(2) by auto
      qed
    qed (use spaces occ(3) sp z in auto)
  qed blast
  from p4 show ?thesis by (rule split_within) (use sep_w in auto)
qed

text \<open>So the scanner misses no term, and reports nothing else.\<close>

lemma find_indexes_complete:
  assumes "set (find_indexes b s) \<subseteq> A" and "plain_names A"
    and "b \<and> index_term v s \<or> (\<exists>pre c t. s = pre @ c # t \<and> index_separator c \<and> index_term v t)"
  shows "v \<in> A"
  using assms(1,3)
proof (induction "length s" arbitrary: b s rule: less_induct)
  case less
  have inner: "v \<in> A" if found: "set (find_indexes False s) \<subseteq> A" and
    occ: "s = pre @ c # t" "index_separator c" "index_term v t" for pre c t
  proof (cases pre)
    case Nil
    with found occ have "set (find_indexes True t) \<subseteq> A" by (simp add: find_indexes_step)
    with less(1) [of t True] Nil occ show ?thesis by simp
  next
    case (Cons d pre')
    let ?t = "pre' @ c # t"
    have "set (find_indexes (index_separator d) ?t) \<subseteq> A"
      using found by (cases "index_separator d") (simp_all add: occ(1) Cons find_indexes_step)
    moreover have "\<exists>p c' u. ?t = p @ c' # u \<and> index_separator c' \<and> index_term v u" using occ(2,3) by blast
    moreover have "length ?t < length s" by (simp add: occ(1) Cons)
    ultimately show ?thesis using less(1) by blast
  qed
  show ?case
  proof (cases "b \<and> index_here s \<noteq> None")
    case False
    then have "set (find_indexes False s) \<subseteq> A"
      using less(2) by (cases b; cases "index_here s") (auto simp: find_indexes_start)
    moreover have "\<not> (b \<and> index_term v s)" using False index_term_here by fastforce
    ultimately show ?thesis using inner less(3) by blast
  next
    case True
    then obtain n r where m: "index_here s = Some (n, r)" by auto
    with True less(2) have sub: "n \<in> A" "set (find_indexes False r) \<subseteq> A" by (simp_all add: find_indexes_start)
    from less(3) show ?thesis
    proof
      assume "b \<and> index_term v s"
      with index_term_here [of v s] m sub(1) show ?thesis by auto
    next
      assume "\<exists>pre c t. s = pre @ c # t \<and> index_separator c \<and> index_term v t"
      then obtain pre c t where occ: "s = pre @ c # t" "index_separator c" "index_term v t" by blast
      from no_term_within [OF m _ _ occ] sub(1) assms(2) obtain pre' where "r = pre' @ c # t"
        by (auto simp: plain_names_def)
      with less(1) [OF index_here_shorter [OF m] sub(2)] occ show ?thesis by blast
    qed
  qed
qed

lemma find_indexes_sound:
  "v \<in> set (find_indexes b s) \<Longrightarrow>
    b \<and> index_term v s \<or> (\<exists>pre c t. s = pre @ c # t \<and> index_separator c \<and> index_term v t)"
proof (induction "length s" arbitrary: b s rule: less_induct)
  case less
  have inner: "\<exists>pre c t. s = pre @ c # t \<and> index_separator c \<and> index_term v t" if found: "v \<in> set (find_indexes False s)"
  proof (cases s)
    case Nil
    with found show ?thesis by (simp add: find_indexes.simps)
  next
    case (Cons d t)
    with found have "v \<in> set (find_indexes (index_separator d) t)"
      by (cases "index_separator d") (simp_all add: find_indexes_step)
    from less(1) [OF _ this] Cons show ?thesis by (metis append_Cons append_Nil length_Cons lessI)
  qed
  show ?case
  proof (cases "b \<and> index_here s \<noteq> None")
    case False
    then have "v \<in> set (find_indexes False s)" using less(2) by (cases b; cases "index_here s") (auto simp: find_indexes_start)
    then show ?thesis by (intro disjI2 inner)
  next
    case True
    then obtain n r where m: "index_here s = Some (n, r)" by auto
    from m obtain kw g h w where s: "s = kw @ g @ CHR ''='' # h @ w @ r" by (rule index_here_split)
    from True m less(2) consider "v = n" | "v \<in> set (find_indexes False r)" by (auto simp: find_indexes_start)
    then show ?thesis
    proof cases
      case 1
      with True index_here_term [OF m] show ?thesis by simp
    next
      case 2
      from less(1) [OF index_here_shorter [OF m] this] obtain pre c t where
        "r = pre @ c # t" "index_separator c" "index_term v t" by blast
      then show ?thesis
        by (intro disjI2 exI [of _ "kw @ g @ CHR ''='' # h @ w @ pre"] exI [of _ c] exI [of _ t]) (simp add: s)
    qed
  qed
qed

text \<open>A stage that begins with one of the words is found.\<close>

lemma stage_ahead_later: "stage_ahead True ws t \<Longrightarrow> stage_ahead b ws (pre @ CHR ''|'' # t)"
proof (induction pre arbitrary: b)
  case Nil
  then show ?case by (cases b) (simp_all add: stage_ahead_False [of ws "CHR ''|'' # t"] stage_ahead_step)
next
  case (Cons c pre)
  then have "stage_ahead False ws ((c # pre) @ CHR ''|'' # t)" by (simp add: stage_ahead_step)
  then show ?case by (cases b) (simp_all add: stage_ahead_False)
qed

lemma stage_command_blocked:
  assumes "stage_command s w" and "w \<in> set blocked_commands"
  shows "blocked s"
proof -
  from assms(1) obtain pre g u rest where s: "s = pre @ g @ u @ rest" and pre: "pre = [] \<or> last pre = CHR ''|''"
    and g: "\<forall>c \<in> set g. is_space c" and u: "lower u = w" "rest = [] \<or> \<not> is_word (hd rest)"
    unfolding stage_command_def by blast
  have letters: "\<forall>w \<in> set blocked_commands. w \<noteq> [] \<and> is_ascii_letter (hd w)" by code_simp
  with assms(2) u(1) obtain d u' where d: "u = d # u'" "is_ascii_letter (lower_char d)"
    by (cases u) (auto simp: lower_def)
  have "97 \<le> code_of (lower_char d) \<and> code_of (lower_char d) \<le> 122"
    using d(2) by (auto simp: is_ascii_letter_def lower_char_code Let_def split: if_splits)
  then have "\<not> is_space d"
    by (auto simp: is_space_def lower_char_code Let_def split: if_split_asm)
  then have "lstrip (g @ u @ rest) = u @ rest" using g by (simp add: lstrip_spaces d(1) lstrip_head)
  moreover have "length u = length w" using u(1) by auto
  ultimately have "word_ahead blocked_commands (lstrip (g @ u @ rest))"
    unfolding word_ahead_def boundary_def using u assms(2)
    by (intro bexI [of _ w]) (auto split: list.split)
  then have here: "stage_ahead True blocked_commands (g @ u @ rest)" by (simp add: stage_ahead_False)
  show ?thesis
  proof (cases "pre = []")
    case True
    with here show ?thesis by (simp add: blocked_def s)
  next
    case False
    with pre have "pre = butlast pre @ [CHR ''|'']" by (metis append_butlast_last_id)
    then have "s = butlast pre @ CHR ''|'' # g @ u @ rest" unfolding s by (metis append.assoc append_Cons append_Nil)
    with stage_ahead_later [OF here] show ?thesis by (simp add: blocked_def)
  qed
qed

text \<open>What validation lets through, in terms of the scanner, and that it is a fixed point.\<close>

lemma splunk_validated:
  assumes "splunk_validate s q = Inr r"
  shows "starts_with ''search '' (lower r) \<and> \<not> blocked r \<and> find_indexes True r \<noteq> [] \<and>
    set (find_indexes True r) \<subseteq> allowed_splunk_indexes s \<and> join '' '' (split_words r) = r \<and>
    splunk_validate s r = Inr r"
proof -
  define ws where "ws = split_words (strip q)"
  define clean where "clean = join '' '' ws"
  have checks: "\<not> blocked clean" "find_indexes True clean \<noteq> []"
      "filter (\<lambda>i. i \<notin> allowed_splunk_indexes s) (find_indexes True clean) = []"
      "r = (if starts_with ''search '' (lower clean) then clean else ''search '' @ clean)"
    using assms by (auto simp: splunk_validate_def Let_def clean_def ws_def split: if_split_asm)
  have wl: "is_word_list ws" by (simp add: ws_def split_words_def words_from_words)
  have ne: "ws \<noteq> []"
  proof
    assume "ws = []"
    then have "find_indexes True clean = []" by (simp add: clean_def find_indexes.simps index_here_def lower_def)
    with checks(2) show False by simp
  qed
  have r: "r = join '' '' ws \<or> r = join '' '' (''search'' # ws)"
    using checks(4) ne by (cases ws) (auto simp: clean_def)
  have "is_word_list (''search'' # ws)" using wl by (simp add: is_word_list_def) code_simp
  with r wl have norm: "join '' '' (split_words r) = r" by (auto simp: split_words_join)
  have start: "starts_with ''search '' (lower r)"
    using checks(4) starts_with_append [of "''search ''" "lower clean", folded lower_search]
    by (auto simp del: append.simps)
  have nb: "\<not> blocked r"
    using checks(1,4) blocked_search [of clean] stage_ahead_False [of blocked_commands clean]
    by (auto simp: blocked_def)
  have idx: "find_indexes True r = find_indexes True clean"
    using checks(4) find_indexes_search [of clean] by simp
  have "splunk_validate s r = Inr r"
    unfolding splunk_validate_def Let_def split_words_strip norm
    using nb start idx checks(2,3) by simp
  then show ?thesis using start nb idx checks(2,3) norm by (auto simp: filter_empty_conv)
qed


definition sample_splunk :: settings where
  "sample_splunk = default_settings\<lparr>splunk_base_url := ''https://s'', splunk_allowed_indexes := ''security'',
     splunk_results_index := ''security''\<rparr>"

lemma sample_splunk_fields [simp]:
  "allowed_splunk_indexes sample_splunk = {''security''}" "splunk_configured sample_splunk"
  "splunk_results_index sample_splunk = ''security''"
proof -
  have "csv_set ''security'' = {''security''}" by code_simp
  then show "allowed_splunk_indexes sample_splunk = {''security''}"
    by (simp add: allowed_splunk_indexes_def sample_splunk_def)
qed (simp_all add: splunk_configured_def sample_splunk_def)


text \<open>
  The scanner reads an index name up to the first character outside its class, so a wildcard
  after an allowed name passes, and so does a search that excludes the index it names.
\<close>

lemma splunk_index_wildcard_accepted:
  "splunk_validate sample_splunk ''index=security*'' = Inr ''search index=security*''"
  "splunk_validate sample_splunk ''NOT index=security'' = Inr ''search NOT index=security''"
proof -
  have c: "join '' '' (split_words (strip ''index=security*'')) = ''index=security*''"
    "find_indexes True ''index=security*'' = [''security'']" "\<not> blocked ''index=security*''"
    "\<not> starts_with ''search '' (lower ''index=security*'')"
    by code_simp+
  show "splunk_validate sample_splunk ''index=security*'' = Inr ''search index=security*''"
    unfolding splunk_validate_def Let_def c(1) by (simp add: c(2-4))
  have d: "join '' '' (split_words (strip ''NOT index=security'')) = ''NOT index=security''"
    "find_indexes True ''NOT index=security'' = [''security'']" "\<not> blocked ''NOT index=security''"
    "\<not> starts_with ''search '' (lower ''NOT index=security'')"
    by code_simp+
  show "splunk_validate sample_splunk ''NOT index=security'' = Inr ''search NOT index=security''"
    unfolding splunk_validate_def Let_def d(1) by (simp add: d(2-4))
qed

section \<open>Quoted literals\<close>

text \<open>
  How a query language with backslash escapes reads the literal after its opening quote: the
  value and what follows the closing quote.
\<close>

fun read_quoted :: "string \<Rightarrow> (string \<times> string) option" where
  "read_quoted [] = None"
| "read_quoted (c # s) =
     (if c = CHR 0x22 then Some ([], s)
      else if c = CHR 0x5C
      then (case s of [] \<Rightarrow> None | d # t \<Rightarrow> map_option (apfst (Cons d)) (read_quoted t))
      else map_option (apfst (Cons c)) (read_quoted s))"

lemma read_quoted_escaped:
  assumes "CHR 0x5C \<notin> set q"
  shows "read_quoted (replace_char (CHR 0x22) [CHR 0x5C, CHR 0x22] q @ [CHR 0x22] @ rest) = Some (q, rest)"
  using assms by (induction q) auto

text \<open>
  The text clause of a Confluence search holds exactly the query: when the query contains no
  backslash, a reader of the CQL gets the query back as one literal, and what follows is only
  the restriction to the allowed spaces.
\<close>

theorem confluence_literal:
  assumes "CHR 0x5C \<notin> set query"
  shows "\<exists>body. confluence_cql query spaces = ''text ~ '' @ [CHR 0x22] @ body \<and>
    read_quoted body = Some (query,
      if spaces = [] then []
      else '' and space in ('' @ join '','' (map (\<lambda>sp. [CHR 0x22] @ sp @ [CHR 0x22]) spaces) @ '')'')"
proof (cases "spaces = []")
  case True
  then show ?thesis
    using read_quoted_escaped [OF assms, of "[]"] by (simp add: confluence_cql_def Let_def)
next
  case False
  then show ?thesis
    using read_quoted_escaped [OF assms, of "'' and space in ('' @
        join '','' (map (\<lambda>sp. [CHR 0x22] @ sp @ [CHR 0x22]) spaces) @ '')''"]
    by (simp add: confluence_cql_def Let_def)
qed

lemma confluence_literal_witness:
  "\<exists>body rest. confluence_cql ''vpn'' [''SEC''] = ''text ~ '' @ [CHR 0x22] @ body \<and>
     read_quoted body = Some (''vpn'', rest)"
proof -
  have "CHR 0x5C \<notin> set ''vpn''" by code_simp
  from confluence_literal [OF this, of "[''SEC'']"] show ?thesis by blast
qed

text \<open>
  A backslash is not escaped: one before a quote makes the reader take the escaped quote for the
  closing one, and the rest of the query becomes CQL of its own.
\<close>

lemma confluence_backslash_escapes:
  "\<exists>body. confluence_cql ([CHR ''x'', CHR 0x5C, CHR 0x22] @ '' or space = SECRET or text ~ '' @ [CHR 0x5C, CHR 0x22]) [''SEC'']
      = ''text ~ '' @ [CHR 0x22] @ body \<and>
    map_option (\<lambda>p. starts_with '' or space = SECRET or text ~ '' (snd p)) (read_quoted body) = Some True"
  by (simp add: confluence_cql_def Let_def starts_with_def)

end
