(* ===== verification/Redaction.thy ===== *)
theory Redaction
  imports Json
begin

text \<open>
  \<^verbatim>\<open>redact\<close> (\<^verbatim>\<open>src/sprinter/engine.py\<close>): the values under sensitive keys are replaced at
  every depth. What it promises: no value under a sensitive key survives or has any influence
  on the result, everything else is kept, and redacting twice is redacting once.
\<close>

definition redacted :: json where
  "redacted = JStr ''[REDACTED]''"

fun redact :: "string set \<Rightarrow> json \<Rightarrow> json" where
  "redact keys (JObj ms) =
     JObj (map (\<lambda>(k, v). (k, if lower k \<in> keys then redacted else redact keys v)) ms)"
| "redact keys (JArr xs) = JArr (map (redact keys) xs)"
| "redact keys v = v"

text \<open>No object, at any depth, holds anything but the mark under a sensitive key.\<close>

fun clean :: "string set \<Rightarrow> json \<Rightarrow> bool" where
  "clean keys (JObj ms) = (\<forall>(k, v) \<in> set ms. if lower k \<in> keys then v = redacted else clean keys v)"
| "clean keys (JArr xs) = (\<forall>x \<in> set xs. clean keys x)"
| "clean keys v = True"

text \<open>Change every value under a sensitive key, at any depth, by \<open>f\<close>.\<close>

fun alter_secrets :: "(string \<Rightarrow> json \<Rightarrow> json) \<Rightarrow> string set \<Rightarrow> json \<Rightarrow> json" where
  "alter_secrets f keys (JObj ms) =
     JObj (map (\<lambda>(k, v). (k, if lower k \<in> keys then f k v else alter_secrets f keys v)) ms)"
| "alter_secrets f keys (JArr xs) = JArr (map (alter_secrets f keys) xs)"
| "alter_secrets f keys v = v"

lemma clean_redact: "clean keys (redact keys v)"
  by (induction keys v rule: redact.induct) auto

lemma redact_clean: "clean keys v \<Longrightarrow> redact keys v = v"
proof (induction keys v rule: redact.induct)
  case (1 keys ms)
  have "(k, if lower k \<in> keys then redacted else redact keys v) = (k, v)" if "(k, v) \<in> set ms" for k v
    using that "1.IH" [OF that refl] "1.prems" by (fastforce split: if_splits)
  then show ?case by (auto intro!: map_idI)
qed (auto intro: map_idI)

lemma redact_alter: "redact keys (alter_secrets f keys v) = redact keys v"
  by (induction f keys v rule: alter_secrets.induct) auto

lemma redact_idem [simp]: "redact keys (redact keys v) = redact keys v"
  by (rule redact_clean) (rule clean_redact)

text \<open>
  C8: Redaction hides every sensitive value completely: the result is the same whatever the
  values under sensitive keys are, at any depth; it leaves nothing but the mark under such a
  key; it is the identity exactly on values that are already clean.
\<close>

theorem redact_hides:
  "redact keys (alter_secrets f keys v) = redact keys v \<and> clean keys (redact keys v) \<and>
   (redact keys v = v \<longleftrightarrow> clean keys v)"
  using redact_alter clean_redact [of keys v] redact_clean [of keys v] by metis

end
