(* ===== verification/Cards.thy ===== *)
theory Cards
  imports Json
begin

text \<open>
  The Adaptive Card of a review (\<^verbatim>\<open>src/sprinter/teams/cards.py\<close>): a JSON document built
  from the decision, the run's details and the links to the evidence.
\<close>

section \<open>Title case\<close>

definition upper_char :: "char \<Rightarrow> char" where
  "upper_char c = (let n = code_of c in
     if (97 \<le> n \<and> n \<le> 122) \<or> (224 \<le> n \<and> n \<le> 254 \<and> n \<noteq> 247) then char_of (n - 32) else c)"

definition is_cased :: "char \<Rightarrow> bool" where
  "is_cased c = (lower_char c \<noteq> c \<or> upper_char c \<noteq> c)"

text \<open>
  \<^verbatim>\<open>str.title\<close>, for texts whose letters have both cases (the verdicts and severities are
  ASCII).
\<close>

fun title_from :: "bool \<Rightarrow> string \<Rightarrow> string" where
  "title_from in_word [] = []"
| "title_from in_word (c # s) =
     (if in_word then lower_char c else upper_char c) # title_from (is_cased c) s"

definition title :: "string \<Rightarrow> string" where
  "title s = title_from False s"

section \<open>The card\<close>

definition fact :: "string \<Rightarrow> json \<Rightarrow> json" where
  "fact name value =
     JObj [(''title'', JStr name),
           (''value'', JStr (if value \<in> {JNull, JStr []} then ''Not provided'' else py_str value))]"

definition accent_of :: "string \<Rightarrow> string" where
  "accent_of severity =
     (if severity \<in> {''critical'', ''high''} then ''attention''
      else if severity = ''medium'' then ''warning''
      else if severity = ''low'' then ''accent''
      else ''default'')"

definition card_severity :: "json dict \<Rightarrow> string" where
  "card_severity decision = lower (py_str (py_or (get_or_none decision ''severity'') (JStr ''informational'')))"

text \<open>\<^verbatim>\<open>decision.get(key) or []\<close>; the model's lists are lists of texts.\<close>

definition bullet_items :: "json dict \<Rightarrow> string \<Rightarrow> json list" where
  "bullet_items decision key = (case get_or_none decision key of JArr xs \<Rightarrow> xs | _ \<Rightarrow> [])"

definition bullets :: "json list \<Rightarrow> string" where
  "bullets items = join [CHR 0x0A] (map (\<lambda>i. ''- '' @ py_str i) items)"

definition text_block :: "string \<Rightarrow> (string \<times> json) list \<Rightarrow> json" where
  "text_block text props = JObj ([(''type'', JStr ''TextBlock''), (''text'', JStr text)] @ props)"

definition run_facts :: "json dict \<Rightarrow> json list" where
  "run_facts run_details =
     [fact ''Run'' (py_or (py_or (get_or_none run_details ''run_id'') (get_or_none run_details ''result_id'')) (JStr ''Latest'')),
      fact ''Source'' (get_or_none run_details ''source''),
      fact ''Evidence'' (case dict_get run_details ''evidence_count'' of None \<Rightarrow> JInt 0 | Some v \<Rightarrow> v),
      fact ''Model'' (get_or_none run_details ''model'')]"

definition details_body :: "json dict \<Rightarrow> json dict \<Rightarrow> json list" where
  "details_body decision run_details =
     (let rationale = bullet_items decision ''rationale'';
          actions = bullet_items decision ''recommended_actions'' in
      [JObj [(''type'', JStr ''FactSet''), (''facts'', JArr (run_facts run_details)), (''spacing'', JStr ''Small'')]] @
      (if rationale = [] then []
       else [text_block (bullets rationale) [(''wrap'', JBool True), (''spacing'', JStr ''Medium'')]]) @
      (if actions = [] then []
       else [text_block ''Recommended actions'' [(''weight'', JStr ''Bolder''), (''spacing'', JStr ''Medium'')],
             text_block (bullets actions) [(''wrap'', JBool True), (''spacing'', JStr ''Small'')]]))"

definition link_action :: "string \<times> string \<Rightarrow> json" where
  "link_action link =
     JObj [(''type'', JStr ''Action.OpenUrl''),
           (''title'', JStr (take 80 (if fst link \<noteq> [] then fst link else ''Open evidence''))),
           (''url'', JStr (snd link))]"

text \<open>A link is its label and its URL; links without a URL are left out.\<close>

definition card_actions :: "json dict \<Rightarrow> json dict \<Rightarrow> (string \<times> string) list \<Rightarrow> json list" where
  "card_actions decision run_details links =
     JObj [(''type'', JStr ''Action.ShowCard''), (''title'', JStr ''Run details''),
           (''card'', JObj [(''type'', JStr ''AdaptiveCard''), (''version'', JStr ''1.5''),
              (''body'', JArr (details_body decision run_details))])]
     # map link_action (filter (\<lambda>l. snd l \<noteq> []) links)"

definition build_review_card :: "json dict \<Rightarrow> json dict \<Rightarrow> (string \<times> string) list \<Rightarrow> json" where
  "build_review_card decision run_details links =
     (let severity = card_severity decision;
          verdict = py_str (py_or (get_or_none decision ''verdict'') (JStr ''needs investigation'')) in
      JObj [(''$schema'', JStr ''http://adaptivecards.io/schemas/adaptive-card.json''),
        (''type'', JStr ''AdaptiveCard''), (''version'', JStr ''1.5''),
        (''msteams'', JObj [(''width'', JStr ''Full'')]),
        (''body'', JArr
          [text_block ''Sprinter review'' [(''size'', JStr ''Medium''), (''weight'', JStr ''Bolder''),
             (''color'', JStr (accent_of severity)), (''wrap'', JBool True)],
           text_block (py_str (py_or (get_or_none decision ''summary'') (JStr ''Review completed.'')))
             [(''wrap'', JBool True), (''spacing'', JStr ''Small'')],
           JObj [(''type'', JStr ''FactSet''),
             (''facts'', JArr [fact ''Verdict'' (JStr (title (replace_char (CHR ''_'') '' '' verdict))),
                             fact ''Severity'' (JStr (title severity))]),
             (''spacing'', JStr ''Medium'')]]),
        (''actions'', JArr (card_actions decision run_details links))])"

end
