(* ===== verification/JobLifecycle.thy ===== *)
theory JobLifecycle
  imports Retention
begin

text \<open>
  The life of a review job across the processes that share the database: the API submits jobs
  (its select may see an earlier state of the tables), one worker claims a job, completes or
  fails it, may be killed while it holds one, recovers abandoned jobs when it starts, and purges
  old rows. The operations are those of \<^verbatim>\<open>src/sprinter/db.py\<close>; the order of the steps is
  unrestricted, except that the worker works on one job at a time (\<^verbatim>\<open>run_worker\<close> awaits
  \<^verbatim>\<open>process_next_job\<close>) and recovers only before it has claimed one.
\<close>

section \<open>Rows and tables that the operations maintain\<close>

definition job_ok :: "job \<Rightarrow> bool" where
  "job_ok j = (case j_status j of
     Pending \<Rightarrow> j_attempts j = 0 \<and> j_claimed_at j = None \<and> j_completed_at j = None \<and>
       j_result_json j = None \<and> j_error_json j = None
   | Running \<Rightarrow> 0 < j_attempts j \<and> j_claimed_at j \<noteq> None \<and> j_completed_at j = None \<and> j_result_json j = None
   | Retry \<Rightarrow> 0 < j_attempts j \<and> j_claimed_at j \<noteq> None \<and> j_completed_at j = None \<and> j_result_json j = None
   | Succeeded \<Rightarrow> 0 < j_attempts j \<and> j_completed_at j \<noteq> None \<and> j_result_json j \<noteq> None \<and> j_error_json j = None
   | Failed \<Rightarrow> j_max_attempts j \<le> j_attempts j \<and> j_completed_at j \<noteq> None \<and> j_result_json j = None \<and>
       j_error_json j \<noteq> None)"

definition jobs_ok :: "database \<Rightarrow> bool" where
  "jobs_ok db =
     (distinct (map j_id (jobs db)) \<and> distinct (map j_idempotency_key (jobs db)) \<and>
      (\<forall>j \<in> set (jobs db). job_ok j))"

text \<open>The foreign keys: evidence and decisions of existing jobs, findings of existing decisions.\<close>

definition references_ok :: "database \<Rightarrow> bool" where
  "references_ok db =
     ((\<forall>e \<in> set (evidences db). e_job_id e \<in> j_id ` set (jobs db)) \<and>
      (\<forall>d \<in> set (decisions db). d_job_id d \<in> j_id ` set (jobs db)) \<and>
      (\<forall>f \<in> set (findings db). f_decision_id f \<in> d_id ` set (decisions db)))"

lemma references_okI:
  assumes "\<And>e. e \<in> set (evidences db) \<Longrightarrow> e_job_id e \<in> j_id ` set (jobs db)"
    and "\<And>d. d \<in> set (decisions db) \<Longrightarrow> d_job_id d \<in> j_id ` set (jobs db)"
    and "\<And>f. f \<in> set (findings db) \<Longrightarrow> f_decision_id f \<in> d_id ` set (decisions db)"
  shows "references_ok db"
  unfolding references_ok_def by (intro conjI ballI assms)

lemma references_okD:
  assumes "references_ok db"
  shows "e \<in> set (evidences db) \<Longrightarrow> e_job_id e \<in> j_id ` set (jobs db)"
    and "d \<in> set (decisions db) \<Longrightarrow> d_job_id d \<in> j_id ` set (jobs db)"
    and "f \<in> set (findings db) \<Longrightarrow> f_decision_id f \<in> d_id ` set (decisions db)"
  using assms by (simp_all add: references_ok_def)

definition decisions_of :: "string \<Rightarrow> database \<Rightarrow> decision list" where
  "decisions_of i db = filter (\<lambda>d. d_job_id d = i) (decisions db)"

text \<open>One decision for a job that succeeded, none for any other.\<close>

definition verdicts_ok :: "database \<Rightarrow> bool" where
  "verdicts_ok db =
     (\<forall>j \<in> set (jobs db). length (decisions_of (j_id j) db) = (if j_status j = Succeeded then 1 else 0))"

definition findings_ok :: "database \<Rightarrow> bool" where
  "findings_ok db = (distinct (map f_dedupe_key (findings db)) \<and> (\<forall>f \<in> set (findings db). 0 < f_occurrences f))"

definition store_ok :: "database \<Rightarrow> bool" where
  "store_ok db = (jobs_ok db \<and> references_ok db \<and> verdicts_ok db \<and> findings_ok db)"

section \<open>Updating job rows\<close>

lemma jobs_ok_update:
  assumes "jobs_ok db" and "\<And>j. j_id (f j) = j_id j" and "\<And>j. j_idempotency_key (f j) = j_idempotency_key j"
    and "\<And>j. j \<in> set (jobs db) \<Longrightarrow> p j \<Longrightarrow> job_ok j \<Longrightarrow> job_ok (f j)"
    and "jobs db' = update_where p f (jobs db)"
  shows "jobs_ok db'"
  using assms by (auto simp: jobs_ok_def update_where_cong_frame set_update_where)

lemma image_update_where: "(\<And>j. k (f j) = k j) \<Longrightarrow> k ` set (update_where p f rows) = k ` set rows"
  by (metis list.set_map update_where_cong_frame)

lemma references_ok_update:
  assumes "references_ok db" and "\<And>j. j_id (f j) = j_id j" and "jobs db' = update_where p f (jobs db)"
    and "evidences db' = evidences db" and "decisions db' = decisions db" and "findings db' = findings db"
  shows "references_ok db'"
  using assms by (simp add: references_ok_def image_update_where)

lemma verdicts_ok_update:
  assumes "verdicts_ok db" and "\<And>j. j_id (f j) = j_id j" and "jobs db' = update_where p f (jobs db)"
    and "decisions db' = decisions db"
    and "\<And>j. j \<in> set (jobs db) \<Longrightarrow> p j \<Longrightarrow> (j_status (f j) = Succeeded) = (j_status j = Succeeded)"
  shows "verdicts_ok db'"
  using assms by (auto simp: verdicts_ok_def decisions_of_def set_update_where)

text \<open>An update that changes neither identities nor whether a job succeeded keeps the whole store.\<close>

lemma store_ok_update:
  assumes "store_ok db" and "\<And>j. j_id (f j) = j_id j" and "\<And>j. j_idempotency_key (f j) = j_idempotency_key j"
    and "\<And>j. j \<in> set (jobs db) \<Longrightarrow> p j \<Longrightarrow> job_ok j \<Longrightarrow> job_ok (f j)"
    and "\<And>j. j \<in> set (jobs db) \<Longrightarrow> p j \<Longrightarrow> (j_status (f j) = Succeeded) = (j_status j = Succeeded)"
    and "db' = db\<lparr>jobs := update_where p f (jobs db)\<rparr>"
  shows "store_ok db'"
proof -
  have "jobs_ok db'"
    by (rule jobs_ok_update [of db f p]) (use assms in \<open>auto simp: store_ok_def\<close>)
  moreover have "references_ok db'"
    by (rule references_ok_update [of db f db' p]) (use assms in \<open>auto simp: store_ok_def\<close>)
  moreover have "verdicts_ok db'"
    by (rule verdicts_ok_update [of db f db' p]) (use assms in \<open>auto simp: store_ok_def\<close>)
  moreover have "findings_ok db'"
    using assms(1,6) by (simp add: store_ok_def findings_ok_def)
  ultimately show ?thesis by (simp add: store_ok_def)
qed

section \<open>Each operation keeps the store well-formed\<close>

lemma new_job_fields [simp]:
  "j_id (new_job s now hex key t sel src sm n) = new_id ''job'' hex"
  "j_idempotency_key (new_job s now hex key t sel src sm n) = key"
  "j_status (new_job s now hex key t sel src sm n) = Pending"
  "j_attempts (new_job s now hex key t sel src sm n) = 0"
  "j_max_attempts (new_job s now hex key t sel src sm n) = job_max_attempts s"
  "job_ok (new_job s now hex key t sel src sm n)"
  "request_tuple (new_job s now hex key t sel src sm n) = (t, dumps sel, take 128 src, dumps sm, n)"
  by (simp_all add: new_job_def job_ok_def request_tuple_def)

lemma create_job_cases:
  assumes "create_job s now hex seen key t sel src sm n db = (db', r)"
  obtains (kept) "db' = db"
  | (added) job where "job = new_job s now hex key t sel src sm n" "r = Inr (job, True)"
      "db' = db\<lparr>jobs := jobs db @ [job]\<rparr>"
      "\<forall>j \<in> set (jobs db). j_idempotency_key j \<noteq> key \<and> j_id j \<noteq> new_id ''job'' hex"
  using assms by (auto simp: create_job_def Let_def split: option.splits if_splits)

lemma create_job_ok:
  assumes "create_job s now hex seen key t sel src sm n db = (db', r)" and "store_ok db"
  shows "store_ok db'"
  using assms(1)
proof (cases rule: create_job_cases)
  case (added job)
  with assms(2) have "jobs_ok db'" by (auto simp: store_ok_def jobs_ok_def)
  moreover from added assms(2) have "references_ok db'"
    by (auto simp: store_ok_def references_ok_def)
  moreover have "decisions_of (new_id ''job'' hex) db = []"
    using added(4) assms(2) by (auto simp: decisions_of_def filter_empty_conv store_ok_def references_ok_def)
  then have "verdicts_ok db'"
    using added assms(2) by (auto simp: store_ok_def verdicts_ok_def decisions_of_def)
  ultimately show ?thesis using added assms(2) by (simp add: store_ok_def findings_ok_def)
qed (simp add: assms(2))

lemma claim_job_cases:
  assumes "claim_job now seen db = (db', r)"
  obtains (none) "r = None" "db' = db" "filter (due now) (jobs seen) = []"
  | (update) c where "c \<in> set (jobs seen)" "due now c"
      "\<And>d. d \<in> set (jobs seen) \<Longrightarrow> due now d \<Longrightarrow> j_created_at c \<le> j_created_at d"
      "db' = db\<lparr>jobs := update_where (\<lambda>j. j_id j = j_id c \<and> claimable j) (mark_claimed now) (jobs db)\<rparr>"
      "r = (if rowcount (\<lambda>j. j_id j = j_id c \<and> claimable j) (jobs db) = 1
            then Some (mark_claimed now c) else None)"
proof (cases "first_row (order_by j_created_at (filter (due now) (jobs seen)))")
  case None
  with assms show ?thesis by (auto simp: claim_job_def intro: none)
next
  case (Some c)
  have "c \<in> set (filter (due now) (jobs seen))"
    using first_row_mem [OF Some] by simp
  moreover have "j_created_at c \<le> j_created_at d" if "d \<in> set (jobs seen)" "due now d" for d
    using first_row_order_by_least [OF Some, of d] that by simp
  ultimately show ?thesis
    using assms Some by (auto simp: claim_job_def Let_def intro!: update split: if_splits)
qed

lemma claim_job_ok:
  assumes "claim_job now seen db = (db', r)" and "store_ok db"
  shows "store_ok db'"
  using assms(1)
proof (cases rule: claim_job_cases)
  case (update c)
  show ?thesis
    by (rule store_ok_update [OF assms(2), of "mark_claimed now" "\<lambda>j. j_id j = j_id c \<and> claimable j"])
      (auto simp: update(4) mark_claimed_def claimable_def job_ok_def)
qed (simp add: assms(2))

lemma recover_ok: "store_ok db \<Longrightarrow> store_ok (fst (recover_abandoned_jobs now n db))"
  unfolding recover_abandoned_jobs_def Let_def fst_conv
  by (erule store_ok_update [of _ "mark_recovered now" "abandoned (now - seconds n)"])
     (auto simp: mark_recovered_def abandoned_def job_ok_def)

text \<open>A job that the worker holds: its row is exactly what the claim returned, and running.\<close>

definition held :: "job \<Rightarrow> database \<Rightarrow> bool" where
  "held j db = (j \<in> set (jobs db) \<and> j_status j = Running)"

lemma held_row: "held j db \<Longrightarrow> jobs_ok db \<Longrightarrow> r \<in> set (jobs db) \<Longrightarrow> j_id r = j_id j \<Longrightarrow> r = j"
  by (metis get_by_unique held_def jobs_ok_def option.inject)

lemma retry_job_ok:
  assumes "held j db" and "store_ok db"
  shows "store_ok (retry_job now j err delay db)"
proof -
  have row: "r = j" if "r \<in> set (jobs db)" "j_id r = j_id j" for r
    using that assms held_row by (auto simp: store_ok_def)
  show ?thesis
    unfolding retry_job_def Let_def
    by (rule store_ok_update [OF assms(2), of "mark_failed now (j_max_attempts j \<le> j_attempts j) err delay"
          "\<lambda>r. j_id r = j_id j"])
       (use assms(1) in \<open>auto simp: mark_failed_def job_ok_def held_def dest!: row\<close>)
qed

lemma note_finding_ok:
  assumes "distinct (map f_dedupe_key fs)" and "\<forall>f \<in> set fs. 0 < f_occurrences f"
  shows "distinct (map f_dedupe_key (note_finding now hex key did fs))"
    and "\<forall>f \<in> set (note_finding now hex key did fs). 0 < f_occurrences f"
proof -
  show "distinct (map f_dedupe_key (note_finding now hex key did fs))"
  proof (cases "get_by f_dedupe_key key fs")
    case None
    then show ?thesis
      using assms(1) get_by_None_iff [of f_dedupe_key key fs] by (auto simp: note_finding_def)
  qed (simp add: note_finding_def update_where_cong_frame assms(1))
  show "\<forall>f \<in> set (note_finding now hex key did fs). 0 < f_occurrences f"
    using assms(2) by (auto simp: note_finding_def set_update_where split: option.splits)
qed

lemma note_finding_decision:
  "f \<in> set (note_finding now hex key did fs) \<Longrightarrow> f_decision_id f = did \<or> (\<exists>g \<in> set fs. f_decision_id g = f_decision_id f)"
  by (auto simp: note_finding_def set_update_where split: option.splits)

lemma complete_job_Inr:
  assumes "complete_job s now hx j md key ev m db = (db', Inr did)"
  shows "jobs db' = update_where (\<lambda>r. j_id r = j_id j) (mark_succeeded now (JObj (public_decision md key did))) (jobs db)"
    and "decisions db' = decisions db @ [decision_row now did (j_id j) md m]"
    and "findings db' = note_finding now (hx_finding hx) key did (findings db)"
    and "evidences db' = evidences db @
      map (\<lambda>(i, item). evidence_row s now (j_id j) item (hx_evidence hx i)) (enumerate 0 ev)"
    and "j_id j \<in> j_id ` set (jobs db)"
  using assms by (auto simp: complete_job_def Let_def get_by_None_iff split: if_splits)

lemma complete_job_ok:
  assumes c: "complete_job s now hx j md key ev m db = (db', Inr did)" and "held j db" and "store_ok db"
  shows "store_ok db'"
proof -
  note eqs = complete_job_Inr [OF c]
  have ok: "jobs_ok db" "references_ok db" "verdicts_ok db" "findings_ok db"
    using assms(3) by (simp_all add: store_ok_def)
  have row: "r = j" if "r \<in> set (jobs db)" "j_id r = j_id j" for r
    using that ok(1) assms(2) held_row by auto
  have ids: "j_id ` set (jobs db') = j_id ` set (jobs db)"
    unfolding eqs(1) by (rule image_update_where) simp
  have jok: "jobs_ok db'"
    by (rule jobs_ok_update [OF ok(1) _ _ _ eqs(1)])
       (use assms(2) in \<open>auto simp: mark_succeeded_def job_ok_def held_def dest!: row\<close>)
  have refs: "f_decision_id f \<in> d_id ` set (decisions db')" if "f \<in> set (findings db')" for f
  proof -
    have "f_decision_id f = did \<or> (\<exists>g \<in> set (findings db). f_decision_id g = f_decision_id f)"
      using that unfolding eqs(3) by (rule note_finding_decision)
    then have "f_decision_id f = did \<or> f_decision_id f \<in> d_id ` set (decisions db)"
      using references_okD(3) [OF ok(2)] by force
    then show ?thesis by (auto simp: eqs(2) decision_row_def)
  qed
  have "references_ok db'"
  proof (rule references_okI)
    show "e_job_id e \<in> j_id ` set (jobs db')" if "e \<in> set (evidences db')" for e
    proof -
      have "e \<in> set (evidences db) \<or> e_job_id e = j_id j"
        using that unfolding eqs(4) by (auto simp: evidence_row_def)
      then show ?thesis using eqs(5) references_okD(1) [OF ok(2), of e] unfolding ids by metis
    qed
    show "d_job_id d \<in> j_id ` set (jobs db')" if "d \<in> set (decisions db')" for d
    proof -
      have "d \<in> set (decisions db) \<or> d_job_id d = j_id j"
        using that unfolding eqs(2) by (auto simp: decision_row_def)
      then show ?thesis using eqs(5) references_okD(2) [OF ok(2), of d] unfolding ids by metis
    qed
  qed (rule refs)
  moreover have "length (decisions_of (j_id r') db') = (if j_status r' = Succeeded then 1 else 0)"
    if "r' \<in> set (jobs db')" for r'
  proof -
    from that obtain r where r: "r \<in> set (jobs db)" "j_id r = j_id r'"
      "r' = (if j_id r = j_id j then mark_succeeded now (JObj (public_decision md key did)) r else r)"
      by (auto simp: eqs(1) set_update_where)
    have one: "length (decisions_of (j_id r) db) = (if j_status r = Succeeded then 1 else 0)"
      using ok(3) r(1) by (simp add: verdicts_ok_def)
    have new: "length (decisions_of (j_id r') db') =
        length (decisions_of (j_id r) db) + (if j_id r = j_id j then 1 else 0)"
      unfolding r(2) [symmetric] by (simp add: decisions_of_def eqs(2) decision_row_def)
    show ?thesis
    proof (cases "j_id r = j_id j")
      case True
      then have "j_status r = Running" "j_status r' = Succeeded"
        using row [OF r(1)] assms(2) r(3) by (simp_all add: held_def mark_succeeded_def)
      with True one new show ?thesis by simp
    next
      case False
      with one new r(3) show ?thesis by simp
    qed
  qed
  then have "verdicts_ok db'" by (simp add: verdicts_ok_def)
  moreover have "findings_ok db'"
    using ok(4) unfolding findings_ok_def eqs(3) by (auto intro: note_finding_ok(1) dest: note_finding_ok(2))
  ultimately show ?thesis using jok by (simp add: store_ok_def)
qed

lemma purge_ok:
  assumes "store_ok db"
  shows "store_ok (fst (purge before s now db))"
proof -
  define old where "old = stale_job before (now - days (job_retention_days s))"
  define dead where "dead = j_id ` {j \<in> set (jobs db). old j}"
  define db' where "db' = fst (purge before s now db)"
  have ok: "jobs_ok db" "references_ok db" "verdicts_ok db" "findings_ok db"
    using assms by (simp_all add: store_ok_def)
  have jobs': "jobs db' = delete_where old (jobs db)" by (simp add: db'_def old_def)
  have ev': "evidences db' = delete_where (\<lambda>e. e_job_id e \<in> dead \<or> before (e_expires_at e) now) (evidences db)"
    and de': "decisions db' = delete_where (\<lambda>d. d_job_id d \<in> dead) (decisions db)"
    and fi': "findings db' =
      delete_where (\<lambda>f. f_decision_id f \<in> d_id ` {d \<in> set (decisions db). d_job_id d \<in> dead}) (findings db)"
    unfolding db'_def by (rule purge_cascade, simp add: dead_def old_def)+
  have alive: "j_id ` set (jobs db') = j_id ` set (jobs db) - dead"
    using ok(1) by (auto simp: jobs' dead_def jobs_ok_def distinct_map dest: inj_onD)
  have jok: "jobs_ok db'"
    using ok(1) by (simp add: jobs_ok_def jobs' distinct_map_delete_where)
  have refs: "f_decision_id f \<in> d_id ` set (decisions db')" if "f \<in> set (findings db')" for f
  proof -
    have "f_decision_id f \<in> d_id ` set (decisions db)"
      using that references_okD(3) [OF ok(2), of f] by (simp add: fi')
    then obtain d where "d \<in> set (decisions db)" "f_decision_id f = d_id d" by blast
    with that show ?thesis by (auto simp: fi' de')
  qed
  have "references_ok db'"
  proof (rule references_okI)
    show "e_job_id e \<in> j_id ` set (jobs db')" if "e \<in> set (evidences db')" for e
      using that references_okD(1) [OF ok(2), of e] unfolding alive by (simp add: ev')
    show "d_job_id d \<in> j_id ` set (jobs db')" if "d \<in> set (decisions db')" for d
      using that references_okD(2) [OF ok(2), of d] unfolding alive by (simp add: de')
  qed (rule refs)
  moreover have "decisions_of (j_id j) db' = decisions_of (j_id j) db" if "j \<in> set (jobs db')" for j
  proof -
    have "j_id j \<notin> dead" using that alive by blast
    then show ?thesis by (auto simp: decisions_of_def de' delete_where_def intro!: filter_cong)
  qed
  then have "verdicts_ok db'" using ok(3) by (simp add: verdicts_ok_def jobs')
  moreover have "findings_ok db'"
    using ok(4) by (auto simp: findings_ok_def fi' distinct_map_delete_where)
  ultimately show ?thesis using jok by (simp add: store_ok_def db'_def)
qed

section \<open>The steps\<close>

text \<open>
  The state: the shared database, the job the worker holds, how often a worker was killed, and
  the identifiers of the jobs that a purge has deleted (the last two are ghosts: no operation
  reads them).
\<close>

record system =
  store :: database
  holds :: "job option"
  crashes :: nat
  purged :: "string set"

definition initial_system :: system where
  "initial_system = \<lparr>store = empty_database, holds = None, crashes = 0, purged = {}\<rparr>"

text \<open>
  The tables that a job's life is about; audit events, deliveries, destinations and health are
  written by unrelated steps at any time.
\<close>

definition job_tables :: "database \<Rightarrow> job list \<times> evidence list \<times> decision list \<times> finding list" where
  "job_tables db = (jobs db, evidences db, decisions db, findings db)"

lemma job_tables_eqD:
  assumes "job_tables db' = job_tables db"
  shows "jobs db' = jobs db" "evidences db' = evidences db" "decisions db' = decisions db"
    "findings db' = findings db" "store_ok db' = store_ok db" "held j db' = held j db"
  using assms
  by (simp_all add: job_tables_def store_ok_def jobs_ok_def references_ok_def verdicts_ok_def
      decisions_of_def findings_ok_def held_def)

inductive lifecycle ::
  "settings \<Rightarrow> (instant \<Rightarrow> instant \<Rightarrow> bool) \<Rightarrow> system \<Rightarrow> system \<Rightarrow> bool" for s before
where
  submit: "create_job s now hex seen key t sel src sm n (store st) = (db', r) \<Longrightarrow>
    lifecycle s before st (st\<lparr>store := db'\<rparr>)"
| claim: "holds st = None \<Longrightarrow> claim_job now (store st) (store st) = (db', r) \<Longrightarrow>
    lifecycle s before st (st\<lparr>store := db', holds := r\<rparr>)"
| succeed: "holds st = Some j \<Longrightarrow>
    complete_job s now hx j md key ev m (store st) = (db', Inr did) \<Longrightarrow>
    lifecycle s before st (st\<lparr>store := db', holds := None\<rparr>)"
| fail: "holds st = Some j \<Longrightarrow>
    lifecycle s before st (st\<lparr>store := retry_job now j err delay (store st), holds := None\<rparr>)"
| crash: "lifecycle s before st (st\<lparr>holds := None, crashes := crashes st + 1\<rparr>)"
| recover: "holds st = None \<Longrightarrow> recover_abandoned_jobs now n (store st) = (db', k) \<Longrightarrow>
    lifecycle s before st (st\<lparr>store := db'\<rparr>)"
| retain: "purge before s now (store st) = (db', c) \<Longrightarrow>
    lifecycle s before st (st\<lparr>store := db',
      purged := purged st \<union> j_id ` (set (jobs (store st)) - set (jobs db'))\<rparr>)"
| unrelated: "job_tables db' = job_tables (store st) \<Longrightarrow> lifecycle s before st (st\<lparr>store := db'\<rparr>)"

text \<open>
  How many attempts a job may have used: never more than its maximum, but each crash of a worker
  can grant one more, since recovery does not look at the maximum.
\<close>

definition within_budget :: "nat \<Rightarrow> job option \<Rightarrow> job \<Rightarrow> bool" where
  "within_budget c h j = (case j_status j of
     Pending \<Rightarrow> 0 < j_max_attempts j
   | Retry \<Rightarrow> j_attempts j < j_max_attempts j + c
   | Running \<Rightarrow> (if h = Some j then j_attempts j \<le> j_max_attempts j + c else j_attempts j < j_max_attempts j + c)
   | _ \<Rightarrow> j_attempts j \<le> j_max_attempts j + c)"

definition system_ok :: "system \<Rightarrow> bool" where
  "system_ok st =
     (store_ok (store st) \<and> (\<forall>j. holds st = Some j \<longrightarrow> held j (store st)) \<and>
      (\<forall>j \<in> set (jobs (store st)). within_budget (crashes st) (holds st) j))"

lemma system_okD:
  assumes "system_ok st"
  shows "store_ok (store st)" and "holds st = Some j \<Longrightarrow> held j (store st)"
    and "j \<in> set (jobs (store st)) \<Longrightarrow> within_budget (crashes st) (holds st) j"
    and "jobs_ok (store st)"
  using assms by (simp_all add: system_ok_def store_ok_def)

lemma within_budget_unheld: "j_status j \<noteq> Running \<Longrightarrow> within_budget c h j = within_budget c h' j"
  by (auto simp: within_budget_def split: job_status.splits)

lemma within_budget_drop: "within_budget c None j \<Longrightarrow> within_budget c h j"
  by (auto simp: within_budget_def split: job_status.splits)

lemma rowcount_key:
  assumes "distinct (map k rows)" and "r \<in> set rows" and "p r" and "\<And>x. p x \<Longrightarrow> k x = k r"
  shows "rowcount p rows = 1"
  using assms
proof (induction rows)
  case (Cons x rows)
  show ?case
  proof (cases "p x")
    case True
    have "\<not> p y" if "y \<in> set rows" for y
    proof
      assume "p y"
      then have "k y = k x" using Cons.prems(4) [of y] Cons.prems(4) [OF True] by simp
      then have "k x \<in> k ` set rows" using imageI [OF that, of k] by simp
      then show False using Cons.prems(1) by simp
    qed
    then have "filter p rows = []" by (simp add: filter_empty_conv)
    with True show ?thesis by (simp add: rowcount_def)
  next
    case False
    then have "r \<in> set rows" using Cons.prems(2,3) by auto
    then have "rowcount p rows = 1"
      by (intro Cons.IH) (use Cons.prems(1) in simp, assumption, rule Cons.prems(3), rule Cons.prems(4))
    with False show ?thesis by (simp add: rowcount_def)
  qed
qed simp

text \<open>
  What a claim takes, from however old a read: one claimable row is marked as claimed, no other row
  changes, and the job returned is the candidate of the read with the same marks.
\<close>

lemma claim_takes:
  assumes "claim_job now seen db = (db', Some j)" and ok: "jobs_ok db"
  obtains c r where "c \<in> set (jobs seen)" "due now c" "j = mark_claimed now c" "r \<in> set (jobs db)" "j_id r = j_id c"
    "claimable r" "jobs db' = update_where (\<lambda>x. j_id x = j_id c) (mark_claimed now) (jobs db)" "jobs_ok db'"
  using assms(1)
proof (cases rule: claim_job_cases)
  case (update c)
  let ?p = "\<lambda>j. j_id j = j_id c \<and> claimable j"
  have n: "rowcount ?p (jobs db) = 1" and j: "j = mark_claimed now c" using update(5) by (simp_all split: if_split_asm)
  from n have "\<not> (\<forall>j \<in> set (jobs db). \<not> ?p j)" using rowcount_zero_iff [of ?p "jobs db"] by linarith
  then obtain r where r: "r \<in> set (jobs db)" "?p r" by blast
  have only: "x = r" if "x \<in> set (jobs db)" "j_id x = j_id c" for x
    using that r ok by (metis get_by_unique jobs_ok_def option.inject)
  have "jobs db' = update_where (\<lambda>x. j_id x = j_id c) (mark_claimed now) (jobs db)"
    unfolding update(4) update_where_def using only r(2) by auto
  moreover have "jobs_ok db'"
    by (rule jobs_ok_update [OF ok, of "mark_claimed now" ?p]) (auto simp: update(4) mark_claimed_def claimable_def job_ok_def)
  ultimately show thesis using that update(1,2) j r by blast
qed simp

text \<open>A claim whose read was up to date returns the row it marks.\<close>

lemma claim_row:
  assumes c: "claim_job now db db = (db', r)" and ok: "jobs_ok db" and "j' \<in> set (jobs db')"
  obtains (same) "j' \<in> set (jobs db)" "r \<noteq> Some j'"
  | (claimed) j where "j \<in> set (jobs db)" "claimable j" "j' = mark_claimed now j" "r = Some j'"
  using c
proof (cases rule: claim_job_cases)
  case none
  with assms(3) show ?thesis by (auto intro: same)
next
  case (update c0)
  let ?p = "\<lambda>j. j_id j = j_id c0 \<and> claimable j"
  have c0: "?p c0" using update(2) by (simp add: due_def)
  have only: "j = c0" if "j \<in> set (jobs db)" "j_id j = j_id c0" for j
    using that update(1) ok by (metis get_by_unique jobs_ok_def option.inject)
  have "rowcount ?p (jobs db) = 1"
    using ok update(1) c0 by (intro rowcount_key [of j_id _ c0]) (auto simp: jobs_ok_def)
  then have r: "r = Some (mark_claimed now c0)" using update(5) by simp
  from assms(3) update(4) consider (a) "j' \<in> set (jobs db)" "\<not> ?p j'"
    | (b) j where "j \<in> set (jobs db)" "?p j" "j' = mark_claimed now j"
    by (auto simp: set_update_where)
  then show ?thesis
  proof cases
    case a
    have "r \<noteq> Some j'"
    proof
      assume "r = Some j'"
      then have "j_id j' = j_id c0" using r by auto
      with only [OF a(1)] c0 a(2) show False by simp
    qed
    with a show ?thesis by (auto intro: same)
  next
    case b
    with only [OF b(1)] r show ?thesis by (auto intro: claimed)
  qed
qed

lemma claim_result:
  assumes "claim_job now db db = (db', Some j)" and "jobs_ok db"
  shows "j \<in> set (jobs db')"
proof -
  from assms obtain c r where c: "c \<in> set (jobs db)" "j = mark_claimed now c"
    "jobs db' = update_where (\<lambda>x. j_id x = j_id c) (mark_claimed now) (jobs db)" by (rule claim_takes)
  then show ?thesis by (auto simp: set_update_where)
qed

lemma claim_held:
  assumes "claim_job now db db = (db', Some j)" and "jobs_ok db"
  shows "held j db'"
  using assms claim_result [OF assms]
proof (cases rule: claim_row)
  case (claimed k)
  with claim_result [OF assms] show ?thesis by (simp add: held_def mark_claimed_def)
qed simp

lemma claim_budget:
  assumes "claim_job now db db = (db', r)" and "jobs_ok db"
    and "\<forall>j \<in> set (jobs db). within_budget c None j" and "j' \<in> set (jobs db')"
  shows "within_budget c r j'"
  using assms(1,2,4)
proof (cases rule: claim_row)
  case same
  with assms(3) show ?thesis by (auto intro: within_budget_drop)
next
  case (claimed j)
  then have "within_budget c None j" "job_ok j" using assms(2,3) by (auto simp: jobs_ok_def)
  with claimed show ?thesis
    by (auto simp: within_budget_def mark_claimed_def claimable_def job_ok_def)
qed

lemma recover_budget:
  "within_budget c None j \<Longrightarrow> abandoned t j \<Longrightarrow> within_budget c None (mark_recovered now j)"
  by (auto simp: within_budget_def abandoned_def mark_recovered_def)

lemma release_budget:
  assumes "within_budget c (Some j) r" and "r \<noteq> j"
  shows "within_budget c None r"
  using assms by (auto simp: within_budget_def split: job_status.splits)

text \<open>Finishing the job that the worker holds, with either outcome.\<close>

lemma finish_budget:
  assumes ok: "system_ok st" and h: "holds st = Some j"
    and rows: "jobs db' = update_where (\<lambda>r. j_id r = j_id j) f (jobs (store st))"
    and fin: "within_budget (crashes st) (Some j) j \<Longrightarrow> j_status j = Running \<Longrightarrow> within_budget (crashes st) None (f j)"
    and "r' \<in> set (jobs db')"
  shows "within_budget (crashes st) None r'"
proof -
  have held: "held j (store st)" using ok h by (simp add: system_okD)
  from assms(5) obtain r where r: "r \<in> set (jobs (store st))" "r' = (if j_id r = j_id j then f r else r)"
    unfolding rows by (auto simp: set_update_where)
  have b: "within_budget (crashes st) (Some j) r" using system_okD(3) [OF ok r(1)] h by simp
  show ?thesis
  proof (cases "j_id r = j_id j")
    case True
    then have "r = j" by (rule held_row [OF held system_okD(4) [OF ok] r(1)])
    with True r b fin held show ?thesis by (simp add: held_def)
  next
    case False
    with r b release_budget [of "crashes st" j r] show ?thesis by auto
  qed
qed

lemma crash_budget:
  "within_budget c h j \<Longrightarrow> within_budget (c + 1) None j"
  by (auto simp: within_budget_def split: job_status.splits if_splits)

text \<open>Steps of other processes leave the held row alone.\<close>

lemma create_job_held: "create_job s now hex seen key t sel src sm n db = (db', r) \<Longrightarrow> held j db \<Longrightarrow> held j db'"
  by (erule create_job_cases) (auto simp: held_def)

lemma purge_held: "held j db \<Longrightarrow> held j (fst (purge before s now db))"
  by (auto simp: held_def stale_job_def terminal_def)

lemma create_job_budget:
  assumes "create_job s now hex seen key t sel src sm n db = (db', r)" and "1 \<le> job_max_attempts s"
    and "\<forall>j \<in> set (jobs db). within_budget c h j"
  shows "\<forall>j \<in> set (jobs db'). within_budget c h j"
  using assms(1)
proof (cases rule: create_job_cases)
  case (added job)
  with assms(2,3) show ?thesis by (auto simp: within_budget_def)
qed (use assms in simp)

lemma lifecycle_step_ok:
  assumes "1 \<le> job_max_attempts s" and "lifecycle s before st st'" and ok: "system_ok st"
  shows "system_ok st'"
  using assms(2,1)
proof (cases rule: lifecycle.cases)
  case (submit now hex seen key t sel src sm n db' r)
  have "\<forall>j \<in> set (jobs db'). within_budget (crashes st) (holds st) j"
    using create_job_budget [OF submit(2) assms(1)] system_okD(3) [OF ok] by blast
  moreover have "store_ok db'" by (rule create_job_ok [OF submit(2) system_okD(1) [OF ok]])
  moreover have "held j db'" if "holds st = Some j" for j
    by (rule create_job_held [OF submit(2) system_okD(2) [OF ok that]])
  ultimately show ?thesis using submit(1) by (simp add: system_ok_def)
next
  case (claim now db' r)
  have "\<forall>j \<in> set (jobs (store st)). within_budget (crashes st) None j"
    using system_okD(3) [OF ok] claim by simp
  then have "within_budget (crashes st) r j" if "j \<in> set (jobs db')" for j
    using claim_budget [OF claim(3) system_okD(4) [OF ok] _ that] by blast
  moreover have "held j db'" if "r = Some j" for j
    using claim(3) that system_okD(4) [OF ok] by (auto intro: claim_held)
  ultimately show ?thesis
    using claim(1) claim_job_ok [OF claim(3) system_okD(1) [OF ok]] by (simp add: system_ok_def)
next
  case (succeed j now hx md key ev m db' did)
  have "store_ok db'"
    using complete_job_ok [OF succeed(3)] system_okD(1,2) [OF ok] succeed(2) by blast
  moreover have "within_budget (crashes st) None r" if "r \<in> set (jobs db')" for r
    by (rule finish_budget [OF ok succeed(2) complete_job_Inr(1) [OF succeed(3)] _ that])
       (auto simp: within_budget_def mark_succeeded_def)
  ultimately show ?thesis using succeed(1) by (simp add: system_ok_def)
next
  case (fail j now err delay)
  have "store_ok (retry_job now j err delay (store st))"
    using system_okD(1,2) [OF ok] fail(2) by (intro retry_job_ok)
  moreover have "within_budget (crashes st) None r"
    if "r \<in> set (jobs (retry_job now j err delay (store st)))" for r
    by (rule finish_budget [OF ok fail(2) _ _ that, of "mark_failed now (j_max_attempts j \<le> j_attempts j) err delay"])
       (auto simp: within_budget_def mark_failed_def retry_job_def Let_def)
  ultimately show ?thesis using fail(1) by (simp add: system_ok_def)
next
  case crash
  with ok show ?thesis by (auto simp: system_ok_def intro: crash_budget [simplified])
next
  case (recover now n db' k)
  have db': "db' = fst (recover_abandoned_jobs now n (store st))" using recover(3) by simp
  have "within_budget (crashes st) None r" if "r \<in> set (jobs db')" for r
    using that system_okD(3) [OF ok] recover(2)
    by (auto simp: db' recover_abandoned_jobs_def Let_def set_update_where intro: recover_budget)
  moreover have "store_ok db'" unfolding db' by (rule recover_ok [OF system_okD(1) [OF ok]])
  ultimately show ?thesis using recover(1,2) by (simp add: system_ok_def)
next
  case (retain now db' c)
  then have "store st' = fst (purge before s now (store st))" "holds st' = holds st" "crashes st' = crashes st"
    by simp_all
  with ok show ?thesis by (auto simp: system_ok_def purge_ok purge_held)
next
  case (unrelated db')
  with ok job_tables_eqD [OF unrelated(2)] show ?thesis by (simp add: system_ok_def)
qed

lemma initial_system_ok: "system_ok initial_system"
  by (simp add: system_ok_def initial_system_def store_ok_def jobs_ok_def references_ok_def
      verdicts_ok_def findings_ok_def empty_database_def)

interpretation life: invariant_system "lifecycle s before" "\<lambda>st. 1 \<le> job_max_attempts s \<and> system_ok st"
  for s before
  by unfold_locales (auto intro: lifecycle_step_ok)

lemma reachable_ok:
  assumes "1 \<le> job_max_attempts s" and "steps_star (lifecycle s before) initial_system st"
  shows "system_ok st"
  using life.inv_steps [OF assms(2)] assms(1) initial_system_ok by simp

section \<open>What a run does to one job\<close>

text \<open>
  A later row of the same submission: same identity and request, no fewer attempts, and the
  very same row if it was already terminal.
\<close>

definition continues :: "job \<Rightarrow> job \<Rightarrow> bool" where
  "continues j j' =
     (j_id j' = j_id j \<and> j_idempotency_key j' = j_idempotency_key j \<and>
      request_tuple j' = request_tuple j \<and> j_attempts j \<le> j_attempts j' \<and>
      (terminal j \<longrightarrow> j' = j))"

lemma continues_refl [simp]: "continues j j"
  by (simp add: continues_def)

lemma continues_trans: "continues j k \<Longrightarrow> continues k l \<Longrightarrow> continues j l"
  by (auto simp: continues_def)

definition preserved :: "system \<Rightarrow> system \<Rightarrow> bool" where
  "preserved st st' =
     (purged st \<subseteq> purged st' \<and>
      (\<forall>j \<in> set (jobs (store st)). j_id j \<in> purged st' \<or> (\<exists>j' \<in> set (jobs (store st')). continues j j')))"

lemma preserved_subset:
  "purged st \<subseteq> purged st' \<Longrightarrow> set (jobs (store st)) \<subseteq> set (jobs (store st')) \<Longrightarrow> preserved st st'"
  unfolding preserved_def using continues_refl by blast

lemma preserved_refl: "preserved st st"
  by (rule preserved_subset) simp_all

lemma preserved_trans:
  assumes "preserved st su" and "preserved su sv"
  shows "preserved st sv"
  unfolding preserved_def
proof (intro conjI ballI)
  show "purged st \<subseteq> purged sv" using assms by (auto simp: preserved_def)
  fix j assume "j \<in> set (jobs (store st))"
  then consider "j_id j \<in> purged su" | k where "k \<in> set (jobs (store su))" "continues j k"
    using assms(1) by (auto simp: preserved_def)
  then show "j_id j \<in> purged sv \<or> (\<exists>j' \<in> set (jobs (store sv)). continues j j')"
  proof cases
    case 1
    then show ?thesis using assms(2) by (auto simp: preserved_def)
  next
    case (2 k)
    then consider "j_id k \<in> purged sv" | l where "l \<in> set (jobs (store sv))" "continues k l"
      using assms(2) by (auto simp: preserved_def)
    then show ?thesis
      using 2(2) by cases (auto simp: continues_def intro: continues_trans)
  qed
qed

lemma preserved_update:
  assumes "purged st \<subseteq> purged st'" and "jobs (store st') = update_where p f (jobs (store st))"
    and "\<And>j. j \<in> set (jobs (store st)) \<Longrightarrow> p j \<Longrightarrow> continues j (f j)"
  shows "preserved st st'"
  unfolding preserved_def
proof (intro conjI ballI disjI2)
  fix j assume j: "j \<in> set (jobs (store st))"
  then show "\<exists>j' \<in> set (jobs (store st')). continues j j'"
    using assms(2,3) continues_refl [of j] unfolding assms(2) set_update_where by (cases "p j") blast+
qed (rule assms(1))

lemma lifecycle_preserved:
  assumes "lifecycle s before st st'" and ok: "system_ok st"
  shows "preserved st st'"
  using assms(1)
proof (cases rule: lifecycle.cases)
  case (submit now hex seen key t sel src sm n db' r)
  from submit(2) show ?thesis
    by (rule create_job_cases) (use submit(1) in \<open>auto intro: preserved_subset\<close>)
next
  case (claim now db' r)
  from claim(3) show ?thesis
  proof (cases rule: claim_job_cases)
    case none
    with claim(1) show ?thesis by (intro preserved_subset) simp_all
  next
    case (update c)
    show ?thesis
      by (rule preserved_update [where f = "mark_claimed now" and p = "\<lambda>j. j_id j = j_id c \<and> claimable j"])
         (auto simp: claim(1) update(4) continues_def claimable_def terminal_def mark_claimed_def request_tuple_def)
  qed
next
  case (succeed j now hx md key ev m db' did)
  have "continues r (mark_succeeded now v r)" if "r \<in> set (jobs (store st))" "j_id r = j_id j" for r v
    using held_row [OF system_okD(2) [OF ok succeed(2)] system_okD(4) [OF ok] that]
      system_okD(2) [OF ok succeed(2)]
    by (auto simp: held_def continues_def terminal_def mark_succeeded_def request_tuple_def)
  then show ?thesis
    by (intro preserved_update [OF _ _, where p = "\<lambda>r. j_id r = j_id j"
          and f = "mark_succeeded now (JObj (public_decision md key did))"])
       (simp_all add: succeed(1) complete_job_Inr(1) [OF succeed(3)])
next
  case (fail j now err delay)
  have "continues r (mark_failed now b e d r)" if "r \<in> set (jobs (store st))" "j_id r = j_id j" for r b e d
    using held_row [OF system_okD(2) [OF ok fail(2)] system_okD(4) [OF ok] that]
      system_okD(2) [OF ok fail(2)]
    by (auto simp: held_def continues_def terminal_def mark_failed_def request_tuple_def)
  then show ?thesis
    by (intro preserved_update [OF _ _, where p = "\<lambda>r. j_id r = j_id j"
          and f = "mark_failed now (j_max_attempts j \<le> j_attempts j) err delay"])
       (simp_all add: fail(1) retry_job_def)
next
  case crash
  then show ?thesis by (intro preserved_subset) simp_all
next
  case (recover now n db' k)
  show ?thesis
    by (rule preserved_update [where f = "mark_recovered now" and p = "abandoned (now - seconds n)"])
       (use recover in \<open>auto simp: recover_abandoned_jobs_def Let_def continues_def terminal_def abandoned_def
          mark_recovered_def request_tuple_def\<close>)
next
  case (retain now db' c)
  then show ?thesis unfolding preserved_def using continues_refl by fastforce
next
  case (unrelated db')
  then show ?thesis by (intro preserved_subset) (simp_all add: job_tables_eqD(1) [OF unrelated(2)])
qed

lemma run_preserved:
  assumes "steps_star (lifecycle s before) st st'" and "1 \<le> job_max_attempts s" and "system_ok st"
  shows "preserved st st'"
  using assms(2,3)
  by (intro life.rel_steps [OF assms(1), where R = preserved])
     (auto simp: preserved_refl intro: preserved_trans lifecycle_preserved)

end
