(* ===== verification/RetryPolicy.thy ===== *)
theory RetryPolicy
  imports OutboxStore JobStore
begin

text \<open>
  The retry contract shared by review jobs and outbox deliveries: each failed round uses one
  attempt, and the round that uses the last attempt is final. The interface states the contract
  for any row type; it is interpreted on the job rows of \<^verbatim>\<open>claim_job\<close> and
  \<^verbatim>\<open>retry_job\<close> and on the outbox rows of \<^verbatim>\<open>delivery_failed\<close>
  (\<^verbatim>\<open>src/sprinter/db.py\<close>).
\<close>

locale bounded_retry =
  fixes failed_round :: "'a \<Rightarrow> 'r \<Rightarrow> 'r"
    and used :: "'r \<Rightarrow> nat"
    and limit :: "'r \<Rightarrow> nat"
    and final :: "'r \<Rightarrow> bool"
  assumes used_round: "used (failed_round x r) = used r + 1"
    and limit_round: "limit (failed_round x r) = limit r"
    and final_round: "final (failed_round x r) \<longleftrightarrow> limit r \<le> used r + 1"
begin

lemma used_rounds: "used (fold failed_round xs r) = used r + length xs"
  by (induction xs arbitrary: r) (simp_all add: used_round)

lemma limit_rounds: "limit (fold failed_round xs r) = limit r"
  by (induction xs arbitrary: r) (simp_all add: limit_round)

lemma final_rounds:
  assumes "xs \<noteq> []"
  shows "final (fold failed_round xs r) \<longleftrightarrow> limit r \<le> used r + length xs"
proof -
  obtain ys y where "xs = ys @ [y]" using assms by (metis rev_exhaust)
  then show ?thesis by (simp add: final_round used_rounds limit_rounds)
qed

text \<open>The number of rounds before giving up is exactly what the limit leaves.\<close>

lemma gives_up_exactly:
  assumes "used r < limit r"
  shows "final (fold failed_round xs r) \<and> xs \<noteq> [] \<longleftrightarrow> xs \<noteq> [] \<and> limit r - used r \<le> length xs"
  using final_rounds [of xs r] assms by auto

end

section \<open>Review jobs\<close>

text \<open>A failed round of a job: the claim, then the failure, which reads the attempts of the claim.\<close>

definition failed_job_round :: "instant \<times> instant \<times> json \<times> int \<Rightarrow> job \<Rightarrow> job" where
  "failed_job_round x j =
     (case x of (claimed_at, failed_at, err, delay) \<Rightarrow>
        let c = mark_claimed claimed_at j in
        mark_failed failed_at (j_attempts c \<ge> j_max_attempts c) err delay c)"

lemma failed_job_round_fields:
  "j_attempts (failed_job_round x j) = j_attempts j + 1"
  "j_max_attempts (failed_job_round x j) = j_max_attempts j"
  "j_status (failed_job_round x j) = (if j_max_attempts j \<le> j_attempts j + 1 then Failed else Retry)"
  "j_id (failed_job_round x j) = j_id j"
  by (simp_all add: failed_job_round_def mark_failed_def mark_claimed_def Let_def split: prod.split)

interpretation job_retry: bounded_retry failed_job_round j_attempts j_max_attempts "\<lambda>j. j_status j = Failed"
  by unfold_locales (simp_all add: failed_job_round_fields)

section \<open>Deliveries\<close>

text \<open>A failed round of a delivery: the row is read, sending fails, the failure is recorded.\<close>

definition failed_delivery_round :: "instant \<times> string \<Rightarrow> outbox \<Rightarrow> outbox" where
  "failed_delivery_round x r = mark_undelivered (fst x) r (snd x) r"

lemma failed_delivery_round_fields:
  "o_attempts (failed_delivery_round x r) = o_attempts r + 1"
  "o_max_attempts (failed_delivery_round x r) = o_max_attempts r"
  "o_status (failed_delivery_round x r) =
     (if o_max_attempts r \<le> o_attempts r + 1 then Delivery_failed else Delivery_retry)"
  "o_id (failed_delivery_round x r) = o_id r"
  by (simp_all add: failed_delivery_round_def mark_undelivered_def Let_def)

interpretation delivery_retry:
  bounded_retry failed_delivery_round o_attempts o_max_attempts "\<lambda>r. o_status r = Delivery_failed"
  by unfold_locales (simp_all add: failed_delivery_round_fields)

section \<open>The rounds on the database\<close>

text \<open>One failed round on the tables is the row's round on the row it concerns.\<close>

lemma delivery_round_store:
  assumes "get_by o_id i (deliveries db) = Some r"
  shows "get_by o_id i (deliveries (delivery_failed now r e db)) = Some (failed_delivery_round (now, e) r)"
  using assms undelivered_upd.lookup_at [of i now r e "deliveries db"] get_by_SomeD [OF assms]
  by (simp add: delivery_failed_def failed_delivery_round_def)

text \<open>Repeated failures of one delivery: each round reads the row it updates.\<close>

fun fail_delivery :: "string \<Rightarrow> (instant \<times> string) list \<Rightarrow> database \<Rightarrow> database" where
  "fail_delivery i [] db = db"
| "fail_delivery i ((now, e) # xs) db =
     (case get_by o_id i (deliveries db) of
        None \<Rightarrow> db
      | Some r \<Rightarrow> fail_delivery i xs (delivery_failed now r e db))"

lemma fail_delivery_row:
  assumes "get_by o_id i (deliveries db) = Some r"
  shows "get_by o_id i (deliveries (fail_delivery i xs db)) = Some (fold failed_delivery_round xs r)"
  using assms
proof (induction xs arbitrary: db r)
  case (Cons x xs)
  obtain now e where x: "x = (now, e)" by (cases x)
  have "get_by o_id i (deliveries (delivery_failed now r e db)) = Some (failed_delivery_round x r)"
    unfolding x by (rule delivery_round_store [OF Cons.prems])
  from Cons.IH [OF this] show ?case by (simp add: x Cons.prems)
qed simp

text \<open>The wait that follows a failed round.\<close>

lemma failed_delivery_available:
  "o_available_at (failed_delivery_round (now, e) r) = now + seconds (delivery_delay (o_attempts r + 1))"
  by (simp add: failed_delivery_round_def mark_undelivered_def Let_def)

end
