(* ===== verification/JobProperties.thy ===== *)
theory JobProperties
  imports JobLifecycle RetryPolicy
begin

text \<open>
  The properties of the job queue, over every order of the steps of \<open>JobLifecycle\<close>, and of the
  operations on their own; with the sample runs their witnesses use.
\<close>

section \<open>A sample run\<close>

definition sample_job :: job where
  "sample_job = new_job default_settings 0 ''a'' ''key-1'' ''run'' (JObj []) ''api'' (JObj []) 20"

definition sample_claimed :: job where
  "sample_claimed = mark_claimed 1 sample_job"

definition sample_decision :: model_decision where
  "sample_decision = \<lparr>md_verdict = ''no_finding'', md_severity = ''low'', md_summary = ''clean'',
     md_rationale = [''nothing''], md_recommended_actions = [], md_evidence_ids = []\<rparr>"

definition sample_model :: model_info where
  "sample_model = \<lparr>mi_provider = ''p'', mi_model = ''m'', mi_pi_version = ''0.83.0''\<rparr>"

definition sample_hexes :: complete_hexes where
  "sample_hexes = \<lparr>hx_decision = ''d'', hx_finding = ''f'', hx_evidence = (\<lambda>_. ''e'')\<rparr>"

definition submitted_db :: database where
  "submitted_db = empty_database\<lparr>jobs := [sample_job]\<rparr>"

definition claimed_db :: database where
  "claimed_db = empty_database\<lparr>jobs := [sample_claimed]\<rparr>"

definition succeeded_db :: database where
  "succeeded_db =
     fst (complete_job default_settings 2 sample_hexes sample_claimed sample_decision ''k'' [] sample_model claimed_db)"

lemma default_attempts [simp]: "job_max_attempts default_settings = 5"
  by (simp add: default_settings_def)

lemma sample_job_fields [simp]:
  "j_id sample_job = new_id ''job'' ''a''" "j_idempotency_key sample_job = ''key-1''"
  "j_status sample_job = Pending" "j_available_at sample_job = 0" "j_attempts sample_job = 0"
  "j_max_attempts sample_job = 5"
  by (simp_all add: sample_job_def) (simp add: new_job_def)

lemma sample_create:
  "create_job default_settings 0 ''a'' empty_database ''key-1'' ''run'' (JObj []) ''api'' (JObj []) 20 empty_database
    = (submitted_db, Inr (sample_job, True))"
  by (simp add: create_job_def empty_database_def submitted_db_def sample_job_def Let_def)

lemma sample_claim: "claim_job 1 submitted_db submitted_db = (claimed_db, Some sample_claimed)"
  by (simp add: claim_job_def submitted_db_def claimed_db_def empty_database_def due_def claimable_def
      order_by_def rowcount_def update_where_def sample_claimed_def)

lemma sample_complete:
  "complete_job default_settings 2 sample_hexes sample_claimed sample_decision ''k'' [] sample_model claimed_db
    = (succeeded_db, Inr (new_id ''decision'' ''d''))"
  by (simp add: complete_job_def succeeded_db_def claimed_db_def sample_hexes_def sample_claimed_def Let_def)

definition sample_end :: system where
  "sample_end = \<lparr>store = succeeded_db, holds = None, crashes = 0, purged = {}\<rparr>"

lemma sample_steps:
  "lifecycle default_settings before initial_system \<lparr>store = submitted_db, holds = None, crashes = 0, purged = {}\<rparr>"
  "lifecycle default_settings before \<lparr>store = submitted_db, holds = None, crashes = 0, purged = {}\<rparr>
     \<lparr>store = claimed_db, holds = Some sample_claimed, crashes = 0, purged = {}\<rparr>"
  "lifecycle default_settings before \<lparr>store = claimed_db, holds = Some sample_claimed, crashes = 0, purged = {}\<rparr>
     sample_end"
  using lifecycle.submit [where st = initial_system and before = before and s = default_settings
      and now = 0 and hex = "''a''" and seen = empty_database and key = "''key-1''" and t = "''run''"
      and sel = "JObj []" and src = "''api''" and sm = "JObj []" and n = 20]
    lifecycle.claim [where st = "\<lparr>store = submitted_db, holds = None, crashes = 0, purged = {}\<rparr>" and now = 1
      and before = before and s = default_settings]
    lifecycle.succeed [where st = "\<lparr>store = claimed_db, holds = Some sample_claimed, crashes = 0, purged = {}\<rparr>"
      and before = before and s = default_settings and j = sample_claimed and now = 2 and hx = sample_hexes
      and md = sample_decision and key = "''k''" and ev = "[]" and m = sample_model]
  by (simp_all add: initial_system_def sample_create sample_claim sample_complete sample_end_def)

lemma sample_reachable:
  "steps_star (lifecycle default_settings before) initial_system sample_end"
  "steps_star (lifecycle default_settings before) initial_system
     \<lparr>store = submitted_db, holds = None, crashes = 0, purged = {}\<rparr>"
  "steps_star (lifecycle default_settings before) \<lparr>store = submitted_db, holds = None, crashes = 0, purged = {}\<rparr> sample_end"
  using sample_steps [of before] by (blast intro: steps_star.intros)+

lemma sample_final_job:
  "jobs succeeded_db =
    [mark_succeeded 2 (JObj (public_decision sample_decision ''k'' (new_id ''decision'' ''d''))) sample_claimed]"
  by (simp add: complete_job_Inr(1) [OF sample_complete] claimed_db_def update_where_def)

section \<open>Properties of every run\<close>

text \<open>
  C12: In every state that the processes can reach, job identifiers and idempotency keys are
  unique, every row has the fields its status calls for, evidence and decisions belong to
  existing jobs and findings to existing decisions, and a job has exactly one decision if it
  succeeded and none otherwise.
\<close>

theorem lifecycle_integrity:
  assumes "1 \<le> job_max_attempts s" and "steps_star (lifecycle s before) initial_system st"
  shows "distinct (map j_id (jobs (store st))) \<and>
    distinct (map j_idempotency_key (jobs (store st))) \<and>
    (\<forall>j \<in> set (jobs (store st)). job_ok j \<and>
      length (decisions_of (j_id j) (store st)) = (if j_status j = Succeeded then 1 else 0)) \<and>
    references_ok (store st)"
  using system_okD(1) [OF reachable_ok [OF assms]]
  by (simp add: store_ok_def jobs_ok_def verdicts_ok_def)

lemma lifecycle_integrity_witness:
  "\<exists>j. jobs succeeded_db = [j] \<and> j_status j = Succeeded \<and> length (decisions_of (j_id j) succeeded_db) = 1"
proof (intro exI conjI)
  let ?j = "mark_succeeded 2 (JObj (public_decision sample_decision ''k'' (new_id ''decision'' ''d''))) sample_claimed"
  show "jobs succeeded_db = [?j]" by (rule sample_final_job)
  show st: "j_status ?j = Succeeded" by (simp add: mark_succeeded_def)
  show "length (decisions_of (j_id ?j) succeeded_db) = 1"
    using lifecycle_integrity [of default_settings "(<)" sample_end] sample_reachable(1) st
    by (simp add: sample_end_def sample_final_job)
qed

lemma attempts_within:
  assumes "system_ok st" and "j \<in> set (jobs (store st))"
  shows "j_attempts j \<le> j_max_attempts j + crashes st"
  using system_okD(3) [OF assms] system_okD(4) [OF assms(1)] assms(2)
  by (auto simp: within_budget_def jobs_ok_def job_ok_def split: job_status.splits if_splits)

text \<open>
  The attempts a job uses stay within its maximum: they exceed it by at most the number of
  times a worker was killed, because \<^verbatim>\<open>recover_abandoned_jobs\<close> makes a job claimable
  again without looking at its maximum.
\<close>

theorem attempts_bounded:
  assumes "1 \<le> job_max_attempts s" and "steps_star (lifecycle s before) initial_system st"
    and "j \<in> set (jobs (store st))"
  shows "j_attempts j \<le> j_max_attempts j + crashes st"
  using reachable_ok [OF assms(1,2)] assms(3) by (rule attempts_within)

lemma attempts_bounded_witness: "\<exists>j. jobs (store sample_end) = [j] \<and> j_attempts j \<le> 5"
proof (intro exI conjI)
  let ?j = "mark_succeeded 2 (JObj (public_decision sample_decision ''k'' (new_id ''decision'' ''d''))) sample_claimed"
  show "jobs (store sample_end) = [?j]" by (simp add: sample_end_def sample_final_job)
  then have "j_attempts ?j \<le> j_max_attempts ?j + crashes sample_end"
    by (intro attempts_bounded [of default_settings "(<)", OF _ sample_reachable(1)]) simp_all
  then show "j_attempts ?j \<le> 5"
    by (simp add: sample_end_def mark_succeeded_def sample_claimed_def mark_claimed_def)
qed

text \<open>
  C13: No step loses a job or rewrites its outcome: after any run, a job that was not purged is
  still there with the same key and request and no fewer attempts, and if it had succeeded or
  failed its row is unchanged.
\<close>

theorem job_persists:
  assumes "1 \<le> job_max_attempts s" and "steps_star (lifecycle s before) initial_system st"
    and "steps_star (lifecycle s before) st st'"
    and "j \<in> set (jobs (store st))" and "j_id j \<notin> purged st'"
  shows "\<exists>j' \<in> set (jobs (store st')). j_id j' = j_id j \<and> j_idempotency_key j' = j_idempotency_key j \<and>
    request_tuple j' = request_tuple j \<and> j_attempts j \<le> j_attempts j' \<and> (terminal j \<longrightarrow> j' = j)"
  using run_preserved [OF assms(3,1) reachable_ok [OF assms(1,2)]] assms(4,5)
  by (auto simp: preserved_def continues_def)

lemma job_persists_witness:
  "\<exists>j' \<in> set (jobs succeeded_db). j_idempotency_key j' = ''key-1''"
  using job_persists [of default_settings "(<)" "\<lparr>store = submitted_db, holds = None, crashes = 0, purged = {}\<rparr>"
      sample_end sample_job]
    sample_reachable(2,3)
  by (auto simp: sample_end_def submitted_db_def)

section \<open>Submission\<close>

lemma create_job_tuple:
  assumes "create_job s now hex seen key t sel src sm n db = (db', Inr (job, b))"
    and "b \<or> get_by j_idempotency_key key (jobs seen) \<noteq> None"
  shows "j_idempotency_key job = key \<and> request_tuple job = (t, dumps sel, take 128 src, dumps sm, n) \<and>
    job \<in> set (jobs (if b then db' else seen))"
  using assms by (auto simp: create_job_def Let_def split: option.splits if_splits dest: get_by_SomeD)

text \<open>
  C14: Submissions are idempotent. Let a submission be accepted, as a new job or as the one that its
  select found under the key, however old that select's view was. Then every later submission of
  that key whose select runs after it, while no purge has removed the job, changes nothing: with the
  same request it returns that job, and with another one it is rejected. (A submission that finds
  the key taken only when it inserts is answered with the stored job without a comparison; what is
  said here does not hold of such an answer.)
\<close>

theorem submission_idempotent:
  assumes "1 \<le> job_max_attempts s" and "steps_star (lifecycle s before) initial_system sys0"
    and "steps_star (lifecycle s before) sys0 st"
    and "create_job s now hex (store sys0) key t sel src sm n (store st) = (db', Inr (job, b))"
    and "b \<or> get_by j_idempotency_key key (jobs (store sys0)) \<noteq> None"
    and "steps_star (lifecycle s before) (st\<lparr>store := db'\<rparr>) sys1" and "j_id job \<notin> purged sys1"
  shows "\<exists>job'. j_id job' = j_id job \<and>
    create_job s now2 hex2 (store sys1) key t2 sel2 src2 sm2 n2 db2 =
      (db2,
       if (t2, dumps sel2, take 128 src2, dumps sm2, n2) = (t, dumps sel, take 128 src, dumps sm, n)
       then Inr (job', False)
       else Inl (IdempotencyConflict, ''idempotency key was already used for a different request''))"
proof -
  let ?st1 = "st\<lparr>store := db'\<rparr>"
  have later: "steps_star (lifecycle s before) sys0 ?st1"
    using assms(3) lifecycle.submit [OF assms(4)] by (rule steps_star.steps_step)
  then have reach: "steps_star (lifecycle s before) initial_system ?st1" using assms(2) by (rule steps_star_trans)
  note job = create_job_tuple [OF assms(4,5)]
  have "preserved ?st1 sys1" by (rule run_preserved [OF assms(6,1) reachable_ok [OF assms(1) reach]])
  moreover have "preserved sys0 sys1"
    by (rule run_preserved [OF steps_star_trans [OF assms(6) later] assms(1) reachable_ok [OF assms(1,2)]])
  ultimately obtain j' where j': "j' \<in> set (jobs (store sys1))" "j_id j' = j_id job"
      "j_idempotency_key j' = key" "request_tuple j' = (t, dumps sel, take 128 src, dumps sm, n)"
    using job assms(7) by (cases b) (auto simp: preserved_def continues_def)
  have "steps_star (lifecycle s before) initial_system sys1"
    using assms(6) reach by (rule steps_star_trans)
  then have "get_by j_idempotency_key key (jobs (store sys1)) = Some j'"
    using j' get_by_unique [of j_idempotency_key "jobs (store sys1)" j'] system_okD(4) [OF reachable_ok [OF assms(1)]]
    by (simp add: jobs_ok_def)
  with j' show ?thesis by (auto simp: create_job_def)
qed

lemma submission_idempotent_witness:
  "\<exists>job'. j_id job' = new_id ''job'' ''a'' \<and>
    create_job default_settings 9 ''b'' succeeded_db ''key-1'' ''run'' (JObj []) ''api'' (JObj []) 20 succeeded_db =
      (succeeded_db, Inr (job', False))"
  using submission_idempotent [of default_settings "(<)" initial_system initial_system 0 "''a''" "''key-1''" "''run''" "JObj []"
      "''api''" "JObj []" 20 submitted_db sample_job True sample_end 9 "''b''" "''run''" "JObj []" "''api''" "JObj []" 20 succeeded_db]
    sample_reachable(3) sample_create
    steps_star.steps_refl [of "lifecycle default_settings (<)" initial_system]
  by (simp add: sample_end_def initial_system_def)

text \<open>
  Whatever the submitting process saw before its insert, a key never gets a second row: if
  the key was taken meanwhile, the stored job is returned. On that path the stored request is
  not compared with the submitted one, so a different request is answered with the other job
  instead of a conflict.
\<close>

theorem create_job_race:
  assumes "get_by j_idempotency_key key (jobs seen) = None"
    and "get_by j_idempotency_key key (jobs db) = Some existing"
  shows "create_job s now hex seen key t sel src sm n db = (db, Inr (existing, False))"
proof -
  have "existing \<in> set (jobs db)" "j_idempotency_key existing = key"
    using get_by_SomeD [OF assms(2)] by simp_all
  then show ?thesis using assms by (auto simp: create_job_def Let_def)
qed

lemma create_job_race_witness:
  "create_job default_settings 9 ''b'' empty_database ''key-1'' ''latest'' (JObj []) ''other'' (JObj []) 1 submitted_db
     = (submitted_db, Inr (sample_job, False)) \<and>
   request_tuple sample_job \<noteq> (''latest'', dumps (JObj []), ''other'', dumps (JObj []), 1)"
proof
  show "create_job default_settings 9 ''b'' empty_database ''key-1'' ''latest'' (JObj []) ''other'' (JObj []) 1 submitted_db
     = (submitted_db, Inr (sample_job, False))"
    by (rule create_job_race) (simp_all add: empty_database_def submitted_db_def)
  show "request_tuple sample_job \<noteq> (''latest'', dumps (JObj []), ''other'', dumps (JObj []), 1)"
    by (simp add: sample_job_def)
qed

section \<open>Claiming\<close>

text \<open>
  A claim that nobody interferes with takes a due job whenever there is one, and takes the
  oldest: it returns nothing and changes nothing exactly if no pending or retrying job is due,
  and otherwise marks a due job with the least creation time as running, and no other row.
\<close>

theorem claim_oldest_due:
  assumes "jobs_ok db"
  shows "case claim_job now db db of
      (db', None) \<Rightarrow> db' = db \<and> (\<forall>j \<in> set (jobs db). \<not> due now j)
    | (db', Some j) \<Rightarrow> (\<exists>j0 \<in> set (jobs db). due now j0 \<and>
        (\<forall>d \<in> set (jobs db). due now d \<longrightarrow> j_created_at j0 \<le> j_created_at d) \<and>
        j = mark_claimed now j0 \<and>
        db' = db\<lparr>jobs := update_where (\<lambda>r. j_id r = j_id j0) (mark_claimed now) (jobs db)\<rparr>)"
proof -
  obtain db' r where c: "claim_job now db db = (db', r)" by fastforce
  from c show ?thesis
  proof (cases rule: claim_job_cases)
    case none
    with c show ?thesis by (simp add: filter_empty_conv)
  next
    case (update k)
    have same: "(j_id j = j_id k \<and> claimable j) = (j_id j = j_id k)" if "j \<in> set (jobs db)" for j
      using that update(1,2) assms get_by_unique [of j_id "jobs db"]
      by (metis due_def jobs_ok_def option.inject)
    then have db': "db' = db\<lparr>jobs := update_where (\<lambda>r. j_id r = j_id k) (mark_claimed now) (jobs db)\<rparr>"
      unfolding update(4) update_where_def by (auto intro!: map_cong)
    have "rowcount (\<lambda>j. j_id j = j_id k \<and> claimable j) (jobs db) = 1"
      by (rule rowcount_key [of j_id _ k]) (use assms update(1,2) in \<open>auto simp: jobs_ok_def due_def\<close>)
    then have "r = Some (mark_claimed now k)" using update(5) by simp
    then show ?thesis using c db' update(1-3) by auto
  qed
qed

lemma claim_oldest_due_witness: "jobs_ok submitted_db \<and> \<not> (\<forall>j \<in> set (jobs submitted_db). \<not> due 1 j)"
proof
  show ok: "jobs_ok submitted_db" by (simp add: jobs_ok_def submitted_db_def sample_job_def)
  show "\<not> (\<forall>j \<in> set (jobs submitted_db). \<not> due 1 j)"
    using claim_oldest_due [OF ok, of 1] sample_claim by (auto simp: sample_claimed_def)
qed

text \<open>
  C4: No two claims take the same job, even if both processes chose their candidate from
  outdated reads: after the first claim the second one gets another job or none; the first job's
  row stays running as the first claim left it, and the second's is running since the second claim.
  A claim whose read was up to date returns the very row that is stored.
\<close>

theorem claims_exclusive:
  assumes "jobs_ok db" and "claim_job now1 seen1 db = (db1, Some j1)"
    and "claim_job now2 seen2 db1 = (db2, Some j2)"
  shows "j_id j1 \<noteq> j_id j2 \<and>
    (\<exists>r1. get_job (j_id j1) db1 = Some r1 \<and> get_job (j_id j1) db2 = Some r1 \<and> j_status r1 = Running \<and>
       j_claimed_at r1 = Some now1 \<and> (jobs seen1 = jobs db \<longrightarrow> r1 = j1)) \<and>
    (\<exists>r2. get_job (j_id j2) db2 = Some r2 \<and> j_status r2 = Running \<and> j_claimed_at r2 = Some now2 \<and>
       (jobs seen2 = jobs db1 \<longrightarrow> r2 = j2))"
proof -
  from assms(2,1) obtain c1 r1 where c1: "c1 \<in> set (jobs seen1)" "j1 = mark_claimed now1 c1" "r1 \<in> set (jobs db)"
    "j_id r1 = j_id c1" "claimable r1" "jobs db1 = update_where (\<lambda>x. j_id x = j_id c1) (mark_claimed now1) (jobs db)" "jobs_ok db1"
    by (rule claim_takes)
  from assms(3) c1(7) obtain c2 r2 where c2: "c2 \<in> set (jobs seen2)" "j2 = mark_claimed now2 c2" "r2 \<in> set (jobs db1)"
    "j_id r2 = j_id c2" "claimable r2" "jobs db2 = update_where (\<lambda>x. j_id x = j_id c2) (mark_claimed now2) (jobs db1)" "jobs_ok db2"
    by (rule claim_takes)
  have unique: "r = r'" if "jobs_ok d" "r \<in> set (jobs d)" "r' \<in> set (jobs d)" "j_id r = j_id r'" for d r r'
    using that by (metis get_by_unique jobs_ok_def option.inject)
  let ?r1 = "mark_claimed now1 r1" and ?r2 = "mark_claimed now2 r2"
  have mem1: "?r1 \<in> set (jobs db1)" using c1(3,4,6) by (auto simp: set_update_where)
  have differ: "j_id c1 \<noteq> j_id c2"
  proof
    assume "j_id c1 = j_id c2"
    then have "r2 = ?r1" using unique [OF c1(7) c2(3) mem1] c1(4) c2(4) by simp
    with c2(5) show False by (simp add: claimable_def mark_claimed_def)
  qed
  have mem2: "?r1 \<in> set (jobs db2)" "?r2 \<in> set (jobs db2)"
    using mem1 c2(3,4,6) differ c1(4) by (auto simp: set_update_where)
  have at: "get_job (j_id r) d = Some r" if "jobs_ok d" "r \<in> set (jobs d)" for d r
    using that get_by_unique [of j_id "jobs d" r] by (simp add: get_job_def jobs_ok_def)
  have "r1 = c1" if "jobs seen1 = jobs db" using unique [OF assms(1) c1(3)] c1(1,4) that by simp
  moreover have "r2 = c2" if "jobs seen2 = jobs db1" using unique [OF c1(7) c2(3)] c2(1,4) that by simp
  moreover have "j_status ?r1 = Running" "j_status ?r2 = Running" "j_claimed_at ?r1 = Some now1" "j_claimed_at ?r2 = Some now2"
    by (simp_all add: mark_claimed_def)
  ultimately show ?thesis
    using at [OF c1(7) mem1] at [OF c2(7) mem2(1)] at [OF c2(7) mem2(2)] differ c1(2,4) c2(2,4) by auto
qed

definition second_job :: job where
  "second_job = new_job default_settings 0 ''b'' ''key-2'' ''run'' (JObj []) ''api'' (JObj []) 20"

lemma claims_exclusive_witness:
  "\<exists>db1 db2. claim_job 1 (empty_database\<lparr>jobs := [sample_job, second_job]\<rparr>) (empty_database\<lparr>jobs := [sample_job, second_job]\<rparr>)
       = (db1, Some sample_claimed) \<and>
     claim_job 2 (empty_database\<lparr>jobs := [second_job]\<rparr>) db1 = (db2, Some (mark_claimed 2 second_job)) \<and>
     j_id sample_claimed \<noteq> j_id (mark_claimed 2 second_job)"
proof (intro exI conjI)
  let ?db = "empty_database\<lparr>jobs := [sample_job, second_job]\<rparr>"
  let ?db1 = "empty_database\<lparr>jobs := [sample_claimed, second_job]\<rparr>"
  let ?db2 = "empty_database\<lparr>jobs := [sample_claimed, mark_claimed 2 second_job]\<rparr>"
  have f: "j_id second_job = new_id ''job'' ''b''" "j_status second_job = Pending" "j_available_at second_job = 0"
    "j_created_at second_job = 0" "j_created_at sample_job = 0" "job_ok second_job" "job_ok sample_job"
    "j_idempotency_key second_job = ''key-2''"
    by (simp_all add: second_job_def sample_job_def) (simp_all add: new_job_def)
  show c1: "claim_job 1 ?db ?db = (?db1, Some sample_claimed)"
    by (simp add: claim_job_def empty_database_def due_def claimable_def f order_by_def rowcount_def
        update_where_def sample_claimed_def)
  show c2: "claim_job 2 (empty_database\<lparr>jobs := [second_job]\<rparr>) ?db1 = (?db2, Some (mark_claimed 2 second_job))"
    by (simp add: claim_job_def empty_database_def due_def claimable_def f order_by_def rowcount_def
        update_where_def sample_claimed_def)
  show "j_id sample_claimed \<noteq> j_id (mark_claimed 2 second_job)"
    using claims_exclusive [OF _ c1 c2] by (simp add: jobs_ok_def empty_database_def f)
qed

section \<open>Failure\<close>

text \<open>A failed round on the database: the claim of a job, then the failure of that job.\<close>

lemma job_round_store:
  assumes ok: "jobs_ok db" and c: "claim_job now db db = (db1, Some j)"
  obtains j0 where "get_job (j_id j) db = Some j0" "claimable j0"
    "get_job (j_id j) (retry_job ft j err delay db1) = Some (failed_job_round (now, ft, err, delay) j0)"
  using c ok claim_result [OF c ok]
proof (cases rule: claim_row)
  case (claimed j0)
  have dist: "distinct (map j_id (jobs db1))"
    using c ok by (cases rule: claim_job_cases) (auto simp: jobs_ok_def claim_upd.keys)
  have "get_job (j_id j) db = Some j0"
    using claimed ok by (simp add: get_job_def jobs_ok_def get_by_unique)
  moreover have "get_job (j_id j) (retry_job ft j err delay db1) = Some (failed_job_round (now, ft, err, delay) j0)"
    using fail_upd.lookup_at [of "j_id j" ft "j_max_attempts j \<le> j_attempts j" err delay "jobs db1"]
      get_by_unique [OF dist claim_result [OF c ok]] claimed(3)
    by (simp add: get_job_def retry_job_def Let_def failed_job_round_def)
  ultimately show ?thesis using claimed(2) that by blast
qed simp

text \<open>
  A job whose every processing fails: each round claims it and fails it; \<open>None\<close> if a round finds
  another job, or none, to claim.
\<close>

fun fail_job :: "string \<Rightarrow> (instant \<times> instant \<times> json \<times> int) list \<Rightarrow> database \<Rightarrow> database option" where
  "fail_job i [] db = Some db"
| "fail_job i ((now, ft, err, delay) # xs) db =
     (case claim_job now db db of
        (db1, Some j) \<Rightarrow> if j_id j = i then fail_job i xs (retry_job ft j err delay db1) else None
      | (_, None) \<Rightarrow> None)"

lemma fail_job_row:
  assumes "store_ok db" and "get_job i db = Some j" and "fail_job i xs db = Some db'"
  shows "store_ok db' \<and> get_job i db' = Some (fold failed_job_round xs j)"
  using assms
proof (induction xs arbitrary: db j)
  case (Cons x xs)
  obtain now ft err delay where x: "x = (now, ft, err, delay)" by (cases x)
  obtain db1 k where c: "claim_job now db db = (db1, Some k)" and k: "j_id k = i"
    and rest: "fail_job i xs (retry_job ft k err delay db1) = Some db'"
    using Cons.prems(3) by (auto simp: x split: prod.splits option.splits if_splits)
  have ok: "jobs_ok db" using Cons.prems(1) by (simp add: store_ok_def)
  have "store_ok (retry_job ft k err delay db1)"
    by (rule retry_job_ok [OF claim_held [OF c ok] claim_job_ok [OF c Cons.prems(1)]])
  moreover have "get_job i (retry_job ft k err delay db1) = Some (failed_job_round x j)"
    by (rule job_round_store [OF ok c, of ft err delay]) (use Cons.prems(2) k x in simp)
  ultimately show ?case using Cons.IH rest by simp
qed simp

lemma fail_job_append:
  "fail_job i (xs @ ys) db = Option.bind (fail_job i xs db) (fail_job i ys)"
  by (induction i xs db rule: fail_job.induct) (auto split: prod.splits option.splits)

text \<open>
  C25: A job that keeps failing is given up after exactly its maximum of attempts: as long as
  each round claims it and fails, it is retried while attempts are left, is failed by the round
  that uses the last one, and cannot be claimed for a further round.
\<close>

theorem job_gives_up:
  assumes "store_ok db" and "get_job i db = Some j" and "j_attempts j < j_max_attempts j"
    and "xs \<noteq> []" and "fail_job i xs db = Some db'"
  shows "length xs \<le> j_max_attempts j - j_attempts j \<and>
    (\<exists>j'. get_job i db' = Some j' \<and> j_attempts j' = j_attempts j + length xs \<and>
      j_status j' = (if length xs = j_max_attempts j - j_attempts j then Failed else Retry))"
proof -
  obtain ys y where xs: "xs = ys @ [y]" using assms(4) by (metis rev_exhaust)
  then obtain db1 where ys: "fail_job i ys db = Some db1" and y: "fail_job i [y] db1 = Some db'"
    using assms(5) by (auto simp: fail_job_append bind_eq_Some_conv)
  note r1 = fail_job_row [OF assms(1,2) ys]
  obtain now ft err delay where yy: "y = (now, ft, err, delay)" by (cases y)
  obtain db2 k where c: "claim_job now db1 db1 = (db2, Some k)" "j_id k = i"
    using y by (auto simp: yy split: prod.splits option.splits if_splits)
  have "claimable (fold failed_job_round ys j)"
    by (rule job_round_store [OF _ c(1)]) (use r1 c(2) in \<open>auto simp: store_ok_def\<close>)
  then have "j_status (fold failed_job_round ys j) \<noteq> Failed" by (auto simp: claimable_def)
  then have len: "length xs \<le> j_max_attempts j - j_attempts j"
    using job_retry.final_rounds [of ys j] assms(3) by (cases "ys = []") (auto simp: xs)
  define j' where "j' = fold failed_job_round xs j"
  have "get_job i db' = Some j'" using fail_job_row [OF assms(1,2,5)] by (simp add: j'_def)
  moreover have "j_attempts j' = j_attempts j + length xs"
    by (simp add: j'_def job_retry.used_rounds)
  moreover have "j_status j' = Failed \<longleftrightarrow> length xs = j_max_attempts j - j_attempts j"
    using job_retry.final_rounds [OF assms(4), of j] len assms(3) by (auto simp: j'_def)
  moreover have "j_status j' \<in> {Failed, Retry}"
    by (simp add: j'_def xs failed_job_round_fields)
  ultimately show ?thesis using len by auto
qed

lemma sample_store_ok: "store_ok submitted_db" "store_ok claimed_db"
  using system_okD(1) [OF reachable_ok [OF _ sample_reachable(2)]]
    claim_job_ok [OF sample_claim] by simp_all

lemma job_gives_up_witness:
  "get_job (new_id ''job'' ''a'') submitted_db = Some sample_job \<and>
   (\<exists>db' j'. fail_job (new_id ''job'' ''a'') [(1, 2, JNull, 2)] submitted_db = Some db' \<and>
     get_job (new_id ''job'' ''a'') db' = Some j' \<and> j_status j' = Retry)"
proof
  show g: "get_job (new_id ''job'' ''a'') submitted_db = Some sample_job"
    by (simp add: get_job_def submitted_db_def)
  let ?db' = "retry_job 2 sample_claimed JNull 2 claimed_db"
  have f: "fail_job (new_id ''job'' ''a'') [(1, 2, JNull, 2)] submitted_db = Some ?db'"
    by (simp add: sample_claim) (simp add: sample_claimed_def)
  show "\<exists>db' j'. fail_job (new_id ''job'' ''a'') [(1, 2, JNull, 2)] submitted_db = Some db' \<and>
     get_job (new_id ''job'' ''a'') db' = Some j' \<and> j_status j' = Retry"
    using job_gives_up [OF sample_store_ok(1) g _ _ f] f by auto
qed

text \<open>
  C26: A delivery that keeps failing is given up exactly when its attempts reach the maximum:
  after any number of failed sends it is failed if they were used up and waiting for a retry
  otherwise, each wait lasts between 2 and 1024 seconds, and a failed delivery is never due
  again.
\<close>

theorem delivery_gives_up:
  assumes "get_by o_id i (deliveries db) = Some r" and "o_attempts r < o_max_attempts r"
  shows "\<exists>r'. get_by o_id i (deliveries (fail_delivery i (xs @ [(now, e)]) db)) = Some r' \<and>
    o_attempts r' = o_attempts r + length xs + 1 \<and>
    o_status r' = (if o_max_attempts r - o_attempts r \<le> length xs + 1 then Delivery_failed else Delivery_retry) \<and>
    now + seconds 2 \<le> o_available_at r' \<and> o_available_at r' \<le> now + seconds 1024 \<and>
    (o_status r' = Delivery_failed \<longrightarrow> (\<forall>later. \<not> delivery_due later r'))"
proof -
  let ?xs = "xs @ [(now, e)]"
  define r0 where "r0 = fold failed_delivery_round xs r"
  define r' where "r' = fold failed_delivery_round ?xs r"
  have r': "r' = failed_delivery_round (now, e) r0" by (simp add: r'_def r0_def)
  have "get_by o_id i (deliveries (fail_delivery i ?xs db)) = Some r'"
    unfolding r'_def by (rule fail_delivery_row [OF assms(1)])
  moreover have "o_attempts r' = o_attempts r + length xs + 1"
    unfolding r'_def using delivery_retry.used_rounds [of ?xs r] by simp
  moreover have "o_status r' = Delivery_failed \<longleftrightarrow> o_max_attempts r - o_attempts r \<le> length xs + 1"
    unfolding r'_def using delivery_retry.final_rounds [of ?xs r] assms(2) by auto
  moreover have "o_status r' \<in> {Delivery_failed, Delivery_retry}"
    by (simp add: r' failed_delivery_round_fields)
  moreover have "o_available_at r' = now + seconds (delivery_delay (o_attempts r0 + 1))"
    unfolding r' by (rule failed_delivery_available)
  moreover have "2 \<le> delivery_delay (o_attempts r0 + 1) \<and> delivery_delay (o_attempts r0 + 1) \<le> 1024"
    by (rule delivery_delay_bounds) simp
  ultimately show ?thesis by (auto simp: seconds_def delivery_due_def)
qed

definition sample_delivery_db :: database where
  "sample_delivery_db = fst (enqueue 0 ''h'' ''teams'' JNull ''t'' empty_database)"

lemma delivery_gives_up_witness:
  "\<exists>r'. get_by o_id (new_id ''delivery'' ''h'')
      (deliveries (fail_delivery (new_id ''delivery'' ''h'') (replicate 9 (1, ''e'') @ [(1, ''e'')]) sample_delivery_db)) = Some r' \<and>
    o_status r' = Delivery_failed"
  using delivery_gives_up [of "new_id ''delivery'' ''h''" sample_delivery_db _ "replicate 9 (1, ''e'')" 1 "''e''"]
  by (auto simp: sample_delivery_db_def enqueue_def empty_database_def Let_def)

section \<open>Retention\<close>

text \<open>
  C24: The purge removes exactly what its text comparisons call expired, and these count in whole
  UTC days: jobs that finished on the day of the job cutoff or before it, evidence and audit events
  from the day of their expiry on, evidence of such jobs, inactive destinations and finished
  deliveries up to the day of their cutoffs. So nothing that has expired is kept, but a row can go
  up to a day before its time is over. A pending, retrying or running job is never removed.
\<close>

theorem purge_exact:
  assumes "jobs_ok db" and "purge driver_before s now db = (db', c)"
  shows "(\<forall>j \<in> set (jobs db). j \<in> set (jobs db') \<longleftrightarrow>
        \<not> (j_status j \<in> {Succeeded, Failed} \<and>
           (\<exists>t. j_completed_at j = Some t \<and> day_of t + job_retention_days s \<le> day_of now))) \<and>
    (\<forall>e \<in> set (evidences db). e \<in> set (evidences db') \<longleftrightarrow>
        day_of now < day_of (e_expires_at e) \<and> (\<forall>j \<in> set (jobs db). j_id j = e_job_id e \<longrightarrow> j \<in> set (jobs db'))) \<and>
    (\<forall>a \<in> set (audits db). a \<in> set (audits db') \<longleftrightarrow> day_of now < day_of (a_expires_at a)) \<and>
    (\<forall>t \<in> set (installs db). t \<in> set (installs db') \<longleftrightarrow>
        t_active t \<or> day_of now < day_of (t_last_seen_at t) + teams_installation_retention_days s) \<and>
    (\<forall>r \<in> set (deliveries db). r \<in> set (deliveries db') \<longleftrightarrow>
        o_status r \<in> {Delivery_pending, Delivery_retry} \<or> day_of now < day_of (o_updated_at r) + audit_retention_days s) \<and>
    length (jobs db') + pc_jobs c = length (jobs db)"
proof -
  have db': "db' = fst (purge driver_before s now db)" and c: "c = snd (purge driver_before s now db)"
    using assms(2) by simp_all
  have stale: "stale_job driver_before (now - days (job_retention_days s)) j \<longleftrightarrow>
      j_status j \<in> {Succeeded, Failed} \<and>
      (\<exists>t. j_completed_at j = Some t \<and> day_of t + job_retention_days s \<le> day_of now)" for j
    by (auto simp: stale_job_def terminal_def driver_before_iff le_diff_eq split: option.split)
  have "pc_jobs c = rowcount (stale_job driver_before (now - days (job_retention_days s))) (jobs db)"
    by (simp add: c purge_def Let_def)
  then have counts: "length (jobs db') + pc_jobs c = length (jobs db)"
    using rowcount_delete [of "stale_job driver_before (now - days (job_retention_days s))" "jobs db"]
    by (simp add: db')
  have jobs: "\<forall>j \<in> set (jobs db). j \<in> set (jobs db') \<longleftrightarrow>
        \<not> (j_status j \<in> {Succeeded, Failed} \<and>
           (\<exists>t. j_completed_at j = Some t \<and> day_of t + job_retention_days s \<le> day_of now))"
    by (simp add: db' stale)
  have "e \<in> set (evidences db') \<longleftrightarrow>
        day_of now < day_of (e_expires_at e) \<and> (\<forall>j \<in> set (jobs db). j_id j = e_job_id e \<longrightarrow> j \<in> set (jobs db'))"
    if "e \<in> set (evidences db)" for e
    unfolding db' purge_cascade(1) [OF refl] using that by (auto simp: image_iff driver_before_iff not_le)
  moreover have "r \<in> set (deliveries db') \<longleftrightarrow>
        o_status r \<in> {Delivery_pending, Delivery_retry} \<or> day_of now < day_of (o_updated_at r) + audit_retention_days s"
    if "r \<in> set (deliveries db)" for r
    using that by (cases "o_status r") (auto simp: db' stale_delivery_def driver_before_iff)
  ultimately show ?thesis using jobs counts by (auto simp: db' driver_before_iff)
qed

text \<open>
  Evidence does not outlive its job: the evidence stored when a job completes is meant to
  expire after the evidence retention, but a purge that runs once the job retention has passed
  removes all of it with the job.
\<close>

theorem evidence_follows_job_retention:
  assumes "jobs_ok db" and "complete_job s t hx j md key ev m db = (db1, Inr did)"
    and "t + days (job_retention_days s) < now"
  shows "(\<forall>e \<in> set (drop (length (evidences db)) (evidences db1)).
      e_job_id e = j_id j \<and> e_expires_at e = t + days (evidence_retention_days s)) \<and>
    (\<forall>e \<in> set (evidences (fst (purge driver_before s now db1))). e_job_id e \<noteq> j_id j)"
proof
  note eqs = complete_job_Inr [OF assms(2)]
  show "\<forall>e \<in> set (drop (length (evidences db)) (evidences db1)).
      e_job_id e = j_id j \<and> e_expires_at e = t + days (evidence_retention_days s)"
    by (auto simp: eqs(4) evidence_row_def)
  obtain r where r: "r \<in> set (jobs db)" "j_id r = j_id j" using eqs(5) by auto
  let ?r = "mark_succeeded t (JObj (public_decision md key did)) r"
  have "?r \<in> set (jobs db1)" using r by (auto simp: eqs(1) set_update_where)
  moreover have "stale_job driver_before (now - days (job_retention_days s)) ?r"
    using day_of_mono [OF less_imp_le [OF assms(3)]] by (simp add: stale_job_def terminal_def mark_succeeded_def driver_before_iff)
  moreover have "j_id ?r = j_id j" using r by simp
  ultimately have "j_id j \<in> j_id ` {j \<in> set (jobs db1). stale_job driver_before (now - days (job_retention_days s)) j}"
    by (metis (mono_tags, lifting) image_eqI mem_Collect_eq)
  then show "\<forall>e \<in> set (evidences (fst (purge driver_before s now db1))). e_job_id e \<noteq> j_id j"
    by (auto simp: purge_cascade(1) [OF refl])
qed

text \<open>A job that finished 100 days ago, and evidence collected with it, under the default retention.\<close>

definition old_evidence_item :: evidence_item where
  "old_evidence_item = \<lparr>x_external_id = ''e1'', x_kind = ''splunk'', x_title = ''t'', x_uri = [], x_payload = JObj []\<rparr>"

lemma default_retention [simp]:
  "job_retention_days default_settings = 90" "evidence_retention_days default_settings = 180"
  "worker_stale_seconds default_settings = 120"
  by (simp_all add: default_settings_def)

lemma purge_exact_witness:
  "jobs (fst (purge driver_before default_settings (days 100) succeeded_db)) = [] \<and>
   set (jobs (fst (purge driver_before default_settings (days 100) claimed_db))) = set (jobs claimed_db)"
proof -
  let ?p = "\<lambda>db. purge driver_before default_settings (days 100) db"
  have ok: "jobs_ok succeeded_db" "jobs_ok claimed_db"
    using sample_store_ok complete_job_ok [OF sample_complete]
    by (simp_all add: store_ok_def held_def claimed_db_def sample_claimed_def mark_claimed_def)
  have fin: "terminal j \<and> j_completed_at j = Some 2" if "j \<in> set (jobs succeeded_db)" for j
    using that by (simp add: sample_final_job mark_succeeded_def terminal_def)
  have due: "day_of 2 + job_retention_days default_settings \<le> day_of (days 100)"
    by (simp add: day_of_def days_def seconds_def)
  have sub: "set (jobs (fst (?p db))) \<subseteq> set (jobs db)" for db by auto
  have "\<forall>x. x \<notin> set (jobs (fst (?p succeeded_db)))"
    using purge_exact [OF ok(1), of default_settings "days 100" "fst (?p succeeded_db)" "snd (?p succeeded_db)",
        THEN conjunct1] fin due sub [of succeeded_db]
    unfolding terminal_def by (metis prod.collapse subsetD)
  then have "jobs (fst (?p succeeded_db)) = []"
    by (cases "jobs (fst (?p succeeded_db))") (blast, metis list.set_intros(1))
  moreover have "\<not> terminal j" if "j \<in> set (jobs claimed_db)" for j
    using that by (simp add: claimed_db_def sample_claimed_def mark_claimed_def terminal_def)
  then have "set (jobs claimed_db) \<subseteq> set (jobs (fst (?p claimed_db)))"
    using purge_exact [OF ok(2), of default_settings "days 100" "fst (?p claimed_db)" "snd (?p claimed_db)",
        THEN conjunct1]
    unfolding terminal_def by (metis prod.collapse subsetI)
  then have "set (jobs (fst (?p claimed_db))) = set (jobs claimed_db)" using sub [of claimed_db] by blast
  ultimately show ?thesis by (rule conjI)
qed

lemma evidence_follows_job_retention_witness:
  "\<exists>db1 did. complete_job default_settings 2 sample_hexes sample_claimed sample_decision ''k'' [old_evidence_item]
      sample_model claimed_db = (db1, Inr did) \<and>
    (\<forall>e \<in> set (evidences db1). days 100 < e_expires_at e) \<and> evidences db1 \<noteq> [] \<and>
    (\<forall>e \<in> set (evidences (fst (purge driver_before default_settings (days 100) db1))). e_job_id e \<noteq> j_id sample_claimed)"
proof -
  let ?c = "complete_job default_settings 2 sample_hexes sample_claimed sample_decision ''k'' [old_evidence_item]
      sample_model claimed_db"
  have "\<exists>db1 did. ?c = (db1, Inr did)"
    by (simp add: complete_job_def claimed_db_def sample_hexes_def sample_claimed_def Let_def)
  then obtain db1 did where c: "?c = (db1, Inr did)" by blast
  have ok: "jobs_ok claimed_db" using sample_store_ok by (simp add: store_ok_def)
  have ev: "evidences db1 = [evidence_row default_settings 2 (j_id sample_claimed) old_evidence_item ''e'']"
    using complete_job_Inr(4) [OF c] by (simp add: claimed_db_def empty_database_def sample_hexes_def)
  have "\<forall>e \<in> set (evidences db1). days 100 < e_expires_at e"
    by (simp add: ev evidence_row_def days_def seconds_def)
  moreover have "\<forall>e \<in> set (evidences (fst (purge driver_before default_settings (days 100) db1))). e_job_id e \<noteq> j_id sample_claimed"
    using evidence_follows_job_retention [OF ok c, of "days 100"] by (simp add: days_def seconds_def)
  ultimately show ?thesis using c ev by auto
qed

section \<open>Health\<close>

text \<open>
  The worker's row holds what its last heartbeat reported, and the readiness check reads that row:
  when timestamps are loaded as aware values, the worker counts as fresh exactly while its last
  heartbeat is not older than the configured bound.
\<close>

lemma heartbeat_row:
  "\<exists>h. get_by h_role ''worker'' (health (heartbeat t pi_ready pi_error details db)) = Some h \<and>
    h_heartbeat_at h = t \<and> h_pi_checked_at h = Some t \<and> h_pi_ready h = pi_ready \<and>
    h_pi_error h = take 4000 pi_error"
proof (cases "get_by h_role ''worker'' (health db)")
  case None
  then show ?thesis by (simp add: heartbeat_def Let_def report_health_def get_by_append)
next
  case (Some h)
  then have "get_by h_role ''worker'' (health (heartbeat t pi_ready pi_error details db)) =
      Some (report_health t pi_ready pi_error (py_or details (JObj [])) h)"
    using get_by_SomeD [OF Some]
    by (simp add: heartbeat_def Let_def get_by_update_where report_health_def)
  then show ?thesis by (simp add: report_health_def)
qed

lemma readiness_reports_row:
  assumes "get_by h_role ''worker'' (health db) = Some h"
  shows "readiness aware s now db =
     (if aware then
        Inr \<lparr>rv_worker_heartbeat = Some (h_heartbeat_at h),
             rv_worker_fresh = (now - seconds (worker_stale_seconds s) \<le> h_heartbeat_at h),
             rv_pi_ready = h_pi_ready h, rv_pi_error = h_pi_error h,
             rv_enabled_teams_destinations = rowcount (\<lambda>x. t_enabled x \<and> t_active x) (installs db)\<rparr>
      else Inl (TypeError, ''can't compare offset-naive and offset-aware datetimes''))"
  using assms by (simp add: readiness_def fresh_def)

text \<open>
  When the driver loads timestamps as naive values, readiness cannot be computed once the
  worker has reported: the comparison of the heartbeat with the current time raises
  \<^verbatim>\<open>TypeError\<close>, and only a database without a worker row is answered.
\<close>

theorem readiness_naive_timestamps:
  "(\<exists>v. readiness False s now db = Inr v) \<longleftrightarrow> get_by h_role ''worker'' (health db) = None"
  by (simp add: readiness_def fresh_def Let_def split: option.split)

end
