(* ===== verification/EngineProperties.thy ===== *)
theory EngineProperties
  imports Engine JobProperties
begin

text \<open>
  The properties of the container's operations: processing a job implements the job life cycle
  of \<open>JobLifecycle\<close>; what each outcome leaves in the database; which evidence, prompts and
  queries are built; how findings are identified; who is notified; how the outbox is flushed.
\<close>

section \<open>Operations that leave the job tables alone\<close>

lemma container_audit_tables [simp]:
  "job_tables (fst (container_audit s now hexes t a p db)) = job_tables db"
  "installs (fst (container_audit s now hexes t a p db)) = installs db"
  by (simp_all add: container_audit_def audit_def enqueue_def job_tables_def Let_def)

lemma enqueue_tables [simp]:
  "job_tables (fst (enqueue now hex c p t db)) = job_tables db"
  "installs (fst (enqueue now hex c p t db)) = installs db"
  by (simp_all add: enqueue_def job_tables_def Let_def)

lemma enqueue_all_tables [simp]:
  "job_tables (enqueue_all now hexes n p ts db) = job_tables db"
  "installs (enqueue_all now hexes n p ts db) = installs db"
  by (induction ts arbitrary: n db) simp_all

lemma enqueue_notifications_tables [simp]:
  "job_tables (fst (enqueue_notifications s now hexes j d ev m db)) = job_tables db"
  "installs (fst (enqueue_notifications s now hexes j d ev m db)) = installs db"
  by (simp_all add: enqueue_notifications_def Let_def split: json.split)

lemma heartbeat_tables [simp]: "job_tables (heartbeat now r e d db) = job_tables db"
  by (simp add: heartbeat_def job_tables_def Let_def split: option.split)

lemma flush_items_tables: "job_tables (fst (flush_items send clock items db)) = job_tables db"
proof (induction items arbitrary: db)
  case (Cons item items)
  have "job_tables (delivery_succeeded now i db) = job_tables db" "job_tables (delivery_failed now item e db) = job_tables db" for now i e
    by (simp_all add: delivery_succeeded_def delivery_failed_def job_tables_def)
  with Cons.IH [of "delivery_succeeded (clock (o_id item)) (o_id item) db"] Cons.IH [of "delivery_failed (clock (o_id item)) item _ db"]
  show ?case by (simp add: case_prod_unfold split: sum.split)
qed simp

section \<open>Processing refines the life cycle\<close>

lemma run_unrelated:
  assumes "steps_star (lifecycle s before) st0 (st\<lparr>store := db1, holds := h\<rparr>)"
    and "job_tables db' = job_tables db1"
  shows "steps_star (lifecycle s before) st0 (st\<lparr>store := db', holds := h\<rparr>)"
proof -
  have "lifecycle s before (st\<lparr>store := db1, holds := h\<rparr>) ((st\<lparr>store := db1, holds := h\<rparr>)\<lparr>store := db'\<rparr>)"
    by (rule lifecycle.unrelated) (simp add: assms(2))
  moreover have "(st\<lparr>store := db1, holds := h\<rparr>)\<lparr>store := db'\<rparr> = st\<lparr>store := db', holds := h\<rparr>"
    by (cases st) simp
  ultimately show ?thesis using assms(1) by (metis steps_star.steps_step)
qed

lemma run_one: "step s t \<Longrightarrow> steps_star step s t"
  by (rule steps_star.steps_step) (rule steps_star.steps_refl)

lemma not_handled [simp]:
  "\<not> handled (TypeError, m)" "\<not> handled (KeyError, m)" "\<not> handled (AttributeError, m)"
  "\<not> handled (Foreign n, m)"
  by (simp_all add: handled_def caught_def is_instance_def)

lemma handled_examples [simp]:
  "handled (PiUnavailable, m)" "handled (PiProtocolError, m)" "handled (PiError, m)"
  "handled (RuntimeError, m)" "handled (ValueError, m)" "handled (JSONDecodeError, m)"
  by (simp_all add: handled_def caught_def is_instance_def)

text \<open>A failure handled while the worker holds the job is the life cycle's failing step.\<close>

lemma handle_failure_run:
  assumes run: "steps_star (lifecycle s before) st0 st" and h: "holds st = Some j"
    and f: "handle_failure s env j e (store st) = (db', res)"
  shows "\<exists>h. steps_star (lifecycle s before) st0 (st\<lparr>store := db', holds := h\<rparr>) \<and>
    ((\<exists>out. res = Inr out) \<longrightarrow> h = None)"
proof (cases "handled e")
  case False
  with f have "db' = store st" "res = Inl e" by (simp_all add: handle_failure_def)
  with run show ?thesis by (intro exI [of _ "holds st"]) simp
next
  case True
  let ?db1 = "retry_job (env_settled env) j (error_json e) (retry_delay (j_attempts j)) (store st)"
  have "steps_star (lifecycle s before) st0 (st\<lparr>store := ?db1, holds := None\<rparr>)"
    using run lifecycle.fail [OF h] by (rule steps_star.steps_step)
  then have "steps_star (lifecycle s before) st0 (st\<lparr>store := db', holds := None\<rparr>)"
    by (rule run_unrelated) (use True f in \<open>auto simp: handle_failure_def Let_def\<close>)
  then show ?thesis by blast
qed

lemma process_next_job_finish:
  "process_next_job sv s env db =
     (case claim_job (env_now env) db db of
        (db1, None) \<Rightarrow> (db1, Inr Idle)
      | (db1, Some j) \<Rightarrow> finish_job sv s env j db1)"
  by (simp add: process_next_job_def finish_job_def split: prod.split option.split)

lemma finish_run:
  assumes h: "holds st = Some j" and f: "finish_job sv s env j (store st) = (db', res)"
  shows "\<exists>h. steps_star (lifecycle s before) st (st\<lparr>store := db', holds := h\<rparr>) \<and>
    ((\<exists>out. res = Inr out) \<longrightarrow> h = None)"
proof (cases "assess sv s j")
  case (Inl e)
  with f have "handle_failure s env j e (store st) = (db', res)" by (simp add: finish_job_def)
  from handle_failure_run [OF steps_star.steps_refl h this] show ?thesis .
next
  case (Inr a)
  obtain evidence p where a: "a = (evidence, p)" by (cases a)
  define key md m where "key = finding_key (sv_sha256 sv) j evidence"
    and "md = pr_decision p" and "m = model_of p"
  obtain db2 r2 where cj: "complete_job s (env_settled env) (env_hexes env) j md key evidence m (store st) = (db2, r2)"
    by fastforce
  have res: "store_result sv s env j evidence p (store st) = (db', res)"
    using f Inr a by (simp add: finish_job_def)
  show ?thesis
  proof (cases r2)
    case (Inl e)
    then have "db2 = store st" using cj by (auto simp: complete_job_def Let_def split: if_split_asm)
    with res cj Inl have "handle_failure s env j e (store st) = (db', res)"
      by (simp add: store_result_def key_def md_def m_def)
    from handle_failure_run [OF steps_star.steps_refl h this] show ?thesis .
  next
    case (Inr did)
    have "lifecycle s before st (st\<lparr>store := db2, holds := None\<rparr>)"
      by (rule lifecycle.succeed) (use cj Inr h in simp_all)
    then have run2: "steps_star (lifecycle s before) st (st\<lparr>store := db2, holds := None\<rparr>)" by (rule run_one)
    obtain db3 r3 where n: "enqueue_notifications s (env_announced env) (env_notify env) j (public_decision md key did)
        evidence m db2 = (db3, r3)" by fastforce
    then have t3: "job_tables db3 = job_tables db2"
      using enqueue_notifications_tables(1) [of s "env_announced env" "env_notify env" j "public_decision md key did" evidence m db2]
      by simp
    show ?thesis
    proof (cases r3)
      case (Inl e)
      then have "e = (TypeError, snd e)"
        using n by (auto simp: enqueue_notifications_def Let_def split: if_split_asm json.split_asm)
      then have "\<not> handled e" using not_handled(1) by metis
      then have "db' = db3" "res = Inl e"
        using res cj Inr n Inl by (simp_all add: store_result_def key_def md_def m_def handle_failure_def)
      with run_unrelated [OF run2 t3] show ?thesis by blast
    next
      case (Inr u)
      then have "job_tables db' = job_tables db2"
        using res cj \<open>r2 = Inr did\<close> n t3 by (auto simp: store_result_def key_def md_def m_def)
      with run_unrelated [OF run2, of db'] show ?thesis by blast
    qed
  qed
qed

lemma process_run:
  assumes "holds st = None" and "process_next_job sv s env (store st) = (db', res)"
  shows "\<exists>h. steps_star (lifecycle s before) st (st\<lparr>store := db', holds := h\<rparr>) \<and>
    ((\<exists>out. res = Inr out) \<longrightarrow> h = None)"
proof -
  obtain db1 r where c: "claim_job (env_now env) (store st) (store st) = (db1, r)" by fastforce
  let ?st1 = "st\<lparr>store := db1, holds := r\<rparr>"
  have run: "steps_star (lifecycle s before) st ?st1"
    by (rule run_one) (rule lifecycle.claim [OF assms(1) c])
  show ?thesis
  proof (cases r)
    case None
    with c assms run show ?thesis by (intro exI [of _ None]) (simp add: process_next_job_def)
  next
    case (Some j)
    with c assms(2) have "finish_job sv s env j (store ?st1) = (db', res)"
      by (simp add: process_next_job_finish)
    from finish_run [OF _ this, where before = before] Some obtain h where
      "steps_star (lifecycle s before) ?st1 (?st1\<lparr>store := db', holds := h\<rparr>)" "(\<exists>out. res = Inr out) \<longrightarrow> h = None"
      by auto
    with steps_star_trans [OF this(1) run] show ?thesis by auto
  qed
qed

text \<open>
  Processing a job is a run of the job life cycle: from any state in which the worker holds
  nothing, whatever the services answer, \<^verbatim>\<open>process_next_job\<close> does to the database what some
  steps of the life cycle do, and when it returns normally the worker holds nothing again. So
  every property of the life cycle's runs is a property of the program's.
\<close>

theorem process_refines_lifecycle:
  assumes "holds st = None" and "process_next_job sv s env (store st) = (db', res)"
  shows "\<exists>h. steps_star (lifecycle s before) st (st\<lparr>store := db', holds := h\<rparr>) \<and>
    ((\<exists>out. res = Inr out) \<longrightarrow> h = None)"
  using assms by (rule process_run)

definition idle_state :: system where
  "idle_state = \<lparr>store = submitted_db, holds = None, crashes = 0, purged = {}\<rparr>"

definition failing_services :: services where
  "failing_services = \<lparr>sv_fs = (\<lambda>_. None), sv_splunk = (\<lambda>_. Inl (Foreign ''ConnectError'', ''refused'')),
     sv_pi = (\<lambda>_. Inl (PiUnavailable, ''down'')), sv_sha256 = (\<lambda>x. x), sv_contract = []\<rparr>"

definition sample_env :: job_env where
  "sample_env = \<lparr>env_now = 1, env_settled = 1, env_announced = (\<lambda>_. 1), env_audited = 1, env_hexes = sample_hexes, env_notify = (\<lambda>_. ''n''), env_audit = (''x'', ''y'')\<rparr>"

lemma process_refines_lifecycle_witness:
  "\<exists>db' res h. process_next_job failing_services default_settings sample_env submitted_db = (db', res) \<and>
     steps_star (lifecycle default_settings (<)) idle_state (idle_state\<lparr>store := db', holds := h\<rparr>)"
proof -
  obtain db' res where p: "process_next_job failing_services default_settings sample_env (store idle_state) = (db', res)"
    by fastforce
  moreover have "holds idle_state = None" by (simp add: idle_state_def)
  ultimately show ?thesis
    using process_refines_lifecycle [OF _ p, of "(<)"] by (auto simp: idle_state_def)
qed

section \<open>What each outcome leaves behind\<close>

lemma store_result_cases:
  assumes "store_result sv s env j evidence r db = (db', Inr (Processed_succeeded i))"
  obtains db1 did where "i = j_id j"
    "complete_job s (env_settled env) (env_hexes env) j (pr_decision r) (finding_key (sv_sha256 sv) j evidence)
       evidence (model_of r) db = (db1, Inr did)"
    "job_tables db' = job_tables db1"
proof -
  let ?key = "finding_key (sv_sha256 sv) j evidence"
  obtain db1 r1 where c: "complete_job s (env_settled env) (env_hexes env) j (pr_decision r) ?key evidence (model_of r) db = (db1, r1)"
    by fastforce
  have nf: "handle_failure s env j e d \<noteq> (db', Inr (Processed_succeeded i))" for e d
    by (simp add: handle_failure_def Let_def)
  from assms c nf obtain did where did: "r1 = Inr did"
    by (cases r1) (auto simp: store_result_def Let_def)
  obtain db2 r2 where n: "enqueue_notifications s (env_announced env) (env_notify env) j
      (public_decision (pr_decision r) ?key did) evidence (model_of r) db1 = (db2, r2)"
    by fastforce
  from assms c did n nf obtain u where "r2 = Inr u"
    by (cases r2) (auto simp: store_result_def Let_def)
  with assms c did n have "i = j_id j" "job_tables db' = job_tables db2"
    by (auto simp: store_result_def Let_def)
  moreover have "job_tables db2 = job_tables db1"
    using enqueue_notifications_tables(1) [of s "env_announced env" "env_notify env" j
        "public_decision (pr_decision r) ?key did" evidence "model_of r" db1] n by simp
  ultimately show ?thesis using that c did by simp
qed

lemma process_claimed:
  assumes "process_next_job sv s env db = (db', Inr out)" and "out \<noteq> Idle"
  obtains db1 j where "claim_job (env_now env) db db = (db1, Some j)"
    "(case assess sv s j of Inl e \<Rightarrow> handle_failure s env j e db1
      | Inr (evidence, r) \<Rightarrow> store_result sv s env j evidence r db1) = (db', Inr out)"
proof -
  obtain db1 r where c: "claim_job (env_now env) db db = (db1, r)" by fastforce
  with assms show ?thesis using that by (cases r) (auto simp: process_next_job_def)
qed

lemma get_job_update:
  assumes "jobs_ok db" and "j \<in> set (jobs db)" and "\<And>r. j_id (f r) = j_id r"
    and "jobs db' = update_where (\<lambda>r. j_id r = j_id j) f (jobs db)"
  shows "get_job (j_id j) db' = Some (f j)"
  using get_by_update_where [of j_id f "j_id j" "\<lambda>r. j_id r = j_id j" "jobs db"]
    get_by_unique [of j_id "jobs db" j] assms
  by (simp add: get_job_def jobs_ok_def)

lemma decisions_of_tables: "job_tables db' = job_tables db \<Longrightarrow> decisions_of i db' = decisions_of i db"
  by (simp add: decisions_of_def job_tables_def)

lemma get_job_tables: "job_tables db' = job_tables db \<Longrightarrow> get_job i db' = get_job i db"
  by (simp add: get_job_def job_tables_def)

lemma assess_Inr:
  assumes "assess sv s j = Inr (evidence, r)"
  shows "fetch_evidence (sv_splunk sv) (sv_fs sv) s j = Inr evidence"
    and "sv_pi sv (review_prompt (sv_contract sv) j evidence) = Inr r"
    and "set (md_evidence_ids (pr_decision r)) \<subseteq> set (map x_external_id evidence)"
  using assms by (auto simp: assess_def bind_result_Inr_iff split: if_split_asm)

text \<open>The row of the finding after an occurrence was noted.\<close>

lemma note_finding_row:
  "\<exists>f. get_by f_dedupe_key key (note_finding now hex key did fs) = Some f \<and> f_decision_id f = did"
proof (cases "get_by f_dedupe_key key fs")
  case None
  then show ?thesis by (simp add: note_finding_def get_by_append)
next
  case (Some f)
  with get_by_SomeD [OF Some] show ?thesis by (simp add: note_finding_def get_by_update_where)
qed

text \<open>
  C10: A job reported as succeeded was reviewed on the evidence collected for it, and everything of
  it is stored. The decision refers only to evidence that was supplied. The job's row is the claimed
  one, succeeded, with the decision, the finding key and the decision's id as its result. It has
  exactly one decision, whose row holds the model's verdict and names the model that gave it, and
  to which the finding of that key now points. And one row of evidence was added for each piece
  that was collected, in order, under the job's id, with its kind, title, address and payload.
\<close>

theorem process_success:
  assumes "store_ok db" and "process_next_job sv s env db = (db', Inr (Processed_succeeded i))"
  shows "\<exists>j evidence r key d rows f.
    fetch_evidence (sv_splunk sv) (sv_fs sv) s j = Inr evidence \<and>
    sv_pi sv (review_prompt (sv_contract sv) j evidence) = Inr r \<and>
    set (md_evidence_ids (pr_decision r)) \<subseteq> set (map x_external_id evidence) \<and>
    j_id j = i \<and> j_status j = Running \<and> key = finding_key (sv_sha256 sv) j evidence \<and>
    get_job i db' = Some (j\<lparr>j_status := Succeeded, j_error_json := None,
      j_result_json := Some (dumps (JObj (dump_decision (pr_decision r) @
        [(''finding_key'', JStr key), (''decision_id'', JStr (d_id d))]))),
      j_completed_at := Some (env_settled env), j_updated_at := env_settled env\<rparr>) \<and>
    decisions_of i db' = [d] \<and> d_verdict d = md_verdict (pr_decision r) \<and> d_severity d = md_severity (pr_decision r) \<and>
    d_summary d = md_summary (pr_decision r) \<and>
    d_rationale_json d = dumps (JObj [(''rationale'', strings (md_rationale (pr_decision r))),
      (''recommended_actions'', strings (md_recommended_actions (pr_decision r))),
      (''evidence_ids'', strings (md_evidence_ids (pr_decision r)))]) \<and>
    d_model_provider d = pr_provider r \<and> d_model_id d = pr_model r \<and> d_pi_version d = pr_pi_version r \<and>
    get_by f_dedupe_key key (findings db') = Some f \<and> f_decision_id f = d_id d \<and>
    evidences db' = evidences db @ rows \<and>
    list_all2 (\<lambda>x e. e_job_id e = i \<and> e_uri e = x_uri x \<and>
      e_kind e = take 32 (if x_kind x = [] then ''event'' else x_kind x) \<and>
      e_title e = take 256 (if x_title x = [] then ''Evidence'' else x_title x) \<and>
      e_payload_json e = dumps (if truthy (x_payload x) then x_payload x else JObj []) \<and>
      e_expires_at e = env_settled env + days (evidence_retention_days s)) evidence rows"
proof -
  from assms(2) obtain db1 j where c: "claim_job (env_now env) db db = (db1, Some j)"
    and rest: "(case assess sv s j of Inl e \<Rightarrow> handle_failure s env j e db1
      | Inr (evidence, r) \<Rightarrow> store_result sv s env j evidence r db1) = (db', Inr (Processed_succeeded i))"
    by (rule process_claimed) simp_all
  obtain evidence r where a: "assess sv s j = Inr (evidence, r)"
    and sr: "store_result sv s env j evidence r db1 = (db', Inr (Processed_succeeded i))"
    using rest by (cases "assess sv s j") (auto simp: handle_failure_def Let_def split: if_split_asm)
  define key where "key = finding_key (sv_sha256 sv) j evidence"
  from sr obtain db2 did where i: "i = j_id j"
    and cj: "complete_job s (env_settled env) (env_hexes env) j (pr_decision r) key evidence (model_of r) db1 = (db2, Inr did)"
    and t: "job_tables db' = job_tables db2"
    unfolding key_def by (rule store_result_cases)
  note same = job_tables_eqD [OF t] and stored = complete_job_Inr [OF cj]
  have ok: "jobs_ok db" using assms(1) by (simp add: store_ok_def)
  have held: "held j db1" by (rule claim_held [OF c ok])
  have ok1: "store_ok db1" by (rule claim_job_ok [OF c assms(1)])
  let ?d = "decision_row (env_settled env) did (j_id j) (pr_decision r) (model_of r)"
  have row: "get_job i db' = Some (mark_succeeded (env_settled env) (JObj (public_decision (pr_decision r) key did)) j)"
    unfolding get_job_tables [OF t] i
    by (rule get_job_update [OF _ _ _ stored(1)]) (use ok1 held in \<open>simp_all add: store_ok_def held_def\<close>)
  have "length (decisions_of i db1) = 0" using ok1 held i by (auto simp: store_ok_def verdicts_ok_def held_def)
  then have "decisions_of i db' = [?d]"
    unfolding decisions_of_tables [OF t] by (simp add: decisions_of_def stored(2) decision_row_def i)
  moreover obtain f where "get_by f_dedupe_key key (findings db') = Some f" "f_decision_id f = did"
    using note_finding_row [of key "env_settled env" _ did "findings db1"] by (auto simp: same(4) stored(3))
  moreover have "evidences db1 = evidences db"
    using c by (cases rule: claim_job_cases) simp_all
  then have "evidences db' = evidences db @ map (\<lambda>(n, x). evidence_row s (env_settled env) (j_id j) x (hx_evidence (env_hexes env) n))
      (enumerate 0 evidence)" by (simp add: same(2) stored(4))
  moreover have "list_all2 (\<lambda>x e. e_job_id e = i \<and> e_uri e = x_uri x \<and>
      e_kind e = take 32 (if x_kind x = [] then ''event'' else x_kind x) \<and>
      e_title e = take 256 (if x_title x = [] then ''Evidence'' else x_title x) \<and>
      e_payload_json e = dumps (if truthy (x_payload x) then x_payload x else JObj []) \<and>
      e_expires_at e = env_settled env + days (evidence_retention_days s)) evidence
      (map (\<lambda>(n, x). evidence_row s (env_settled env) (j_id j) x (hx_evidence (env_hexes env) n)) (enumerate 0 evidence))"
    by (auto simp: list_all2_conv_all_nth nth_enumerate_eq evidence_row_def py_or_def i)
  ultimately show ?thesis
    using assess_Inr [OF a] held i row
    by (intro exI [of _ j] exI [of _ evidence] exI [of _ r] exI [of _ key] exI [of _ ?d] exI [of _ f] exI conjI)
       (auto simp: key_def mark_succeeded_def public_decision_def decision_row_def model_of_def held_def)
qed

lemma retry_delay_bounds: "1 \<le> n \<Longrightarrow> 2 \<le> retry_delay n \<and> retry_delay n \<le> 512"
proof -
  assume n: "1 \<le> n"
  have "(2::int) ^ 1 \<le> 2 ^ min n 9" using n by (intro power_increasing) auto
  moreover have "(2::int) ^ min n 9 \<le> 2 ^ 9" by (intro power_increasing) auto
  ultimately show ?thesis by (simp add: retry_delay_def)
qed

text \<open>
  C9: A job whose processing failed with a handled error is put back for a retry, or failed for
  good if the claim used its last attempt; the status reported is the stored one, the error is
  stored, the job becomes due between 2 and 512 seconds after the failure, and neither evidence nor a
  decision was written.
\<close>

theorem process_failure:
  assumes "store_ok db" and "process_next_job sv s env db = (db', Inr (Processed_error i st e))"
  shows "handled e \<and> (\<exists>j. get_job i db' = Some j \<and>
    j_status j = (if j_max_attempts j \<le> j_attempts j then Failed else Retry) \<and>
    st = status_value (j_status j) \<and>
    j_error_json j = Some (dumps (error_json e)) \<and>
    env_settled env + seconds 2 \<le> j_available_at j \<and> j_available_at j \<le> env_settled env + seconds 512) \<and>
    decisions db' = decisions db \<and> evidences db' = evidences db"
proof -
  from assms(2) obtain db1 j where c: "claim_job (env_now env) db db = (db1, Some j)"
    and rest: "(case assess sv s j of Inl e \<Rightarrow> handle_failure s env j e db1
      | Inr (evidence, r) \<Rightarrow> store_result sv s env j evidence r db1) = (db', Inr (Processed_error i st e))"
    by (rule process_claimed) simp_all
  have no_store: "store_result sv s env j ev r d \<noteq> (db', Inr (Processed_error i st e))" for ev r d
  proof -
    have "\<not> handled x" if "complete_job s n hx j md key ev m d = (d', Inl x)" for n hx md key m d' x
      using that by (auto simp: complete_job_def Let_def split: if_split_asm)
    moreover have "\<not> handled x" if "enqueue_notifications s n hs j dec ev m d' = (d2, Inl x)" for n hs dec m d' d2 x
      using that by (auto simp: enqueue_notifications_def Let_def split: if_split_asm json.split_asm)
    ultimately show ?thesis
      by (auto simp: store_result_def Let_def handle_failure_def split: prod.splits sum.splits)
  qed
  obtain x where a: "assess sv s j = Inl x" and hf: "handle_failure s env j x db1 = (db', Inr (Processed_error i st e))"
    using rest no_store by (cases "assess sv s j") auto
  then have h: "handled e" "x = e" "i = j_id j"
    by (auto simp: handle_failure_def Let_def split: if_split_asm)
  let ?f = "mark_failed (env_settled env) (j_max_attempts j \<le> j_attempts j) (error_json e) (retry_delay (j_attempts j))"
  let ?db2 = "retry_job (env_settled env) j (error_json e) (retry_delay (j_attempts j)) db1"
  have ok: "jobs_ok db" "jobs_ok db1"
    using assms(1) claim_job_ok [OF c assms(1)] by (simp_all add: store_ok_def)
  have held: "held j db1" by (rule claim_held [OF c ok(1)])
  have t: "job_tables db' = job_tables ?db2"
    using hf h by (auto simp: handle_failure_def Let_def)
  have "get_job (j_id j) ?db2 = Some (?f j)"
    by (rule get_job_update [OF ok(2)]) (use held in \<open>simp_all add: held_def retry_job_def\<close>)
  then have row: "get_job i db' = Some (?f j)" using get_job_tables [OF t] h by simp
  have st: "st = status_value (j_status (?f j))"
    using hf h row by (auto simp: handle_failure_def Let_def)
  have "1 \<le> j_attempts j"
    using held ok(2) by (fastforce simp: held_def jobs_ok_def job_ok_def)
  note retry_delay_bounds [OF this]
  moreover have "decisions db' = decisions db" "evidences db' = evidences db"
    using t c by (auto simp: job_tables_def retry_job_def Let_def elim!: claim_job_cases)
  ultimately show ?thesis
    using h row st by (simp add: mark_failed_def seconds_def)
qed

text \<open>
  An error that \<^verbatim>\<open>process_next_job\<close> does not handle, such as an HTTP failure of the
  Splunk client, leaves the job running: nothing was written but the claim, and the recovery a
  restarted worker performs does not free the job while the claim is less than 900 seconds old.
\<close>

theorem unhandled_error_strands_job:
  assumes "jobs_ok db" and "claim_job (env_now env) db db = (db1, Some j)"
    and "assess sv s j = Inl e" and "\<not> handled e"
    and "later \<le> env_now env + seconds 900"
  shows "process_next_job sv s env db = (db1, Inl e) \<and> held j db1 \<and>
    held j (fst (recover_abandoned_jobs later 900 db1))"
proof -
  have held: "held j db1" by (rule claim_held [OF assms(2,1)])
  have "j_claimed_at j = Some (env_now env)"
    using assms(2,1) claim_result [OF assms(2,1)]
    by (cases rule: claim_row) (simp_all add: mark_claimed_def)
  then have "\<not> abandoned (later - seconds 900) j"
    using assms(5) by (simp add: abandoned_def)
  with held have "held j (fst (recover_abandoned_jobs later 900 db1))"
    by (simp add: held_def recover_abandoned_jobs_def Let_def set_update_where)
  with held assms show ?thesis by (simp add: process_next_job_def handle_failure_def)
qed

section \<open>Sample rounds\<close>

text \<open>A job submitted with one piece of evidence in its summary, and services that answer.\<close>

definition supplied_summary :: json where
  "supplied_summary = JObj [(''evidence'', JArr [JStr ''x''])]"

definition supplied_job :: job where
  "supplied_job = new_job default_settings 0 ''a'' ''key-1'' ''latest'' (JObj []) ''api'' supplied_summary 20"

definition supplied_db :: database where
  "supplied_db = empty_database\<lparr>jobs := [supplied_job]\<rparr>"

definition supplied_result :: pi_result where
  "supplied_result = \<lparr>pr_decision = sample_decision, pr_provider = ''p'', pr_model = ''m'', pr_pi_version = ''0.83.0''\<rparr>"

definition answering_services :: services where
  "answering_services = failing_services\<lparr>sv_pi := \<lambda>_. Inr supplied_result\<rparr>"

lemma supplied_job_fields [simp]:
  "j_id supplied_job = new_id ''job'' ''a''" "j_status supplied_job = Pending" "j_available_at supplied_job = 0"
  "j_attempts supplied_job = 0" "j_max_attempts supplied_job = 5" "j_selector_json supplied_job = dumps (JObj [])"
  "j_selector_type supplied_job = ''latest''" "j_row_limit supplied_job = 20" "job_ok supplied_job"
  "j_summary_json supplied_job = dumps supplied_summary" "j_idempotency_key supplied_job = ''key-1''"
  by (simp_all add: supplied_job_def) (simp_all add: new_job_def)

lemma supplied_store_ok: "store_ok supplied_db"
  by (simp add: store_ok_def supplied_db_def empty_database_def jobs_ok_def references_ok_def verdicts_ok_def
      decisions_of_def findings_ok_def)

definition supplied_claimed :: job where
  "supplied_claimed = mark_claimed 1 supplied_job"

lemma supplied_claim:
  "claim_job 1 supplied_db supplied_db = (supplied_db\<lparr>jobs := [supplied_claimed]\<rparr>, Some supplied_claimed)"
  by (simp add: claim_job_def supplied_db_def empty_database_def due_def claimable_def order_by_def rowcount_def
      update_where_def supplied_claimed_def)

lemma supplied_claimed_fields [simp]:
  "j_selector_json supplied_claimed = dumps (JObj [])" "j_selector_type supplied_claimed = ''latest''"
  "j_summary_json supplied_claimed = dumps supplied_summary" "j_row_limit supplied_claimed = 20"
  "j_id supplied_claimed = new_id ''job'' ''a''" "j_attempts supplied_claimed = 1"
  by (simp_all add: supplied_claimed_def) (simp_all add: mark_claimed_def)

lemma supplied_loads:
  "loads (Some (dumps supplied_summary)) (JObj []) = supplied_summary"
  "loads (Some (dumps (JObj []))) (JObj []) = JObj []"
  by code_simp+

lemma default_unconfigured [simp]:
  "\<not> splunk_configured default_settings" "\<not> audit_configured default_settings" "\<not> teams_enabled default_settings"
  by (simp_all add: splunk_configured_def audit_configured_def default_settings_def)

lemma supplied_fetch:
  "\<exists>evidence. fetch_evidence http fs default_settings supplied_claimed = Inr evidence"
  by (simp add: fetch_evidence_def supplied_loads supplied_summary_def get_or_none_def Let_def)

lemma supplied_assess:
  "\<exists>evidence. assess answering_services default_settings supplied_claimed = Inr (evidence, supplied_result)"
  "assess failing_services default_settings supplied_claimed = Inl (PiUnavailable, ''down'')"
  using supplied_fetch [of "\<lambda>_. Inl (Foreign ''ConnectError'', ''refused'')" "\<lambda>_. None"]
  by (auto simp: assess_def answering_services_def failing_services_def supplied_result_def sample_decision_def)

lemma process_success_witness:
  "\<exists>db' did. process_next_job answering_services default_settings sample_env supplied_db
      = (db', Inr (Processed_succeeded (new_id ''job'' ''a''))) \<and>
    length (decisions_of (new_id ''job'' ''a'') db') = 1"
proof -
  obtain evidence where a: "assess answering_services default_settings supplied_claimed = Inr (evidence, supplied_result)"
    using supplied_assess(1) by blast
  let ?p = "process_next_job answering_services default_settings sample_env supplied_db"
  have "get_by j_id (new_id ''job'' ''a'') (jobs (supplied_db\<lparr>jobs := [supplied_claimed]\<rparr>)) \<noteq> None" by simp
  then have "\<exists>db'. ?p = (db', Inr (Processed_succeeded (new_id ''job'' ''a'')))"
    by (simp add: process_next_job_def sample_env_def supplied_claim a store_result_def complete_job_def
        enqueue_notifications_def Let_def)
  then obtain db' where p: "?p = (db', Inr (Processed_succeeded (new_id ''job'' ''a'')))" by blast
  with process_success [OF supplied_store_ok p] show ?thesis by auto
qed

lemma process_failure_witness:
  "\<exists>db' j. process_next_job failing_services default_settings sample_env supplied_db
      = (db', Inr (Processed_error (new_id ''job'' ''a'') ''retry'' (PiUnavailable, ''down''))) \<and>
    get_job (new_id ''job'' ''a'') db' = Some j \<and> j_status j = Retry"
proof -
  let ?p = "process_next_job failing_services default_settings sample_env supplied_db"
  let ?r = "retry_job 1 supplied_claimed (error_json (PiUnavailable, ''down'')) 2 (supplied_db\<lparr>jobs := [supplied_claimed]\<rparr>)"
  have "\<exists>db' st. ?p = (db', Inr (Processed_error (new_id ''job'' ''a'') st (PiUnavailable, ''down''))) \<and>
      job_tables db' = job_tables ?r"
    by (simp add: process_next_job_def sample_env_def supplied_claim supplied_assess handle_failure_def
        retry_delay_def Let_def)
  then obtain db' st where p: "?p = (db', Inr (Processed_error (new_id ''job'' ''a'') st (PiUnavailable, ''down'')))"
    and t: "job_tables db' = job_tables ?r" by blast
  from process_failure [OF supplied_store_ok p] obtain j where j: "get_job (new_id ''job'' ''a'') db' = Some j"
    "j_status j = (if j_max_attempts j \<le> j_attempts j then Failed else Retry)" "st = status_value (j_status j)"
    by blast
  have "j_max_attempts supplied_claimed = 5" by (simp add: supplied_claimed_def mark_claimed_def)
  then have "get_job (new_id ''job'' ''a'') ?r = Some (mark_failed 1 False (error_json (PiUnavailable, ''down'')) 2 supplied_claimed)"
    by (simp add: get_job_def retry_job_def update_where_def)
  then have "j_status j = Retry" using j(1) get_job_tables [OF t] by (auto simp: mark_failed_def)
  with j p show ?thesis by auto
qed

definition sample_query :: string where
  "sample_query = ''index='' @ quoted ''security''"

lemma sample_query_valid: "\<exists>clean. splunk_validate sample_splunk sample_query = Inr clean"
proof -
  have c: "join '' '' (split_words (strip sample_query)) = sample_query"
    "find_indexes True sample_query = [''security'']" "\<not> blocked sample_query"
    by code_simp+
  show ?thesis unfolding splunk_validate_def Let_def c(1) by (simp add: c(2,3))
qed

lemma unhandled_error_strands_job_witness:
  "\<exists>db1 e. process_next_job failing_services sample_splunk sample_env supplied_db = (db1, Inl e) \<and>
    held supplied_claimed (fst (recover_abandoned_jobs 2 900 db1))"
proof -
  obtain clean where v: "splunk_validate sample_splunk sample_query = Inr clean"
    using sample_query_valid by blast
  have secret: "read_secret (\<lambda>_. None) (splunk_password sample_splunk) (splunk_password_file sample_splunk) = Inr []"
    by (simp add: sample_splunk_def default_settings_def read_secret_def)
  have q: "evidence_query sample_splunk ''latest'' [] = Inr (sample_query, ''-24h'')"
    by (simp add: evidence_query_def sample_query_def)
  have "\<exists>e. assess failing_services sample_splunk supplied_claimed = Inl e \<and> \<not> handled e"
    by (simp add: assess_def fetch_evidence_def supplied_loads q splunk_search_def v secret
         failing_services_def Let_def)
  then obtain e where "assess failing_services sample_splunk supplied_claimed = Inl e" "\<not> handled e" by blast
  moreover have "jobs_ok supplied_db" using supplied_store_ok by (simp add: store_ok_def)
  ultimately show ?thesis
    using unhandled_error_strands_job [of supplied_db sample_env _ supplied_claimed failing_services sample_splunk e 2]
      supplied_claim by (auto simp: sample_env_def seconds_def)
qed

end
