(* ===== verification/EvidenceProperties.thy ===== *)
theory EvidenceProperties
  imports EngineProperties
begin

text \<open>
  What is collected, asked and sent: the evidence of a job, the query for it, secrets in
  submissions, the identity of findings, notifications, and the outbox.
\<close>

section \<open>Evidence\<close>

lemma normalise_evidence_fields:
  assumes "x \<in> set (normalise_evidence s items)"
  shows "clean (redaction_keys s) (x_payload x)" "length (x_kind x) \<le> 32" "length (x_title x) \<le> 256"
  using assms by (auto simp: normalise_evidence_def normalise_item_def Let_def clean_redact)

lemma normalise_evidence_ids:
  "map x_external_id (normalise_evidence s items) = map (\<lambda>i. ''e'' @ str_of_int (int (i + 1))) [0..<length items]"
  by (rule nth_equalityI)
     (simp_all add: normalise_evidence_def normalise_item_def Let_def nth_enumerate_eq)

lemma str_of_nat_inject: "str_of_int (int m) = str_of_int (int n) \<longleftrightarrow> m = n"
  by (simp add: str_of_int_def)

text \<open>
  C17: The evidence of a job is bounded, numbered and free of secrets: there are at most as many
  pieces as its row limit, their ids are \<^verbatim>\<open>e1\<close>, \<^verbatim>\<open>e2\<close>, ... without repetition, kinds and
  titles are cut to what the tables hold, and no payload has anything but the redaction mark
  under a sensitive key, at any depth.
\<close>

theorem evidence_bounded_and_clean:
  assumes "fetch_evidence http fs s j = Inr ev"
  shows "length ev \<le> j_row_limit j \<and>
    map x_external_id ev = map (\<lambda>i. ''e'' @ str_of_int (int (i + 1))) [0..<length ev] \<and>
    distinct (map x_external_id ev) \<and>
    (\<forall>x \<in> set ev. clean (redaction_keys s) (x_payload x) \<and> length (x_kind x) \<le> 32 \<and> length (x_title x) \<le> 256)"
proof -
  obtain items where items: "ev = normalise_evidence s items" "length items \<le> j_row_limit j"
  proof (cases "splunk_configured s")
    case False
    with assms obtain d where d: "(case get_or_none d ''evidence'' of
        JArr items \<Rightarrow> Inr (normalise_evidence s (take (j_row_limit j) items))
      | _ \<Rightarrow> Inl (RuntimeError, ''Splunk is not configured and no evidence was supplied'')) = Inr ev"
      by (auto simp: fetch_evidence_def bind_result_Inr_iff Let_def)
    then obtain items where "ev = normalise_evidence s (take (j_row_limit j) items)"
      by (cases "get_or_none d ''evidence''") auto
    then show ?thesis using that by simp
  next
    case True
    with assms that show ?thesis
      by (fastforce simp: fetch_evidence_def bind_result_Inr_iff splunk_search_def split: if_split_asm)
  qed
  have len: "length ev = length items" by (simp add: items normalise_evidence_def)
  have ids: "map x_external_id ev = map (\<lambda>i. ''e'' @ str_of_int (int (i + 1))) [0..<length ev]"
    unfolding len by (simp add: items(1) normalise_evidence_ids)
  have "distinct (map x_external_id ev)"
    unfolding ids distinct_map by (auto simp: inj_on_def str_of_nat_inject simp del: of_nat_Suc of_nat_add)
  with ids len items(2) normalise_evidence_fields [of _ s items] show ?thesis by (simp add: items(1))
qed

lemma evidence_bounded_and_clean_witness:
  "\<exists>ev. fetch_evidence (\<lambda>_. Inl (Foreign ''ConnectError'', [])) (\<lambda>_. None) default_settings supplied_claimed = Inr ev \<and>
     length ev \<le> 20"
  using supplied_fetch [of "\<lambda>_. Inl (Foreign ''ConnectError'', [])" "\<lambda>_. None"] evidence_bounded_and_clean
  by fastforce

section \<open>Secrets in submissions\<close>

text \<open>
  C16: Secrets in a submitted summary go nowhere: the database and the answer after a submission
  are the same whatever values the summary has under sensitive keys, at any depth.
\<close>

theorem submission_hides_secrets:
  assumes "alter_secrets f (redaction_keys s) (JObj (rr_summary r)) = JObj altered"
  shows "submit_review s now hex ahex seen (r\<lparr>rr_summary := altered\<rparr>) key actor db =
    submit_review s now hex ahex seen r key actor db"
proof -
  have "redact (redaction_keys s) (JObj altered) = redact (redaction_keys s) (JObj (rr_summary r))"
    unfolding assms [symmetric] by (rule redact_alter)
  then show ?thesis by (simp only: submit_review_def) simp
qed

definition secret_request :: "string \<Rightarrow> review_request" where
  "secret_request pw = \<lparr>rr_selector = LatestSelector ''-24h'', rr_source = ''api'',
     rr_summary = [(''Password'', JStr pw), (''host'', JStr ''web'')], rr_limit = 20\<rparr>"

lemma submission_hides_secrets_witness:
  "submit_review default_settings 0 ''h'' (''x'', ''y'') empty_database (secret_request ''hunter2'') ''key-0001'' ''a'' empty_database =
   submit_review default_settings 0 ''h'' (''x'', ''y'') empty_database (secret_request ''other'') ''key-0001'' ''a'' empty_database"
proof -
  have "lower ''Password'' = ''password''" "lower ''host'' = ''host''" by code_simp+
  moreover have "''password'' \<in> redaction_keys default_settings" "''host'' \<notin> redaction_keys default_settings"
  proof -
    have "csv_set [] = {}" "strip [] = []" by code_simp+
    then show "''password'' \<in> redaction_keys default_settings" "''host'' \<notin> redaction_keys default_settings"
      by (simp_all add: redaction_keys_def redaction_defaults_def default_settings_def)
  qed
  ultimately have "alter_secrets (\<lambda>_ _. JStr ''hunter2'') (redaction_keys default_settings)
      (JObj (rr_summary (secret_request ''other''))) = JObj [(''Password'', JStr ''hunter2''), (''host'', JStr ''web'')]"
    by (simp add: secret_request_def)
  from submission_hides_secrets [OF this, of 0 "''h''" "(''x'', ''y'')" empty_database "''key-0001''" "''a''" empty_database]
  show ?thesis by (simp add: secret_request_def)
qed

section \<open>The search for a selector\<close>

definition escape_literal :: "string \<Rightarrow> string" where
  "escape_literal v = concat (map (\<lambda>c. if c = CHR 0x5C \<or> c = CHR 0x22 then [CHR 0x5C, c] else [c]) v)"

lemma escape_twice:
  "replace_char (CHR 0x22) [CHR 0x5C, CHR 0x22] (replace_char (CHR 0x5C) [CHR 0x5C, CHR 0x5C] v) = escape_literal v"
  by (induction v) (simp_all add: escape_literal_def)

lemma length_escape: "length (escape_literal v) \<le> 2 * length v"
  by (induction v) (simp_all add: escape_literal_def)

lemma splunk_literal_short: "length v \<le> 256 \<Longrightarrow> splunk_literal (JStr v) = escape_literal v"
  using length_escape [of v] by (simp add: splunk_literal_def escape_twice py_str_def)

lemma read_escaped: "read_quoted (escape_literal v @ [CHR 0x22] @ rest) = Some (v, rest)"
  by (induction v) (simp_all add: escape_literal_def)

text \<open>
  C31: A selector cannot break out of the search built for it: for every accepted selector, a
  reader that understands backslash escapes gets the run id, the result id and the workflow back
  from the query as single literals, with nothing after them; the cut at 512 characters never
  falls inside a literal.
\<close>

theorem evidence_query_literal:
  assumes "valid_selector sel"
  shows "case sel of
      RunSelector run_id workflow \<Rightarrow> (\<exists>body rest.
        evidence_query s ''run'' (dump_selector sel) =
          Inr (''index='' @ quoted (splunk_results_index s) @ '' run_id='' @ [CHR 0x22] @ body, ''-7d'') \<and>
        read_quoted body = Some (run_id, rest) \<and>
        (if workflow \<in> {None, Some []} then rest = []
         else \<exists>body2. rest = '' workflow='' @ [CHR 0x22] @ body2 \<and> read_quoted body2 = Some (the workflow, [])))
    | ResultSelector result_id \<Rightarrow> (\<exists>body.
        evidence_query s ''result'' (dump_selector sel) =
          Inr (''index='' @ quoted (splunk_results_index s) @ '' result_id='' @ [CHR 0x22] @ body, ''-30d'') \<and>
        read_quoted body = Some (result_id, []))
    | LatestSelector earliest \<Rightarrow>
        evidence_query s ''latest'' (dump_selector sel) = Inr (''index='' @ quoted (splunk_results_index s), earliest)"
proof (cases sel)
  case (RunSelector run_id workflow)
  with assms have r: "splunk_literal (JStr run_id) = escape_literal run_id"
    by (simp add: splunk_literal_short)
  show ?thesis
  proof (cases "workflow \<in> {None, Some []}")
    case True
    then show ?thesis
      unfolding RunSelector
      using read_escaped [of run_id "[]"] r
      by (auto simp: evidence_query_def subscript_def get_or_none_def quoted_def Let_def)
  next
    case False
    then obtain w where w: "workflow = Some w" "w \<noteq> []" by auto
    with assms RunSelector have wl: "splunk_literal (JStr w) = escape_literal w"
      by (simp add: splunk_literal_short)
    have "evidence_query s ''run'' (dump_selector sel) =
        Inr (''index='' @ quoted (splunk_results_index s) @ '' run_id='' @ [CHR 0x22] @
          (escape_literal run_id @ [CHR 0x22] @ '' workflow='' @ [CHR 0x22] @ escape_literal w @ [CHR 0x22]), ''-7d'')"
      by (simp add: RunSelector w evidence_query_def subscript_def get_or_none_def quoted_def r wl)
    moreover have "read_quoted (escape_literal w @ [CHR 0x22]) = Some (w, [])"
      using read_escaped [of w "[]"] by simp
    ultimately show ?thesis
      using read_escaped [of run_id "'' workflow='' @ [CHR 0x22] @ escape_literal w @ [CHR 0x22]"] w
      unfolding RunSelector by (simp only: selector.case if_False) (auto simp: exI)
  qed
next
  case (ResultSelector result_id)
  with assms have "splunk_literal (JStr result_id) = escape_literal result_id"
    by (simp add: splunk_literal_short)
  then show ?thesis
    using read_escaped [of result_id "[]"]
    by (auto simp: ResultSelector evidence_query_def subscript_def quoted_def)
next
  case (LatestSelector earliest)
  then show ?thesis by (simp add: evidence_query_def py_str_def)
qed

lemma evidence_query_literal_witness:
  "\<exists>body. evidence_query default_settings ''result'' (dump_selector (ResultSelector ''a b'')) =
      Inr (''index='' @ quoted (splunk_results_index default_settings) @ '' result_id='' @ [CHR 0x22] @ body, ''-30d'') \<and>
    read_quoted body = Some (''a b'', [])"
  using evidence_query_literal [of "ResultSelector ''a b''" default_settings] by simp

section \<open>The identity of a finding\<close>

lemma wf_JObj_get: "wf_json (JObj d) \<Longrightarrow> wf_json (get_or_none d k)"
  by (auto simp: get_or_none_def dict_get_def split: option.split dest!: map_of_SomeD)

lemma wf_identity: "wf_json (x_payload x) \<Longrightarrow> wf_json (identity x)"
proof -
  assume wf: "wf_json (x_payload x)"
  have "wf_json (get_or_none (case x_payload x of JObj d \<Rightarrow> d | _ \<Rightarrow> []) k)" for k
    using wf wf_JObj_get by (cases "x_payload x") (simp_all add: get_or_none_def)
  moreover have "distinct stable_fields" by code_simp
  ultimately show ?thesis
    by (auto simp: identity_def Let_def comp_def)
qed

lemma wf_material: "\<forall>x \<in> set ev. wf_json (x_payload x) \<Longrightarrow> wf_json (finding_material t src ev)"
  by (simp add: finding_material_def wf_identity)

text \<open>
  When two pieces of evidence stand for the same thing, said of the pieces alone: they agree in every
  field that identifies a detection, an entity or an indicator (JSON values up to the order of
  keys; an empty text counts as no value), and if they have none of these fields, in title and kind.
\<close>

definition identifying_field :: "evidence_item \<Rightarrow> string \<Rightarrow> json option" where
  "identifying_field x k = (case x_payload x of
     JObj d \<Rightarrow> (case dict_get d k of
        None \<Rightarrow> None
      | Some v \<Rightarrow> if v = JNull \<or> v = JStr [] then None else Some (sort_keys v))
   | _ \<Rightarrow> None)"

definition same_identity :: "evidence_item \<Rightarrow> evidence_item \<Rightarrow> bool" where
  "same_identity x y =
     (let fields = [''detection_id'', ''rule_id'', ''rule'', ''query_id'', ''indicator'', ''indicator_value'', ''entity'',
        ''host'', ''device'', ''user'', ''account'', ''file_hash''] in
      (\<forall>k \<in> set fields. identifying_field x k = identifying_field y k) \<and>
      ((\<forall>k \<in> set fields. identifying_field x k = None) \<longrightarrow> x_title x = x_title y \<and> x_kind x = x_kind y))"

text \<open>What the identity of a piece says under each key, after sorting.\<close>

lemma dict_get_keys: "dict_get (map (\<lambda>k. (k, f k)) ks) k = (if k \<in> set ks then Some (f k) else None)"
  by (induction ks) (auto simp: dict_get_def)

definition known_fields :: "evidence_item \<Rightarrow> string list" where
  "known_fields x = filter (\<lambda>k. identifying_field x k \<noteq> None) stable_fields"

lemma identity_known:
  "identity x = (if known_fields x = [] then JObj [(''title'', JStr (x_title x)), (''kind'', JStr (x_kind x))]
     else JObj (map (\<lambda>k. (k, get_or_none (case x_payload x of JObj d \<Rightarrow> d | _ \<Rightarrow> []) k)) (known_fields x)))"
proof -
  have "(get_or_none (case x_payload x of JObj d \<Rightarrow> d | _ \<Rightarrow> []) k \<notin> {JNull, JStr []}) = (identifying_field x k \<noteq> None)" for k
    by (auto simp: identifying_field_def get_or_none_def split: json.split option.split)
  then show ?thesis by (simp add: identity_def known_fields_def Let_def)
qed

lemma identity_sorted:
  assumes "wf_json (x_payload x)" and "known_fields x \<noteq> []" and "k \<in> set stable_fields"
  shows "dict_get (members (sort_keys (identity x))) k = identifying_field x k"
proof -
  let ?d = "case x_payload x of JObj d \<Rightarrow> d | _ \<Rightarrow> []"
  have i: "identity x = JObj (map (\<lambda>k. (k, get_or_none ?d k)) (known_fields x))" using assms(2) by (simp add: identity_known)
  have "wf_json (JObj (map (\<lambda>k. (k, get_or_none ?d k)) (known_fields x)))" using wf_identity [OF assms(1)] unfolding i .
  from dict_get_sort_keys [OF this, of k] show ?thesis
    unfolding i using assms(3)
    by (auto simp: dict_get_keys known_fields_def identifying_field_def get_or_none_def simp del: sort_keys.simps
        split: json.splits option.splits if_splits)
qed

lemma identity_agree_known:
  assumes "sort_keys (identity x) = sort_keys (identity y)" and "wf_json (x_payload x)" "wf_json (x_payload y)"
    and "known_fields x = []"
  shows "known_fields y = [] \<and> x_title x = x_title y \<and> x_kind x = x_kind y"
proof -
  have get: "dict_get (members (sort_keys (JObj [(''title'', JStr a), (''kind'', JStr b)]))) k =
      map_option sort_keys (dict_get [(''title'', JStr a), (''kind'', JStr b)] k)" for a b k
    by (rule dict_get_sort_keys) simp
  have x: "sort_keys (identity x) = sort_keys (JObj [(''title'', JStr (x_title x)), (''kind'', JStr (x_kind x))])"
    using assms(4) by (simp add: identity_known)
  have "known_fields y = []"
  proof (rule ccontr)
    assume y: "known_fields y \<noteq> []"
    then obtain k where k: "k \<in> set stable_fields" "identifying_field y k \<noteq> None"
      by (auto simp: known_fields_def filter_empty_conv)
    have "\<forall>k \<in> set stable_fields. ''title'' \<noteq> k \<and> ''kind'' \<noteq> k" by code_simp
    then have "dict_get (members (sort_keys (identity x))) k = None"
      using k(1) unfolding x get by (auto simp: dict_get_def)
    with identity_sorted [OF assms(3) y k(1)] assms(1) k(2) show False by simp
  qed
  then have "sort_keys (JObj [(''title'', JStr (x_title x)), (''kind'', JStr (x_kind x))]) =
      sort_keys (JObj [(''title'', JStr (x_title y)), (''kind'', JStr (x_kind y))])"
    using assms(1) x by (simp add: identity_known)
  with get [of "x_title x" "x_kind x"] get [of "x_title y" "x_kind y"] have
    "map_option sort_keys (dict_get [(''title'', JStr (x_title x)), (''kind'', JStr (x_kind x))] k) =
     map_option sort_keys (dict_get [(''title'', JStr (x_title y)), (''kind'', JStr (x_kind y))] k)" for k by metis
  from this [of "''title''"] this [of "''kind''"] \<open>known_fields y = []\<close> show ?thesis by simp
qed

lemma identity_agree:
  assumes "wf_json (x_payload x)" "wf_json (x_payload y)"
  shows "sort_keys (identity x) = sort_keys (identity y) \<longleftrightarrow> same_identity x y"
proof
  assume eq: "sort_keys (identity x) = sort_keys (identity y)"
  have none: "identifying_field z k = None" if "known_fields z = []" "k \<in> set stable_fields" for z k
    using that by (auto simp: known_fields_def filter_empty_conv)
  have "identifying_field x k = identifying_field y k" if k: "k \<in> set stable_fields" for k
  proof (cases "known_fields x = []")
    case True
    with identity_agree_known [OF eq assms] none [OF _ k] show ?thesis by simp
  next
    case False
    with identity_agree_known [OF eq [symmetric] assms(2,1)] have "known_fields y \<noteq> []" by auto
    with identity_sorted [OF assms(1) False k] identity_sorted [OF assms(2) _ k] eq show ?thesis by simp
  qed
  moreover have "x_title x = x_title y \<and> x_kind x = x_kind y" if "\<forall>k \<in> set stable_fields. identifying_field x k = None"
    using identity_agree_known [OF eq assms] that by (simp add: known_fields_def)
  ultimately show "same_identity x y" unfolding same_identity_def stable_fields_def Let_def by blast
next
  assume same: "same_identity x y"
  then have agree: "identifying_field x k = identifying_field y k" if "k \<in> set stable_fields" for k
    using that unfolding same_identity_def stable_fields_def Let_def by blast
  then have known: "known_fields x = known_fields y" unfolding known_fields_def by (auto intro: filter_cong)
  show "sort_keys (identity x) = sort_keys (identity y)"
  proof (cases "known_fields x = []")
    case True
    then have "\<forall>k \<in> set stable_fields. identifying_field x k = None" by (simp add: known_fields_def filter_empty_conv)
    with same have "x_title x = x_title y \<and> x_kind x = x_kind y" unfolding same_identity_def stable_fields_def Let_def by blast
    with True known show ?thesis by (simp add: identity_known)
  next
    case False
    let ?d = "\<lambda>z. case x_payload z of JObj d \<Rightarrow> d | _ \<Rightarrow> []"
    have sorted_value: "sort_keys (get_or_none (?d z) k) = the (identifying_field z k)" if "k \<in> set (known_fields z)" for z k
      using that by (auto simp: known_fields_def identifying_field_def get_or_none_def split: json.splits option.splits if_splits)
    have "map (\<lambda>(k, v). (k, sort_keys v)) (map (\<lambda>k. (k, get_or_none (?d x) k)) (known_fields x)) =
        map (\<lambda>(k, v). (k, sort_keys v)) (map (\<lambda>k. (k, get_or_none (?d y) k)) (known_fields y))"
      unfolding known list.map_comp
    proof (rule map_cong [OF refl])
      fix k assume k: "k \<in> set (known_fields y)"
      then have "identifying_field x k = identifying_field y k" by (intro agree) (simp add: known_fields_def)
      then show "((\<lambda>(k, v). (k, sort_keys v)) \<circ> (\<lambda>k. (k, get_or_none (?d x) k))) k =
          ((\<lambda>(k, v). (k, sort_keys v)) \<circ> (\<lambda>k. (k, get_or_none (?d y) k))) k"
        using sorted_value [of k x] sorted_value [of k y] k known by simp
    qed
    from arg_cong [OF this, of "\<lambda>z. JObj (sort_key fst z)"] False known show ?thesis
      by (simp only: identity_known sort_keys.simps if_False)
  qed
qed

lemma material_agree:
  assumes "\<forall>x \<in> set ev. wf_json (x_payload x)" and "\<forall>x \<in> set ev'. wf_json (x_payload x)"
  shows "sort_keys (finding_material t src ev) = sort_keys (finding_material t' src' ev') \<longleftrightarrow>
    t = t' \<and> src = src' \<and> list_all2 same_identity ev ev'"
proof -
  have sorted: "sort_keys (JObj [(''selector_type'', a), (''source'', b), (''identities'', JArr vs)]) =
      JObj [(''identities'', JArr (map sort_keys vs)), (''selector_type'', sort_keys a), (''source'', sort_keys b)]" for a b vs
  proof -
    have "sort_key fst [(''selector_type'', u), (''source'', v), (''identities'', w :: json)] =
        [(''identities'', w), (''selector_type'', u), (''source'', v)]" for u v w by code_simp
    then show ?thesis by simp
  qed
  have "sort_keys (finding_material t src ev) = sort_keys (finding_material t' src' ev') \<longleftrightarrow>
      t = t' \<and> src = src' \<and> map (sort_keys \<circ> identity) ev = map (sort_keys \<circ> identity) ev'"
    unfolding finding_material_def sorted by auto
  also have "map (sort_keys \<circ> identity) ev = map (sort_keys \<circ> identity) ev' \<longleftrightarrow> list_all2 same_identity ev ev'"
    using assms identity_agree by (auto simp: list_eq_iff_nth_eq list_all2_conv_all_nth)
  finally show ?thesis .
qed

text \<open>
  C34: The finding key tells findings apart. If SHA-256 does not collide on the two texts that are
  hashed, two reviews get the same key exactly if their selectors have the same type, their sources
  are the same, and their evidence agrees piece by piece in the identifying fields, or in title and
  kind where it has none; whatever else the evidence says, such as time stamps, does not matter.
\<close>

theorem finding_key_exact:
  assumes "\<forall>x \<in> set ev. wf_json (x_payload x)" and "\<forall>x \<in> set ev'. wf_json (x_payload x)"
    and "inj_on sha256 {dumps (finding_material (j_selector_type j) (j_source j) ev),
      dumps (finding_material (j_selector_type j') (j_source j') ev')}"
  shows "finding_key sha256 j ev = finding_key sha256 j' ev' \<longleftrightarrow>
    j_selector_type j = j_selector_type j' \<and> j_source j = j_source j' \<and> list_all2 same_identity ev ev'"
proof -
  let ?m = "finding_material (j_selector_type j) (j_source j) ev"
  let ?m' = "finding_material (j_selector_type j') (j_source j') ev'"
  have "finding_key sha256 j ev = finding_key sha256 j' ev' \<longleftrightarrow> dumps ?m = dumps ?m'"
    unfolding finding_key_def by (rule inj_on_eq_iff [OF assms(3)]) simp_all
  also have "\<dots> \<longleftrightarrow> sort_keys ?m = sort_keys ?m'"
    by (rule json_column.encode_eq_iff [OF wf_material [OF assms(1)] wf_material [OF assms(2)]])
  finally show ?thesis using material_agree [OF assms(1,2)] by simp
qed

definition host_item :: "string \<Rightarrow> string \<Rightarrow> evidence_item" where
  "host_item seen_at h = \<lparr>x_external_id = ''e1'', x_kind = ''splunk'', x_title = seen_at, x_uri = [],
     x_payload = JObj [(''host'', JStr h), (''time'', JStr seen_at)]\<rparr>"

lemma finding_key_exact_witness:
  "finding_key (\<lambda>x. x) supplied_job [host_item ''t1'' ''web''] \<noteq> finding_key (\<lambda>x. x) supplied_job [host_item ''t1'' ''db''] \<and>
   finding_key (\<lambda>x. x) supplied_job [host_item ''t1'' ''web''] = finding_key (\<lambda>x. x) supplied_job [host_item ''t2'' ''web'']"
proof -
  have "\<not> same_identity (host_item ''t1'' ''web'') (host_item ''t1'' ''db'')"
    "same_identity (host_item ''t1'' ''web'') (host_item ''t2'' ''web'')"
    by code_simp+
  then show ?thesis
    using finding_key_exact [of "[host_item ''t1'' ''web'']" "[host_item ''t1'' ''db'']" "\<lambda>x. x" supplied_job supplied_job]
      finding_key_exact [of "[host_item ''t1'' ''web'']" "[host_item ''t2'' ''web'']" "\<lambda>x. x" supplied_job supplied_job]
    by (simp add: host_item_def)
qed

text \<open>The stable fields of two pieces of evidence agree, and at least one is known.\<close>

definition same_entity :: "evidence_item \<Rightarrow> evidence_item \<Rightarrow> bool" where
  "same_entity x y = (case (x_payload x, x_payload y) of
     (JObj d, JObj d') \<Rightarrow>
       (\<forall>k \<in> set stable_fields. get_or_none d k = get_or_none d' k) \<and>
       (\<exists>k \<in> set stable_fields. get_or_none d k \<notin> {JNull, JStr []})
   | _ \<Rightarrow> False)"

lemma same_entity_identity: "same_entity x y \<Longrightarrow> identity x = identity y"
proof -
  assume s: "same_entity x y"
  then obtain d d' where d: "x_payload x = JObj d" "x_payload y = JObj d'"
    and eq: "\<forall>k \<in> set stable_fields. get_or_none d k = get_or_none d' k"
    and known: "\<exists>k \<in> set stable_fields. get_or_none d k \<notin> {JNull, JStr []}"
    unfolding same_entity_def by (cases "x_payload x"; cases "x_payload y") simp_all
  have f: "filter (\<lambda>k. get_or_none d k \<notin> {JNull, JStr []}) stable_fields =
      filter (\<lambda>k. get_or_none d' k \<notin> {JNull, JStr []}) stable_fields"
    using eq by (intro filter_cong) simp_all
  have "filter (\<lambda>k. get_or_none d k \<notin> {JNull, JStr []}) stable_fields \<noteq> []"
    using known by (simp add: filter_empty_conv)
  then show ?thesis using f eq by (simp add: identity_def d Let_def)
qed

text \<open>
  A detection that recurs is the same finding: evidence that agrees in the stable fields
  gives the same key whatever its time stamps, titles, links and other fields are, and storing
  the second decision under that key counts one more occurrence of the first finding instead of
  adding a finding.
\<close>

theorem recurring_finding:
  assumes "list_all2 same_entity ev ev'" and "j_selector_type j = j_selector_type j'" and "j_source j = j_source j'"
    and "distinct (map f_dedupe_key fs)"
    and "get_by f_dedupe_key (finding_key sha256 j ev) fs = Some f"
  shows "get_by f_dedupe_key (finding_key sha256 j ev) (note_finding now hex (finding_key sha256 j' ev') did fs) =
      Some (f\<lparr>f_occurrences := f_occurrences f + 1, f_last_seen_at := now, f_decision_id := did\<rparr>) \<and>
    length (note_finding now hex (finding_key sha256 j' ev') did fs) = length fs"
proof -
  have "map identity ev = map identity ev'"
    using assms(1) by (induction rule: list_all2_induct) (simp_all add: same_entity_identity)
  then have key: "finding_key sha256 j ev = finding_key sha256 j' ev'"
    using assms(2,3) by (simp add: finding_key_def finding_material_def)
  show ?thesis
    using assms(5) get_by_SomeD [OF assms(5)] unfolding key
    by (simp add: note_finding_def get_by_update_where)
qed

lemma recurring_finding_witness:
  "\<exists>f. get_by f_dedupe_key (finding_key (\<lambda>x. x) supplied_job [host_item ''t1'' ''web''])
     (note_finding 9 ''h2'' (finding_key (\<lambda>x. x) supplied_job [host_item ''t2'' ''web'']) ''d2''
       (note_finding 5 ''h1'' (finding_key (\<lambda>x. x) supplied_job [host_item ''t1'' ''web'']) ''d1'' [])) = Some f \<and>
     f_occurrences f = 2"
proof -
  have "same_entity (host_item ''t1'' ''web'') (host_item ''t2'' ''web'')" by code_simp
  then show ?thesis
    using recurring_finding [of "[host_item ''t1'' ''web'']" "[host_item ''t2'' ''web'']" supplied_job supplied_job
        "note_finding 5 ''h1'' (finding_key (\<lambda>x. x) supplied_job [host_item ''t1'' ''web'']) ''d1'' []" "\<lambda>x. x" _ 9 "''h2''" "''d2''"]
    by (auto simp: note_finding_def)
qed

end
