(* ===== verification/DeliveryProperties.thy ===== *)
theory DeliveryProperties
  imports EngineProperties
begin

text \<open>
  Who is notified of a review, and what flushing the outbox does to each delivery.
\<close>

section \<open>Notifications\<close>

lemma enqueue_all_rows:
  "\<exists>new. deliveries (enqueue_all clock hexes n p ts db) = deliveries db @ new \<and> map o_target_id new = map t_id ts \<and>
    (\<forall>r \<in> set new. o_channel r = ''teams'' \<and> o_status r = Delivery_pending \<and> o_attempts r = 0 \<and>
      o_payload_json r = dumps p)"
proof (induction ts arbitrary: n db)
  case (Cons t ts)
  let ?db = "fst (enqueue (clock n) (hexes n) ''teams'' p (t_id t) db)"
  from Cons.IH [of "n + 1" ?db] obtain new where new: "deliveries (enqueue_all clock hexes (n + 1) p ts ?db) = deliveries ?db @ new"
    "map o_target_id new = map t_id ts"
    "\<forall>r \<in> set new. o_channel r = ''teams'' \<and> o_status r = Delivery_pending \<and> o_attempts r = 0 \<and>
      o_payload_json r = dumps p" by blast
  have "deliveries ?db = deliveries db @ [last (deliveries ?db)]"
    "o_target_id (last (deliveries ?db)) = t_id t" "o_channel (last (deliveries ?db)) = ''teams''"
    "o_status (last (deliveries ?db)) = Delivery_pending" "o_attempts (last (deliveries ?db)) = 0"
    "o_payload_json (last (deliveries ?db)) = dumps p"
    by (simp_all add: enqueue_def Let_def)
  with new show ?case
    by (intro exI [of _ "last (deliveries ?db) # new"]) simp
qed simp

text \<open>
  A completed review is announced once to every destination that is enabled and active, and
  to nobody else: the outbox grows by one pending delivery per such destination, in the order
  of their discovery, and by none when Teams is off.
\<close>

theorem notifications_reach_enabled:
  assumes "enqueue_notifications s clock hexes j decision ev m db = (db', Inr u)"
  shows "\<exists>new. deliveries db' = deliveries db @ new \<and>
    map o_target_id new = (if teams_enabled s then map t_id (installations True db) else []) \<and>
    (\<forall>r \<in> set new. o_channel r = ''teams'' \<and> o_status r = Delivery_pending \<and> o_attempts r = 0 \<and>
      (\<exists>t \<in> set (installs db). t_id t = o_target_id r \<and> t_enabled t \<and> t_active t))"
proof (cases "teams_enabled s")
  case False
  with assms show ?thesis by (simp add: enqueue_notifications_def)
next
  case True
  with assms obtain p where db': "db' = enqueue_all clock hexes 0 p (installations True db) db"
    by (auto simp: enqueue_notifications_def Let_def split: json.split_asm)
  obtain new where new: "deliveries db' = deliveries db @ new" "map o_target_id new = map t_id (installations True db)"
    "\<forall>r \<in> set new. o_channel r = ''teams'' \<and> o_status r = Delivery_pending \<and> o_attempts r = 0 \<and>
      o_payload_json r = dumps p"
    unfolding db' using enqueue_all_rows by blast
  have "\<exists>t \<in> set (installs db). t_id t = o_target_id r \<and> t_enabled t \<and> t_active t" if "r \<in> set new" for r
  proof -
    have "o_target_id r \<in> set (map t_id (installations True db))"
      using that new(2) by (metis image_eqI list.set_map)
    then show ?thesis by (auto simp: installations_def)
  qed
  with new True show ?thesis by auto
qed

definition sample_destination :: "bool \<Rightarrow> string \<Rightarrow> installation" where
  "sample_destination enabled i = \<lparr>t_id = i, t_tenant_id = ''T'', t_conversation_id = i, t_service_url = ''https://x'',
     t_scope = ''team'', t_reference_json = ''ref-'' @ i, t_enabled = enabled, t_active = True,
     t_discovered_at = 0, t_last_seen_at = 0\<rparr>"

definition teams_settings :: settings where
  "teams_settings = default_settings\<lparr>teams_enabled := True\<rparr>"

lemma notifications_reach_enabled_witness:
  "\<exists>db'. fst (enqueue_notifications teams_settings (\<lambda>_. 1) (\<lambda>_. ''n'') supplied_claimed [] [] sample_model
       (supplied_db\<lparr>installs := [sample_destination True ''a'', sample_destination False ''b'']\<rparr>)) = db' \<and>
     map o_target_id (deliveries db') = [''a'']"
proof -
  let ?db = "supplied_db\<lparr>installs := [sample_destination True ''a'', sample_destination False ''b'']\<rparr>"
  let ?n = "enqueue_notifications teams_settings (\<lambda>_. 1) (\<lambda>_. ''n'') supplied_claimed [] [] sample_model ?db"
  have on: "teams_enabled teams_settings" by (simp add: teams_settings_def)
  have "snd ?n = Inr ()" by (simp add: enqueue_notifications_def on supplied_loads Let_def)
  then have n: "?n = (fst ?n, Inr ())" by (metis prod.collapse)
  have "installations True ?db = [sample_destination True ''a'']"
    by (simp add: installations_def order_by_def sample_destination_def)
  then show ?thesis
    using notifications_reach_enabled [OF n] on
    by (auto simp: supplied_db_def empty_database_def sample_destination_def)
qed

section \<open>Flushing\<close>

lemma send_item_installs: "installs db' = installs db \<Longrightarrow> send_item send hec fs s db' item = send_item send hec fs s db item"
proof -
  assume "installs db' = installs db"
  then have "installations False db' = installations False db" by (simp add: installations_def)
  then show ?thesis by (simp only: send_item_def)
qed

lemma find_Some_mem: "find P xs = Some x \<Longrightarrow> x \<in> set xs \<and> P x"
  by (induction xs) (auto split: if_splits)

text \<open>The effect of one item's attempt on a row.\<close>

definition settle :: "(outbox \<Rightarrow> exc + unit) \<Rightarrow> (string \<Rightarrow> instant) \<Rightarrow> outbox \<Rightarrow> outbox \<Rightarrow> outbox" where
  "settle result clock item r =
     (case result item of Inr _ \<Rightarrow> mark_sent (clock (o_id item)) r | Inl e \<Rightarrow> mark_undelivered (clock (o_id item)) item (snd e) r)"

lemma settle_id [simp]: "o_id (settle result clock item r) = o_id r"
  by (simp add: settle_def split: sum.split)

definition settle_rows :: "(outbox \<Rightarrow> exc + unit) \<Rightarrow> (string \<Rightarrow> instant) \<Rightarrow> outbox list \<Rightarrow> outbox list \<Rightarrow> outbox list" where
  "settle_rows result clock items rows =
     map (\<lambda>r. case get_by o_id (o_id r) items of None \<Rightarrow> r | Some item \<Rightarrow> settle result clock item r) rows"

lemma settle_rows_Cons:
  assumes "o_id item \<notin> o_id ` set items"
  shows "settle_rows result clock items (update_where (\<lambda>r. o_id r = o_id item) (settle result clock item) rows) =
    settle_rows result clock (item # items) rows"
proof -
  have "get_by o_id (o_id item) items = None" using assms by (simp add: get_by_None_iff)
  then show ?thesis by (auto simp: settle_rows_def update_where_def)
qed

lemma flush_items_rows:
  assumes "distinct (map o_id items)" and "installs db = installs db0"
    and "flush_items (send_item send hec fs s) clock items db = (db', sent, failed)"
  shows "deliveries db' = settle_rows (send_item send hec fs s db0) clock items (deliveries db) \<and>
    sent + failed = length items"
  using assms
proof (induction items arbitrary: db sent failed)
  case Nil
  then show ?case by (simp add: settle_rows_def)
next
  case (Cons item items)
  let ?result = "send_item send hec fs s db0"
  have res: "send_item send hec fs s db item = ?result item"
    by (rule send_item_installs) (rule Cons.prems(2))
  obtain db1 n m where rest: "flush_items (send_item send hec fs s) clock items db1 = (db', n, m)"
    and db1: "deliveries db1 = update_where (\<lambda>r. o_id r = o_id item) (settle ?result clock item) (deliveries db)"
      "installs db1 = installs db" and nm: "sent + failed = Suc (n + m)"
  proof (cases "?result item")
    case (Inl e)
    with Cons.prems(3) res show ?thesis
      by (intro that [of "delivery_failed (clock (o_id item)) item (snd e) db" "sent" "failed - 1"])
         (auto simp: settle_def [abs_def] delivery_failed_def split: prod.split_asm)
  next
    case (Inr u)
    with Cons.prems(3) res show ?thesis
      by (intro that [of "delivery_succeeded (clock (o_id item)) (o_id item) db" "sent - 1" "failed"])
         (auto simp: settle_def [abs_def] delivery_succeeded_def split: prod.split_asm)
  qed
  have "deliveries db' = settle_rows ?result clock items (deliveries db1) \<and> n + m = length items"
    by (rule Cons.IH [OF _ _ rest]) (use Cons.prems db1 in simp_all)
  with Cons.prems(1) nm show ?case by (simp add: db1 settle_rows_Cons)
qed

lemma flush_outbox_rows:
  assumes "distinct (map o_id (deliveries db))" and "flush_outbox send hec fs s now clock db = (db', sent, failed)"
  shows "sent + failed = length (pending_deliveries now 25 db) \<and> length (pending_deliveries now 25 db) \<le> 25 \<and>
    (\<forall>r \<in> set (deliveries db). get_by o_id (o_id r) (deliveries db') =
      Some (if r \<notin> set (pending_deliveries now 25 db) then r
            else case send_item send hec fs s db r of
              Inr _ \<Rightarrow> mark_sent (clock (o_id r)) r
            | Inl e \<Rightarrow> mark_undelivered (clock (o_id r)) r (snd e) r))"
proof -
  let ?due = "pending_deliveries now 25 db" and ?result = "send_item send hec fs s db"
  have sub: "set ?due \<subseteq> set (deliveries db)"
    by (auto simp: pending_deliveries_def dest!: in_set_takeD)
  have "distinct (map o_id (filter (delivery_due now) (deliveries db)))"
    using assms(1) by (rule distinct_map_filter)
  then have "distinct (map o_id (order_by o_created_at (filter (delivery_due now) (deliveries db))))"
    by (simp add: order_by_def distinct_map)
  then have dist: "distinct (map o_id ?due)"
    unfolding pending_deliveries_def by (simp add: distinct_take flip: take_map)
  have rows: "deliveries db' = settle_rows ?result clock ?due (deliveries db)" "sent + failed = length ?due"
    using flush_items_rows [OF dist refl] assms(2) unfolding flush_outbox_def by blast+
  have row: "(case get_by o_id (o_id r) ?due of None \<Rightarrow> r | Some item \<Rightarrow> settle ?result clock item r) =
      (if r \<notin> set ?due then r else settle ?result clock r r)" if r: "r \<in> set (deliveries db)" for r
  proof (cases "get_by o_id (o_id r) ?due")
    case None
    then have "r \<notin> set ?due" by (auto simp: get_by_None_iff)
    with None show ?thesis by simp
  next
    case (Some item)
    then have "item \<in> set ?due" "o_id item = o_id r" using get_by_SomeD [OF Some] by simp_all
    then have "item = r" using sub r assms(1) by (auto simp: distinct_map dest: inj_onD)
    with Some \<open>item \<in> set ?due\<close> show ?thesis by simp
  qed
  have "map o_id (deliveries db') = map o_id (deliveries db)"
    unfolding rows(1) settle_rows_def by (simp split: option.split)
  then have dist': "distinct (map o_id (deliveries db'))" using assms(1) by simp
  have "get_by o_id (o_id r) (deliveries db') = Some (if r \<notin> set ?due then r else settle ?result clock r r)"
    if r: "r \<in> set (deliveries db)" for r
  proof -
    have "(if r \<notin> set ?due then r else settle ?result clock r r) \<in> set (deliveries db')"
      unfolding rows(1) settle_rows_def using r row [OF r] by force
    from get_by_unique [of o_id, OF dist' this] show ?thesis by (simp split: if_split_asm)
  qed
  then show ?thesis using rows(2) by (simp add: settle_def pending_deliveries_def)
qed

text \<open>
  C20: Flushing tries every due delivery exactly once, and one that fails does not disturb the
  others: of the at most 25 deliveries taken, each ends as its own attempt says, sent or failed
  with its error, the counts add up, and every other delivery is untouched.
\<close>

theorem flush_isolates_failures:
  assumes "distinct (map o_id (deliveries db))" and "flush_outbox send hec fs s now clock db = (db', sent, failed)"
  shows "sent + failed = length (pending_deliveries now 25 db) \<and> length (pending_deliveries now 25 db) \<le> 25 \<and>
    (\<forall>r \<in> set (deliveries db). get_by o_id (o_id r) (deliveries db') =
      Some (if r \<notin> set (pending_deliveries now 25 db) then r
            else case send_item send hec fs s db r of
              Inr _ \<Rightarrow> mark_sent (clock (o_id r)) r
            | Inl e \<Rightarrow> mark_undelivered (clock (o_id r)) r (snd e) r))"
  using flush_outbox_rows [OF assms] .

definition two_deliveries :: "outbox list" where
  "two_deliveries =
     [\<lparr>o_id = ''d1'', o_channel = ''unknown'', o_target_id = [], o_payload_json = ''{}'', o_status = Delivery_pending,
       o_attempts = 0, o_max_attempts = 10, o_available_at = 0, o_last_error = [], o_created_at = 0, o_updated_at = 0\<rparr>,
      \<lparr>o_id = ''d2'', o_channel = ''teams'', o_target_id = ''a'', o_payload_json = dumps (JObj [(''card'', JNull)]),
       o_status = Delivery_pending, o_attempts = 0, o_max_attempts = 10, o_available_at = 0, o_last_error = [],
       o_created_at = 0, o_updated_at = 0\<rparr>]"

definition delivery_db :: database where
  "delivery_db = empty_database\<lparr>deliveries := two_deliveries, installs := [sample_destination True ''a'']\<rparr>"

definition accepting :: "(string \<Rightarrow> json \<Rightarrow> exc + unit) option" where
  "accepting = Some (\<lambda>_ _. Inr ())"

lemma delivery_db_facts:
  "distinct (map o_id (deliveries delivery_db))"
  "pending_deliveries 1 25 delivery_db = two_deliveries"
  "map o_id two_deliveries = [''d1'', ''d2'']"
  "send_item accepting hec fs s delivery_db (two_deliveries ! 0) = Inl (RuntimeError, ''unknown outbox channel unknown'')"
  "send_item accepting hec fs s delivery_db (two_deliveries ! 1) = Inr ()"
proof -
  have l: "loads (Some (dumps (JObj [(''card'', JNull)]))) (JObj []) = JObj [(''card'', JNull)]" by code_simp
  show "distinct (map o_id (deliveries delivery_db))" "map o_id two_deliveries = [''d1'', ''d2'']"
    by (simp_all add: delivery_db_def two_deliveries_def)
  show "pending_deliveries 1 25 delivery_db = two_deliveries"
    by (simp add: pending_deliveries_def delivery_due_def delivery_db_def two_deliveries_def order_by_def)
  show "send_item accepting hec fs s delivery_db (two_deliveries ! 0) = Inl (RuntimeError, ''unknown outbox channel unknown'')"
    "send_item accepting hec fs s delivery_db (two_deliveries ! 1) = Inr ()"
    by (simp_all add: send_item_def two_deliveries_def delivery_db_def installations_def order_by_def
        sample_destination_def accepting_def l subscript_def)
qed

lemma flush_isolates_failures_witness:
  "\<exists>db' sent failed r1 r2. flush_outbox accepting (\<lambda>_ _. Inr ()) (\<lambda>_. None) default_settings 1 (\<lambda>_. 1) delivery_db = (db', sent, failed) \<and>
    get_by o_id ''d1'' (deliveries db') = Some r1 \<and> o_status r1 = Delivery_retry \<and>
    get_by o_id ''d2'' (deliveries db') = Some r2 \<and> o_status r2 = Delivery_sent"
proof -
  obtain db' sent failed where f: "flush_outbox accepting (\<lambda>_ _. Inr ()) (\<lambda>_. None) default_settings 1 (\<lambda>_. 1) delivery_db = (db', sent, failed)"
    by (metis prod_cases3)
  note rows = flush_isolates_failures [OF delivery_db_facts(1) f]
  have d: "deliveries delivery_db = two_deliveries" "two_deliveries ! 0 \<in> set two_deliveries" "two_deliveries ! 1 \<in> set two_deliveries"
    "o_id (two_deliveries ! 0) = ''d1''" "o_id (two_deliveries ! 1) = ''d2''"
    "o_attempts (two_deliveries ! 0) = 0" "o_max_attempts (two_deliveries ! 0) = 10"
    by (simp_all add: delivery_db_def two_deliveries_def)
  have "get_by o_id ''d1'' (deliveries db') =
      Some (mark_undelivered 1 (two_deliveries ! 0) ''unknown outbox channel unknown'' (two_deliveries ! 0))"
    "get_by o_id ''d2'' (deliveries db') = Some (mark_sent 1 (two_deliveries ! 1))"
    using rows d(1-5) delivery_db_facts(2,4,5) by force+
  with f d(6,7) show ?thesis by (simp add: mark_undelivered_def mark_sent_def Let_def)
qed

text \<open>
  C19: A card leaves only for a destination that is enabled and active at that moment: if a flush
  turns a Teams delivery into a sent one, its target exists, is enabled and active, and the
  gateway accepted the stored card for that destination's conversation.
\<close>

theorem cards_only_to_enabled:
  assumes "distinct (map o_id (deliveries db))" and "flush_outbox send hec fs s now clock db = (db', sent, failed)"
    and "r \<in> set (deliveries db)" and "o_channel r = ''teams''" and "o_status r \<noteq> Delivery_sent"
    and "get_by o_id (o_id r) (deliveries db') = Some r'" and "o_status r' = Delivery_sent"
  shows "\<exists>t send_card card. send = Some send_card \<and> t \<in> set (installs db) \<and> t_id t = o_target_id r \<and>
    t_enabled t \<and> t_active t \<and>
    (\<exists>d. loads (Some (o_payload_json r)) (JObj []) = JObj d \<and> dict_get d ''card'' = Some card) \<and>
    send_card (t_reference_json t) card = Inr ()"
proof -
  let ?due = "pending_deliveries now 25 db" and ?result = "send_item send hec fs s db"
  have "Some r' = Some (if r \<notin> set ?due then r
            else case ?result r of Inr _ \<Rightarrow> mark_sent (clock (o_id r)) r | Inl e \<Rightarrow> mark_undelivered (clock (o_id r)) r (snd e) r)"
    using flush_outbox_rows [OF assms(1,2)] assms(3,6) by metis
  then have "\<exists>u. ?result r = Inr u"
    using assms(5,7) by (auto simp: mark_undelivered_def Let_def split: if_split_asm sum.split_asm)
  then obtain u where ok: "?result r = Inr u" by blast
  then obtain send_card where sc: "send = Some send_card"
    using assms(4) by (cases send) (simp_all add: send_item_def Let_def)
  with ok assms(4) obtain t where t: "find (\<lambda>t. t_id t = o_target_id r) (installations False db) = Some t"
    by (cases "find (\<lambda>t. t_id t = o_target_id r) (installations False db)") (simp_all add: send_item_def Let_def)
  with ok sc assms(4) have act: "t_active t" "t_enabled t"
    by (simp_all add: send_item_def Let_def split: if_split_asm)
  with ok sc t assms(4) obtain d where d: "loads (Some (o_payload_json r)) (JObj []) = JObj d"
    "bind_result (subscript d ''card'') (send_card (t_reference_json t)) = Inr u"
    by (cases "loads (Some (o_payload_json r)) (JObj [])") (simp_all add: send_item_def Let_def)
  then obtain card where "dict_get d ''card'' = Some card" "send_card (t_reference_json t) card = Inr ()"
    by (auto simp: bind_result_Inr_iff subscript_def split: option.split_asm)
  moreover have "t \<in> set (installs db)" "t_id t = o_target_id r"
    using find_Some_mem [OF t] by (simp_all add: installations_def)
  ultimately show ?thesis using sc act d(1) by blast
qed

lemma cards_only_to_enabled_witness:
  "\<exists>db' sent failed r'. flush_outbox accepting (\<lambda>_ _. Inr ()) (\<lambda>_. None) default_settings 1 (\<lambda>_. 1) delivery_db = (db', sent, failed) \<and>
    get_by o_id ''d2'' (deliveries db') = Some r' \<and> o_status r' = Delivery_sent \<and>
    (\<exists>t \<in> set (installs delivery_db). t_id t = ''a'' \<and> t_enabled t \<and> t_active t)"
proof -
  obtain db' sent failed where f: "flush_outbox accepting (\<lambda>_ _. Inr ()) (\<lambda>_. None) default_settings 1 (\<lambda>_. 1) delivery_db = (db', sent, failed)"
    by (metis prod_cases3)
  let ?r = "two_deliveries ! 1"
  have d: "?r \<in> set (deliveries delivery_db)" "o_id ?r = ''d2''" "o_channel ?r = ''teams''" "o_status ?r \<noteq> Delivery_sent"
    "o_target_id ?r = ''a''" "?r \<in> set two_deliveries"
    by (simp_all add: delivery_db_def two_deliveries_def)
  have row: "get_by o_id (o_id ?r) (deliveries db') = Some (mark_sent 1 ?r)"
    using flush_outbox_rows [OF delivery_db_facts(1) f] d delivery_db_facts(2,5) by force
  have "o_status (mark_sent 1 ?r) = Delivery_sent" by (simp add: mark_sent_def)
  from cards_only_to_enabled [OF delivery_db_facts(1) f d(1,3,4) row this] d(2,5) row this f show ?thesis by auto
qed

end
