(* ===== verification/ConfigFacts.thy ===== *)
theory ConfigFacts
  imports Config
begin

text \<open>
  Correctness of the configuration layer: what \<open>parse_token_records\<close> accepts, that a
  verifier accepts exactly the tokens with the stored derived key, and what a successful
  start-up validation guarantees.
\<close>

section \<open>Token records\<close>

definition ok_record :: "token_record \<Rightarrow> bool" where
  "ok_record r = (tr_name r \<noteq> [] \<and> match_verifier (tr_verifier r) \<noteq> None \<and>
     tr_scopes r \<noteq> {} \<and> tr_scopes r \<subseteq> ALL_SCOPES)"

lemma parse_record_ok:
  "parse_record names item = Inr r \<Longrightarrow> ok_record r \<and> tr_name r \<notin> names"
  by (auto simp: parse_record_def ok_record_def Let_def split: list.splits if_splits)

lemma parse_items_ok:
  "parse_items names items = Inr rs \<Longrightarrow>
    length rs = length items \<and> list_all ok_record rs \<and> distinct (map tr_name rs) \<and>
    tr_name ` set rs \<inter> names = {}"
  by (induction items arbitrary: names rs) (fastforce simp: bind_result_Inr_iff dest: parse_record_ok)+

section \<open>Verifiers\<close>

lemma hex_val_hex_digit: "n < 16 \<Longrightarrow> hex_val (hex_digit n) = Some n"
  by (auto simp: hex_val_def hex_digit_def code_of_def Let_def)

lemma is_lower_hex_digit: "n < 16 \<Longrightarrow> is_lower_hex (hex_digit n)"
  by (auto simp: is_lower_hex_def is_digit_def hex_digit_def code_of_def)

lemma bytes_fromhex_hex: "bytes_fromhex (hex_of_bytes b) = Inr b"
proof (induction b)
  case (Cons c b)
  have "code_of c div 16 < 16" using code_of_less [of c] by linarith
  moreover have "code_of c div 16 * 16 + code_of c mod 16 = code_of c" by simp
  ultimately show ?case
    using Cons.IH by (simp add: hex_of_bytes_def hex_val_hex_digit)
qed (simp add: hex_of_bytes_def)

lemma length_hex_of_bytes [simp]: "length (hex_of_bytes b) = 2 * length b"
  by (induction b) (simp_all add: hex_of_bytes_def)

lemma hex_of_bytes_lower: "list_all is_lower_hex (hex_of_bytes b)"
proof (induction b)
  case (Cons c b)
  have "code_of c div 16 < 16" using code_of_less [of c] by linarith
  then show ?case using Cons.IH by (simp add: hex_of_bytes_def is_lower_hex_digit)
qed (simp add: hex_of_bytes_def)

lemma lower_hex_not_underscore: "is_lower_hex c \<Longrightarrow> c \<noteq> CHR ''_''"
  by (auto simp: is_lower_hex_def is_digit_def code_of_def)

lemma after_last_snoc:
  "CHR ''_'' \<notin> set d \<Longrightarrow> after_last (CHR ''_'') (p @ CHR ''_'' # d) = d"
proof -
  assume d: "CHR ''_'' \<notin> set d"
  have "takeWhile (\<lambda>x. x \<noteq> CHR ''_'') (rev d @ CHR ''_'' # rev p) = rev d"
    using d by (subst takeWhile_append2) auto
  then show ?thesis by (simp add: after_last_def)
qed

lemma after_last_verifier:
  "after_last (CHR ''_'') (p @ ''_'' @ hex_of_bytes d) = hex_of_bytes d"
  using after_last_snoc [of "hex_of_bytes d" p] hex_of_bytes_lower [of d] lower_hex_not_underscore
  by (auto simp: list_all_iff)

lemma match_verifier_make:
  assumes "length salt = 16" and "length d = 32"
  shows "match_verifier (verifier_prefix @ hex_of_bytes salt @ ''_'' @ hex_of_bytes d)
    = Some (hex_of_bytes salt, hex_of_bytes d)"
  using assms hex_of_bytes_lower by (simp add: match_verifier_def Let_def)

lemma hex_of_bytes_inject [simp]: "hex_of_bytes a = hex_of_bytes b \<longleftrightarrow> a = b"
  by (metis bytes_fromhex_hex sum.inject(2))

lemma is_lower_hex_val: "is_lower_hex c \<Longrightarrow> \<exists>n. hex_val c = Some n \<and> n < 16"
  by (auto simp: is_lower_hex_def is_digit_def hex_val_def Let_def)

lemma bytes_fromhex_total:
  "list_all is_lower_hex h \<Longrightarrow> even (length h) \<Longrightarrow> \<exists>b. bytes_fromhex h = Inr b \<and> length h = 2 * length b"
proof (induction h rule: bytes_fromhex.induct)
  case (3 a b s)
  obtain x y where "hex_val a = Some x" "hex_val b = Some y"
    using "3.prems"(1) is_lower_hex_val [of a] is_lower_hex_val [of b] by auto
  with 3 show ?case by fastforce
qed auto

text \<open>A well-formed verifier never makes the check raise.\<close>

lemma verify_token_total: "\<exists>b. verify_token kdf rnd token verifier = Inr b"
proof (cases "match_verifier verifier")
  case (Some p)
  then obtain h e where p: "p = (h, e)" and "list_all is_lower_hex h" and "length h = 32"
    by (auto simp: match_verifier_def Let_def split: if_splits list.splits)
  then obtain b where "bytes_fromhex h = Inr b" and "length b = 16"
    using bytes_fromhex_total [of h] by auto
  then show ?thesis
    using Some p by (auto simp: verify_token_def make_token_verifier_def)
qed (auto simp: verify_token_def)

section \<open>What the configuration layer guarantees\<close>

text \<open>
  \<^verbatim>\<open>parse_token_records\<close> is strict: when it accepts a specification, every non-empty
  item became one record, in order, each with a non-empty name, a well-formed scrypt verifier
  and a non-empty set of known scopes, and no two records share a name.
\<close>

theorem parse_token_records_strict:
  assumes "parse_token_records raw = Inr rs"
  shows "length rs = length (record_items raw) \<and> distinct (map tr_name rs) \<and>
    (\<forall>r \<in> set rs. tr_name r \<noteq> [] \<and> match_verifier (tr_verifier r) \<noteq> None \<and>
      tr_scopes r \<noteq> {} \<and> tr_scopes r \<subseteq> ALL_SCOPES)"
  using parse_items_ok [of "{}" "record_items raw" rs] assms
  by (auto simp: parse_token_records_def list_all_iff ok_record_def)

definition sample_verifier :: string where
  "sample_verifier = verifier_prefix @ replicate 32 (CHR ''0'') @ ''_'' @ replicate 64 (CHR ''a'')"

lemma sample_records:
  "parse_token_records (''op:'' @ sample_verifier @ '':jobs:read, admin; '') =
    Inr [\<lparr>tr_name = ''op'', tr_verifier = sample_verifier, tr_scopes = {''jobs:read'', ''admin''}\<rparr>]"
  by code_simp

lemma parse_token_records_strict_witness:
  "\<exists>rs. parse_token_records (''op:'' @ sample_verifier @ '':jobs:read, admin; '') = Inr rs \<and>
    length rs = 1 \<and> (\<forall>r \<in> set rs. tr_scopes r \<subseteq> ALL_SCOPES)"
  using parse_token_records_strict [OF sample_records] sample_records by auto

text \<open>
  A verifier made from one token accepts exactly the tokens that have the same derived key
  under its salt; the check never raises on it. The derived key is 32 bytes long, as
  \<^verbatim>\<open>dklen=32\<close> asks.
\<close>

theorem verify_token_exact:
  assumes "\<And>t s. length (kdf t s) = 32" and "length salt = 16"
    and "make_token_verifier kdf urandom token salt = Inr v"
  shows "verify_token kdf urandom token' v = Inr (kdf token' salt = kdf token salt)"
proof -
  have ne: "salt \<noteq> []" using assms(2) by auto
  then have v: "v = verifier_prefix @ hex_of_bytes salt @ ''_'' @ hex_of_bytes (kdf token salt)"
    using assms(2,3) by (simp add: make_token_verifier_def)
  have last: "after_last (CHR ''_'') (verifier_prefix @ hex_of_bytes salt @ ''_'' @ hex_of_bytes d)
      = hex_of_bytes d" for d
    using after_last_verifier [of "verifier_prefix @ hex_of_bytes salt" d] by simp
  show ?thesis
    using assms ne match_verifier_make [of salt "kdf token salt"] last [of "kdf token' salt"]
    by (simp add: v verify_token_def bytes_fromhex_hex make_token_verifier_def)
qed

definition sample_kdf :: "string \<Rightarrow> string \<Rightarrow> string" where
  "sample_kdf t s = take 32 (t @ replicate 32 (CHR ''.''))"

lemma verify_token_exact_witness:
  "\<exists>v. make_token_verifier sample_kdf [] ''token'' (replicate 16 (CHR ''s'')) = Inr v \<and>
    verify_token sample_kdf [] ''token'' v = Inr True \<and>
    verify_token sample_kdf [] ''wrong'' v = Inr False"
proof -
  obtain v where v: "make_token_verifier sample_kdf [] ''token'' (replicate 16 (CHR ''s'')) = Inr v"
    by (simp add: make_token_verifier_def Let_def)
  have k: "\<And>t s. length (sample_kdf t s) = 32" by (simp add: sample_kdf_def)
  have "verify_token sample_kdf [] t v
      = Inr (sample_kdf t (replicate 16 (CHR ''s'')) = sample_kdf ''token'' (replicate 16 (CHR ''s'')))" for t
    by (rule verify_token_exact [OF k _ v]) simp
  with v show ?thesis by (simp add: sample_kdf_def)
qed

section \<open>Start-up validation\<close>

lemma complain_Nil_iff [simp]: "complain b m = [] \<longleftrightarrow> \<not> b"
  by (simp add: complain_def)

lemma path_errors_Nil_iff:
  "path_errors fs s = [] \<longleftrightarrow> (\<forall>(name, path) \<in> set (secret_paths s). \<forall>p. path = Some p \<longrightarrow> private_file fs p)"
  by (auto simp: path_errors_def split: option.splits)

lemmas integration_errors_defs =
  splunk_errors_def hec_errors_def adx_errors_def confluence_errors_def teams_errors_def

lemma validate_runtime_ok_iff:
  "validate_runtime fs w s r = Inr () \<longleftrightarrow>
    (\<exists>records. token_records s = Inr records \<and> core_errors records s = []) \<and>
    path_errors fs s = [] \<and> splunk_errors fs s = Inr [] \<and> hec_errors fs s = Inr [] \<and>
    adx_errors fs s = Inr [] \<and> confluence_errors fs s = Inr [] \<and> teams_errors fs s = Inr [] \<and>
    host_errors w s r = []"
  by (auto simp: validate_runtime_def bind_result_Inr_iff Let_def)

text \<open>
  A configuration that passes \<^verbatim>\<open>validate_runtime\<close> has at least one token record, the
  pinned model runtime version and the data policy acknowledgement; every configured backend
  URL is HTTPS and comes with a non-empty secret; every configured secret file is private; the
  Splunk results index is one of the allowed indexes; Teams, when enabled, has an allowlist of
  tenants; and a production process binds to the loopback interface.
\<close>

theorem validate_runtime_safe:
  assumes "validate_runtime fs writable s r = Inr ()"
  shows "(\<exists>records. token_records s = Inr records \<and> records \<noteq> []) \<and>
    pi_expected_version s = PI_VERSION \<and> model_data_policy_ack s \<and>
    (\<forall>name p. (name, Some p) \<in> set (secret_paths s) \<longrightarrow> private_file fs p) \<and>
    (splunk_base_url s \<noteq> [] \<longrightarrow> is_https (splunk_base_url s) \<and>
       splunk_results_index s \<in> allowed_splunk_indexes s \<and>
       (\<exists>t. secret_value fs s Secret_splunk = Inr t \<and> t \<noteq> [])) \<and>
    (splunk_hec_url s \<noteq> [] \<longrightarrow> is_https (splunk_hec_url s)) \<and>
    (adx_cluster_url s \<noteq> [] \<longrightarrow> is_https (adx_cluster_url s) \<and>
       (\<exists>t. secret_value fs s Secret_adx = Inr t \<and> t \<noteq> [])) \<and>
    (confluence_base_url s \<noteq> [] \<longrightarrow> is_https (confluence_base_url s) \<and>
       (\<exists>t. secret_value fs s Secret_confluence = Inr t \<and> t \<noteq> [])) \<and>
    (teams_enabled s \<longrightarrow> allowed_teams_tenants s \<noteq> {} \<and>
       (\<exists>t. secret_value fs s Secret_teams = Inr t \<and> t \<noteq> [])) \<and>
    (environment s = ''production'' \<longrightarrow> host s \<in> {''127.0.0.1'', ''::1''}) \<and>
    (r = Role_worker \<longrightarrow> writable)"
proof -
  note ok = assms [unfolded validate_runtime_ok_iff]
  have core: "\<exists>records. token_records s = Inr records \<and> records \<noteq> []"
    "pi_expected_version s = PI_VERSION" "model_data_policy_ack s"
    using ok by (auto simp: core_errors_def)
  have paths: "\<forall>name p. (name, Some p) \<in> set (secret_paths s) \<longrightarrow> private_file fs p"
    using ok by (auto simp: path_errors_Nil_iff)
  have splunk: "splunk_base_url s \<noteq> [] \<longrightarrow> is_https (splunk_base_url s) \<and>
      splunk_results_index s \<in> allowed_splunk_indexes s \<and>
      (\<exists>t. secret_value fs s Secret_splunk = Inr t \<and> t \<noteq> [])"
    using ok by (auto simp: splunk_errors_def bind_result_Inr_iff Let_def split: if_splits)
  have rest: "splunk_hec_url s \<noteq> [] \<longrightarrow> is_https (splunk_hec_url s)"
    "adx_cluster_url s \<noteq> [] \<longrightarrow> is_https (adx_cluster_url s) \<and>
       (\<exists>t. secret_value fs s Secret_adx = Inr t \<and> t \<noteq> [])"
    "confluence_base_url s \<noteq> [] \<longrightarrow> is_https (confluence_base_url s) \<and>
       (\<exists>t. secret_value fs s Secret_confluence = Inr t \<and> t \<noteq> [])"
    "teams_enabled s \<longrightarrow> allowed_teams_tenants s \<noteq> {} \<and>
       (\<exists>t. secret_value fs s Secret_teams = Inr t \<and> t \<noteq> [])"
    using ok by (auto simp: integration_errors_defs bind_result_Inr_iff Let_def split: if_splits)
  have host: "environment s = ''production'' \<longrightarrow> host s \<in> {''127.0.0.1'', ''::1''}"
    "r = Role_worker \<longrightarrow> writable"
    using ok by (auto simp: host_errors_def)
  show ?thesis using core paths splunk rest host by blast
qed

definition sample_settings :: settings where
  "sample_settings = default_settings\<lparr>
     api_token_records := ''op:'' @ sample_verifier @ '':jobs:read, admin; '',
     pi_provider := ''openrouter'', pi_model := ''test/model'', model_data_policy_ack := True,
     splunk_base_url := ''https://splunk.example'', splunk_username := ''svc'',
     splunk_password_file := Some ''/run/secrets/splunk'',
     splunk_allowed_indexes := ''security, detection_results'',
     splunk_results_index := ''detection_results''\<rparr>"

definition sample_files :: file_system where
  "sample_files p = (if p = ''/run/secrets/splunk''
     then Some \<lparr>file_content = ''s3cret'', file_mode = 384\<rparr> else None)"

lemma sample_settings_sel:
  "api_token_records sample_settings = ''op:'' @ sample_verifier @ '':jobs:read, admin; ''"
  "splunk_hec_url sample_settings = []" "adx_cluster_url sample_settings = []"
  "confluence_base_url sample_settings = []" "\<not> teams_enabled sample_settings"
  "splunk_base_url sample_settings = ''https://splunk.example''"
  "splunk_username sample_settings = ''svc''"
  "splunk_password sample_settings = None"
  "splunk_password_file sample_settings = Some ''/run/secrets/splunk''"
  "splunk_results_index sample_settings = ''detection_results''"
  "splunk_allowed_indexes sample_settings = ''security, detection_results''"
  "pi_expected_version sample_settings = PI_VERSION" "model_data_policy_ack sample_settings"
  "pi_provider sample_settings = ''openrouter''" "pi_model sample_settings = ''test/model''"
  "host sample_settings = ''127.0.0.1''"
  by (simp_all add: sample_settings_def default_settings_def)

lemma sample_settings_indexes:
  "allowed_splunk_indexes sample_settings = {''security'', ''detection_results''}"
  unfolding allowed_splunk_indexes_def sample_settings_sel by code_simp

lemma sample_settings_ok:
  "validate_runtime sample_files True sample_settings Role_worker = Inr ()"
proof -
  have "path_errors sample_files sample_settings = []"
    by (simp add: path_errors_def secret_paths_def sample_settings_def default_settings_def
        private_file_def sample_files_def)
  moreover have "splunk_errors sample_files sample_settings = Inr []"
    unfolding splunk_errors_def sample_settings_indexes sample_settings_sel
    by (simp add: is_https_def starts_with_def sample_settings_sel read_secret_def sample_files_def
        strip_id is_space_def code_of_def)
  ultimately show ?thesis
    unfolding validate_runtime_ok_iff token_records_def sample_settings_sel sample_records
    by (simp add: core_errors_def hec_errors_def adx_errors_def confluence_errors_def
        teams_errors_def host_errors_def sample_settings_sel)
qed

lemma validate_runtime_safe_witness:
  "(\<exists>t. secret_value sample_files sample_settings Secret_splunk = Inr t \<and> t \<noteq> []) \<and>
    private_file sample_files ''/run/secrets/splunk''"
  using validate_runtime_safe [OF sample_settings_ok]
  by (simp add: sample_settings_sel secret_paths_def)

end
