(* ===== verification/Auth.thy ===== *)
theory Auth
  imports ConfigFacts Models
begin

text \<open>
  \<^verbatim>\<open>src/sprinter/auth.py\<close>: bearer-token authentication, the sliding-window rate limiter and
  the scope check every protected route depends on. The audit sink (\<^verbatim>\<open>container.audit\<close>) and
  the state it writes to are parameters, so that the API layer plugs in the database; the
  credentials are what the framework's bearer parser extracted (scheme and token), if anything.
\<close>

section \<open>Principals\<close>

record principal =
  p_name :: string
  p_scopes :: "string set"

definition permits :: "principal \<Rightarrow> string \<Rightarrow> bool" where
  "permits p scope = (''admin'' \<in> p_scopes p \<or> scope \<in> p_scopes p)"

text \<open>
  \<^verbatim>\<open>TokenAuthenticator.authenticate\<close> checks every record, without an early exit, and keeps
  the last one whose verifier accepts the token.
\<close>

fun match_records ::
  "(string \<Rightarrow> string \<Rightarrow> exc + bool) \<Rightarrow> string \<Rightarrow> token_record option \<Rightarrow> token_record list \<Rightarrow> exc + token_record option"
where
  "match_records verify token matched [] = Inr matched"
| "match_records verify token matched (r # rs) =
     bind_result (verify token (tr_verifier r)) (\<lambda>ok.
       match_records verify token (if ok then Some r else matched) rs)"

definition authenticate ::
  "(string \<Rightarrow> string \<Rightarrow> exc + bool) \<Rightarrow> token_record list \<Rightarrow> string \<Rightarrow> exc + principal option"
where
  "authenticate verify records token =
     bind_result (match_records verify token None records) (\<lambda>m.
       Inr (map_option (\<lambda>r. \<lparr>p_name = tr_name r, p_scopes = tr_scopes r\<rparr>) m))"

section \<open>The rate limiter\<close>

record limiter =
  l_limit :: nat
  l_events :: "string \<Rightarrow> instant list"

definition new_limiter :: "nat \<Rightarrow> limiter" where
  "new_limiter n = \<lparr>l_limit = n, l_events = (\<lambda>_. [])\<rparr>"

definition check :: "string \<Rightarrow> instant \<Rightarrow> limiter \<Rightarrow> bool \<times> limiter" where
  "check key now l =
     (let cutoff = now - seconds 60;
          events = dropWhile (\<lambda>t. t < cutoff) (l_events l key) in
      if length events \<ge> l_limit l then (False, l\<lparr>l_events := (l_events l)(key := events)\<rparr>)
      else (True, l\<lparr>l_events := (l_events l)(key := events @ [now])\<rparr>))"

section \<open>The route dependency\<close>

record 'db auth_state =
  as_limiter :: limiter
  as_db :: 'db

definition require_scope ::
  "(string \<Rightarrow> string \<Rightarrow> json \<Rightarrow> 'db \<Rightarrow> 'db) \<Rightarrow> (string \<Rightarrow> string \<Rightarrow> exc + bool) \<Rightarrow> token_record list \<Rightarrow>
   string \<Rightarrow> (string \<times> string) option \<Rightarrow> string option \<Rightarrow> instant \<Rightarrow> 'db auth_state \<Rightarrow>
   'db auth_state \<times> (exc + principal)"
where
  "require_scope audit verify records scope credentials client_host now s =
     (let deny = (\<lambda>event actor payload e. (s\<lparr>as_db := audit event actor payload (as_db s)\<rparr>, Inl e)) in
      case credentials of
        None \<Rightarrow> deny ''auth.failed'' ''anonymous'' (JObj [(''reason'', JStr ''missing_token'')])
                  (HTTPException 401, ''missing bearer token'')
      | Some (scheme, token) \<Rightarrow>
          if lower scheme \<noteq> ''bearer''
          then deny ''auth.failed'' ''anonymous'' (JObj [(''reason'', JStr ''missing_token'')])
                 (HTTPException 401, ''missing bearer token'')
          else (case authenticate verify records token of
             Inl e \<Rightarrow> (s, Inl e)
           | Inr None \<Rightarrow> deny ''auth.failed'' ''anonymous'' (JObj [(''reason'', JStr ''invalid_token'')])
                           (HTTPException 401, ''invalid bearer token'')
           | Inr (Some p) \<Rightarrow>
               (let client = (case client_host of None \<Rightarrow> ''unknown'' | Some h \<Rightarrow> h);
                    (admitted, l) = check (p_name p @ '':'' @ client) now (as_limiter s);
                    s' = s\<lparr>as_limiter := l\<rparr> in
                if \<not> admitted
                then (s'\<lparr>as_db := audit ''rate_limited'' (p_name p) (JObj [(''client'', JStr client)]) (as_db s)\<rparr>,
                      Inl (HTTPException 429, ''rate limit exceeded''))
                else if \<not> permits p scope
                then (s'\<lparr>as_db := audit ''auth.forbidden'' (p_name p)
                        (JObj [(''required_scope'', JStr scope)]) (as_db s)\<rparr>,
                      Inl (HTTPException 403, ''insufficient scope''))
                else (s', Inr p))))"

section \<open>Authentication is exact\<close>

lemma match_records_eq:
  assumes "\<And>r. r \<in> set rs \<Longrightarrow> verify token (tr_verifier r) = Inr (accepts r)"
  shows "match_records verify token m rs =
    Inr (case filter accepts rs of [] \<Rightarrow> m | _ # _ \<Rightarrow> Some (last (filter accepts rs)))"
  using assms by (induction rs arbitrary: m) (auto split: list.splits)

lemma authenticate_eq:
  assumes "\<And>r. r \<in> set rs \<Longrightarrow> verify token (tr_verifier r) = Inr (accepts r)"
  shows "authenticate verify rs token =
    Inr (case filter accepts rs of [] \<Rightarrow> None
         | _ # _ \<Rightarrow> let r = last (filter accepts rs) in Some \<lparr>p_name = tr_name r, p_scopes = tr_scopes r\<rparr>)"
proof -
  have "match_records verify token None rs =
      Inr (case filter accepts rs of [] \<Rightarrow> None | _ # _ \<Rightarrow> Some (last (filter accepts rs)))"
    by (rule match_records_eq) (rule assms)
  then show ?thesis by (auto simp: authenticate_def Let_def split: list.splits)
qed

section \<open>Interface: admission over a sliding window\<close>

text \<open>
  What the routes rely on: a request is admitted exactly if fewer than \<open>limit\<close> requests of
  its key were admitted in the last \<open>window\<close>, as long as the clock does not run backwards.
  The provider keeps, per key, a log from which it may drop what left the window. From these
  laws follow, for any number of interleaved keys, the bound on every window and the absence
  of spurious refusals.
\<close>

fun run_calls :: "('k \<Rightarrow> int \<Rightarrow> 's \<Rightarrow> bool \<times> 's) \<Rightarrow> ('k \<times> int) list \<Rightarrow> 's \<Rightarrow> ('k \<times> int) list \<times> 's" where
  "run_calls admit [] s = ([], s)"
| "run_calls admit ((k, now) # calls) s =
     (let (ok, s') = admit k now s; (acc, s'') = run_calls admit calls s' in
      ((if ok then (k, now) # acc else acc), s''))"

definition times_of :: "'k \<Rightarrow> ('k \<times> int) list \<Rightarrow> int list" where
  "times_of k acc = map snd (filter (\<lambda>c. fst c = k) acc)"

definition in_window :: "int \<Rightarrow> int \<Rightarrow> int list \<Rightarrow> nat" where
  "in_window window w ts = length (filter (\<lambda>t. w \<le> t \<and> t \<le> w + window) ts)"

locale sliding_window =
  fixes admit :: "'k \<Rightarrow> int \<Rightarrow> 's \<Rightarrow> bool \<times> 's"
    and log :: "'s \<Rightarrow> 'k \<Rightarrow> int list"
    and limit :: "'s \<Rightarrow> nat"
    and window :: int
  assumes admit_iff: "sorted (log s k) \<Longrightarrow>
      fst (admit k now s) \<longleftrightarrow> length (filter (\<lambda>t. now - window \<le> t) (log s k)) < limit s"
    and log_admit: "sorted (log s k) \<Longrightarrow>
      log (snd (admit k now s)) k =
        filter (\<lambda>t. now - window \<le> t) (log s k) @ (if fst (admit k now s) then [now] else [])"
    and log_other: "k' \<noteq> k \<Longrightarrow> log (snd (admit k now s)) k' = log s k'"
    and limit_admit: "limit (snd (admit k now s)) = limit s"
begin

text \<open>The log agrees with the full history \<open>H\<close> on everything still in the window.\<close>

definition tracks :: "'s \<Rightarrow> int \<Rightarrow> ('k \<Rightarrow> int list) \<Rightarrow> bool" where
  "tracks s now H = (\<forall>k. sorted (log s k) \<and> (\<forall>t \<in> set (log s k) \<union> set (H k). t \<le> now) \<and>
     (\<forall>c \<ge> now - window. filter (\<lambda>t. c \<le> t) (log s k) = filter (\<lambda>t. c \<le> t) (H k)) \<and>
     (\<forall>w. in_window window w (H k) \<le> limit s))"

lemma in_window_snoc:
  assumes "\<forall>t \<in> set ts. t \<le> now" and "in_window window w ts \<le> n"
    and "length (filter (\<lambda>t. now - window \<le> t) ts) < n"
  shows "in_window window w (ts @ [now]) \<le> n"
proof (cases "w \<le> now \<and> now \<le> w + window")
  case True
  then have "filter (\<lambda>t. w \<le> t \<and> t \<le> w + window) ts = filter (\<lambda>t. w \<le> t) (filter (\<lambda>t. now - window \<le> t) ts)"
    using assms(1) by (auto intro!: filter_cong)
  then have "in_window window w ts < n"
    using assms(3) length_filter_le unfolding in_window_def by (metis le_less_trans)
  with True show ?thesis by (simp add: in_window_def)
next
  case False
  then show ?thesis using assms(2) by (auto simp: in_window_def)
qed

lemma tracks_admit:
  assumes tr: "tracks s t0 H" and now: "t0 \<le> now"
  shows "fst (admit k now s) \<longleftrightarrow> length (filter (\<lambda>t. now - window \<le> t) (H k)) < limit s"
    and "tracks (snd (admit k now s)) now
      (if fst (admit k now s) then H(k := H k @ [now]) else H)"
proof -
  let ?ok = "fst (admit k now s)" and ?s = "snd (admit k now s)"
  have sorted: "sorted (log s k)" and same: "\<And>c. t0 - window \<le> c \<Longrightarrow>
      filter (\<lambda>t. c \<le> t) (log s k) = filter (\<lambda>t. c \<le> t) (H k)"
    using tr by (simp_all add: tracks_def)
  show iff: "?ok \<longleftrightarrow> length (filter (\<lambda>t. now - window \<le> t) (H k)) < limit s"
    using admit_iff [OF sorted, of now] same [of "now - window"] now by simp
  have le: "\<forall>t \<in> set (log s k') \<union> set (H k'). t \<le> now" for k'
    using tr now by (force simp: tracks_def)
  show "tracks ?s now (if ?ok then H(k := H k @ [now]) else H)"
    unfolding tracks_def
  proof (intro allI)
    fix k'
    let ?H = "(if ?ok then H(k := H k @ [now]) else H) k'"
    show "sorted (log ?s k') \<and> (\<forall>t \<in> set (log ?s k') \<union> set ?H. t \<le> now) \<and>
      (\<forall>c \<ge> now - window. filter (\<lambda>t. c \<le> t) (log ?s k') = filter (\<lambda>t. c \<le> t) ?H) \<and>
      (\<forall>w. in_window window w ?H \<le> limit ?s)"
    proof (cases "k' = k")
      case False
      then show ?thesis using tr now le [of k'] log_other [OF False, of now s]
        by (auto simp: tracks_def limit_admit)
    next
      case True
      have log: "log ?s k = filter (\<lambda>t. now - window \<le> t) (log s k) @ (if ?ok then [now] else [])"
        by (rule log_admit [OF sorted])
      have "filter (\<lambda>t. c \<le> t) (filter (\<lambda>t. now - window \<le> t) (log s k)) = filter (\<lambda>t. c \<le> t) (H k)"
        if "now - window \<le> c" for c
        using that now same [of c] by (simp add: filter_filter) (smt (verit) filter_cong)
      moreover have "sorted (log ?s k)"
        using sorted le [of k] by (auto simp: log sorted_append sorted_wrt_filter)
      moreover have "in_window window w (H k @ [now]) \<le> limit s" if ?ok for w
        using that iff tr le [of k] by (intro in_window_snoc) (auto simp: tracks_def)
      moreover have "in_window window w (H k) \<le> limit s" for w
        using tr by (simp add: tracks_def)
      ultimately show ?thesis
        using True le [of k] by (auto simp: log limit_admit)
    qed
  qed
qed

lemma run_tracks:
  assumes "tracks s t0 H" and "sorted (map snd calls)" and "\<forall>c \<in> set calls. t0 \<le> snd c"
  shows "\<exists>t1. tracks (snd (run_calls admit calls s)) t1
      (\<lambda>k. H k @ times_of k (fst (run_calls admit calls s))) \<and>
    (\<forall>now. t0 \<le> now \<and> (\<forall>c \<in> set calls. snd c \<le> now) \<longrightarrow> t1 \<le> now)"
  using assms
proof (induction calls arbitrary: s t0 H)
  case Nil
  then show ?case by (auto simp: times_of_def)
next
  case (Cons c calls)
  obtain k' now where c: "c = (k', now)" by fastforce
  let ?ok = "fst (admit k' now s)" and ?s = "snd (admit k' now s)"
  let ?H = "if ?ok then H(k' := H k' @ [now]) else H"
  have "t0 \<le> now" using Cons.prems(3) by (simp add: c)
  then have "tracks ?s now ?H" by (rule tracks_admit(2) [OF Cons.prems(1)])
  then have "\<exists>t1. tracks (snd (run_calls admit calls ?s)) t1
      (\<lambda>k. ?H k @ times_of k (fst (run_calls admit calls ?s))) \<and>
    (\<forall>n. now \<le> n \<and> (\<forall>c \<in> set calls. snd c \<le> n) \<longrightarrow> t1 \<le> n)"
    by (rule Cons.IH) (use Cons.prems in \<open>auto simp: c\<close>)
  moreover have "(\<lambda>k. ?H k @ times_of k (fst (run_calls admit calls ?s))) =
      (\<lambda>k. H k @ times_of k (fst (run_calls admit (c # calls) s)))"
    by (rule ext) (auto simp: c times_of_def split: prod.splits)
  moreover have "snd (run_calls admit calls ?s) = snd (run_calls admit (c # calls) s)"
    by (auto simp: c split: prod.splits)
  ultimately show ?case using c by (metis list.set_intros(1) list.set_intros(2) snd_conv)
qed

lemma tracks_fresh: "(\<And>k. log s k = []) \<Longrightarrow> tracks s t0 (\<lambda>_. [])"
  by (simp add: tracks_def in_window_def)

lemma limit_run: "limit (snd (run_calls admit calls s)) = limit s"
  by (induction calls arbitrary: s) (auto split: prod.splits, metis limit_admit snd_conv)

lemma fresh_run_tracks:
  assumes "\<And>k. log s k = []" and "sorted (map snd calls)" and "\<forall>c \<in> set calls. snd c \<le> now"
  shows "\<exists>t1 \<le> now. tracks (snd (run_calls admit calls s)) t1 (\<lambda>k. times_of k (fst (run_calls admit calls s)))"
proof -
  let ?t0 = "case calls of [] \<Rightarrow> now | c # _ \<Rightarrow> snd c"
  have "\<forall>c \<in> set calls. ?t0 \<le> snd c" using assms(2) by (cases calls) auto
  moreover have "?t0 \<le> now" using assms(3) by (cases calls) auto
  ultimately show ?thesis
    using run_tracks [OF tracks_fresh [OF assms(1)], of calls ?t0] assms(2,3) by fastforce
qed

lemma window_bound:
  assumes "\<And>k. log s k = []" and "sorted (map snd calls)"
  shows "in_window window w (times_of k (fst (run_calls admit calls s))) \<le> limit s"
proof -
  obtain now where "\<forall>c \<in> set calls. snd c \<le> now"
    by (metis (no_types, lifting) List.finite_set Max_ge finite_imageI imageI)
  then show ?thesis
    using fresh_run_tracks [OF assms] limit_run by (metis tracks_def)
qed

lemma admission_exact:
  assumes "\<And>k. log s k = []" and "sorted (map snd calls)" and "\<forall>c \<in> set calls. snd c \<le> now"
  shows "fst (admit k now (snd (run_calls admit calls s))) \<longleftrightarrow>
    length (filter (\<lambda>t. now - window \<le> t) (times_of k (fst (run_calls admit calls s)))) < limit s"
  using fresh_run_tracks [OF assms] tracks_admit(1) by (metis limit_run)

end

lemma dropWhile_sorted: "sorted ts \<Longrightarrow> dropWhile (\<lambda>t. t < (c::int)) ts = filter (\<lambda>t. c \<le> t) ts"
  by (induction ts) (auto intro!: filter_True [symmetric])

interpretation rate: sliding_window check l_events l_limit "seconds 60"
proof
  fix s :: limiter and k k' :: string and now :: int
  show "sorted (l_events s k) \<Longrightarrow>
      fst (check k now s) \<longleftrightarrow> length (filter (\<lambda>t. now - seconds 60 \<le> t) (l_events s k)) < l_limit s"
    by (auto simp: check_def Let_def dropWhile_sorted)
  show "sorted (l_events s k) \<Longrightarrow> l_events (snd (check k now s)) k =
      filter (\<lambda>t. now - seconds 60 \<le> t) (l_events s k) @ (if fst (check k now s) then [now] else [])"
    by (auto simp: check_def Let_def dropWhile_sorted)
  show "k' \<noteq> k \<Longrightarrow> l_events (snd (check k now s)) k' = l_events s k'"
    by (simp add: check_def Let_def)
  show "l_limit (snd (check k now s)) = l_limit s"
    by (simp add: check_def Let_def)
qed

lemma require_scope_cases:
  assumes "require_scope audit verify records scope credentials client_host now s = (s', out)"
  obtains
    (missing) "\<forall>scheme token. credentials = Some (scheme, token) \<longrightarrow> lower scheme \<noteq> ''bearer''"
      "s' = s\<lparr>as_db := audit ''auth.failed'' ''anonymous'' (JObj [(''reason'', JStr ''missing_token'')]) (as_db s)\<rparr>"
      "out = Inl (HTTPException 401, ''missing bearer token'')"
  | (raised) scheme token e where "credentials = Some (scheme, token)" "lower scheme = ''bearer''"
      "authenticate verify records token = Inl e" "s' = s" "out = Inl e"
  | (invalid) scheme token where "credentials = Some (scheme, token)" "lower scheme = ''bearer''"
      "authenticate verify records token = Inr None"
      "s' = s\<lparr>as_db := audit ''auth.failed'' ''anonymous'' (JObj [(''reason'', JStr ''invalid_token'')]) (as_db s)\<rparr>"
      "out = Inl (HTTPException 401, ''invalid bearer token'')"
  | (limited) scheme token p client l where "credentials = Some (scheme, token)" "lower scheme = ''bearer''"
      "authenticate verify records token = Inr (Some p)"
      "check (p_name p @ '':'' @ client) now (as_limiter s) = (False, l)"
      "s' = s\<lparr>as_limiter := l, as_db := audit ''rate_limited'' (p_name p) (JObj [(''client'', JStr client)]) (as_db s)\<rparr>"
      "out = Inl (HTTPException 429, ''rate limit exceeded'')"
      "client = (case client_host of None \<Rightarrow> ''unknown'' | Some h \<Rightarrow> h)"
  | (forbidden) scheme token p client l where "credentials = Some (scheme, token)" "lower scheme = ''bearer''"
      "authenticate verify records token = Inr (Some p)" "\<not> permits p scope"
      "check (p_name p @ '':'' @ client) now (as_limiter s) = (True, l)"
      "s' = s\<lparr>as_limiter := l, as_db := audit ''auth.forbidden'' (p_name p) (JObj [(''required_scope'', JStr scope)]) (as_db s)\<rparr>"
      "out = Inl (HTTPException 403, ''insufficient scope'')"
      "client = (case client_host of None \<Rightarrow> ''unknown'' | Some h \<Rightarrow> h)"
  | (granted) scheme token p client l where "credentials = Some (scheme, token)" "lower scheme = ''bearer''"
      "authenticate verify records token = Inr (Some p)" "permits p scope"
      "check (p_name p @ '':'' @ client) now (as_limiter s) = (True, l)"
      "s' = s\<lparr>as_limiter := l\<rparr>" "out = Inr p" "client = (case client_host of None \<Rightarrow> ''unknown'' | Some h \<Rightarrow> h)"
proof (cases "\<exists>scheme token. credentials = Some (scheme, token) \<and> lower scheme = ''bearer''")
  case False
  with assms missing show ?thesis
    by (cases credentials) (auto simp: require_scope_def Let_def)
next
  case True
  then obtain scheme token where c: "credentials = Some (scheme, token)" and b: "lower scheme = ''bearer''"
    by blast
  show ?thesis
  proof (cases "authenticate verify records token")
    case (Inl e)
    with assms raised [OF c b] show ?thesis by (simp add: require_scope_def Let_def c b)
  next
    case (Inr m)
    show ?thesis
    proof (cases m)
      case None
      with Inr assms invalid [OF c b] show ?thesis by (simp add: require_scope_def Let_def c b)
    next
      case (Some p)
      define client where "client = (case client_host of None \<Rightarrow> ''unknown'' | Some h \<Rightarrow> h)"
      obtain ok l where chk: "check (p_name p @ '':'' @ client) now (as_limiter s) = (ok, l)"
        by fastforce
      from assms have eq: "(s', out) =
          (if \<not> ok then (s\<lparr>as_limiter := l, as_db := audit ''rate_limited'' (p_name p)
                (JObj [(''client'', JStr client)]) (as_db s)\<rparr>, Inl (HTTPException 429, ''rate limit exceeded''))
           else if \<not> permits p scope
           then (s\<lparr>as_limiter := l, as_db := audit ''auth.forbidden'' (p_name p)
                (JObj [(''required_scope'', JStr scope)]) (as_db s)\<rparr>, Inl (HTTPException 403, ''insufficient scope''))
           else (s\<lparr>as_limiter := l\<rparr>, Inr p))"
        using chk by (auto simp: require_scope_def Let_def c b Inr Some client_def)
      note auth = Inr [unfolded Some]
      show ?thesis
        using eq chk limited [OF c b auth, of client l] forbidden [OF c b auth, of client l]
          granted [OF c b auth, of client l]
        by (cases ok; cases "permits p scope") (simp_all add: client_def)
    qed
  qed
qed

section \<open>Properties\<close>

text \<open>
  C21: However the requests of different keys interleave, and as long as the monotonic clock
  does not run backwards, no key is admitted more often than the configured limit in any
  window of sixty seconds.
\<close>

theorem rate_limit_window:
  assumes "sorted (map snd calls)"
  shows "in_window (seconds 60) w (times_of key (fst (run_calls check calls (new_limiter n)))) \<le> n"
  using rate.window_bound [of "new_limiter n" calls w key] assms by (simp add: new_limiter_def)

lemma rate_limit_window_witness:
  "in_window (seconds 60) 0
     (times_of ''a'' (fst (run_calls check [(''a'', 0), (''b'', 1), (''a'', 2), (''a'', 3)] (new_limiter 2)))) \<le> 2"
  using rate_limit_window [of "[(''a'', 0), (''b'', 1), (''a'', 2), (''a'', 3)]" 0 "''a''" 2] by simp

text \<open>
  The limiter refuses nobody without reason: after any run, a request is admitted exactly
  if fewer than the limit of its key's requests were admitted within the last sixty seconds,
  although the limiter has discarded the older ones.
\<close>

theorem rate_limit_exact:
  assumes "sorted (map snd calls)" and "\<forall>c \<in> set calls. snd c \<le> now"
  shows "fst (check key now (snd (run_calls check calls (new_limiter n)))) \<longleftrightarrow>
    length (filter (\<lambda>t. now - seconds 60 \<le> t) (times_of key (fst (run_calls check calls (new_limiter n))))) < n"
  using rate.admission_exact [of "new_limiter n" calls now key] assms by (simp add: new_limiter_def)

lemma rate_limit_exact_witness:
  "fst (check ''a'' 60000001 (snd (run_calls check [(''a'', 0), (''b'', 1)] (new_limiter 1))))"
  using rate_limit_exact [of "[(''a'', 0), (''b'', 1)]" 60000001 "''a''" 1]
  by (simp add: check_def times_of_def new_limiter_def seconds_def)

lemma require_scope_granted:
  assumes "require_scope audit verify records scope credentials client_host now s = (s', Inr p)"
  shows "as_db s' = as_db s \<and> (''admin'' \<in> p_scopes p \<or> scope \<in> p_scopes p) \<and>
    (\<exists>scheme token r client. credentials = Some (scheme, token) \<and> lower scheme = ''bearer'' \<and>
      r \<in> set records \<and> verify token (tr_verifier r) = Inr True \<and>
      p = \<lparr>p_name = tr_name r, p_scopes = tr_scopes r\<rparr> \<and>
      check (p_name p @ '':'' @ client) now (as_limiter s) = (True, as_limiter s'))"
proof -
  have sel: "match_records verify t m rs = Inr (Some r) \<Longrightarrow>
      m = Some r \<or> r \<in> set rs \<and> verify t (tr_verifier r) = Inr True" for t m rs r
    by (induction rs arbitrary: m) (auto simp: bind_result_Inr_iff split: if_splits)
  obtain scheme token client where c: "credentials = Some (scheme, token)"
    and l: "lower scheme = ''bearer''" and auth: "authenticate verify records token = Inr (Some p)"
    and perm: "permits p scope" and db: "as_db s' = as_db s"
    and chk: "check (p_name p @ '':'' @ client) now (as_limiter s) = (True, as_limiter s')"
    using assms by (cases rule: require_scope_cases) auto
  obtain r where "match_records verify token None records = Inr (Some r)"
    and "p = \<lparr>p_name = tr_name r, p_scopes = tr_scopes r\<rparr>"
    using auth by (auto simp: authenticate_def bind_result_Inr_iff)
  with sel [of token None records r] c l chk db perm show ?thesis
    by (auto simp: permits_def)
qed

text \<open>
  C22: A route's dependency lets a request through only with a bearer token that some configured
  record's verifier accepts, under the name and scopes of that record, which include the
  required scope or \<^verbatim>\<open>admin\<close>, and only if the rate limiter admitted it; nothing is
  audited then.
\<close>

theorem require_scope_grants:
  assumes "require_scope audit verify records scope credentials client_host now s = (s', Inr p)"
  shows "as_db s' = as_db s \<and> (''admin'' \<in> p_scopes p \<or> scope \<in> p_scopes p) \<and>
    (\<exists>scheme token r client. credentials = Some (scheme, token) \<and> lower scheme = ''bearer'' \<and>
      r \<in> set records \<and> verify token (tr_verifier r) = Inr True \<and>
      p = \<lparr>p_name = tr_name r, p_scopes = tr_scopes r\<rparr> \<and>
      check (p_name p @ '':'' @ client) now (as_limiter s) = (True, as_limiter s'))"
  using assms by (rule require_scope_granted)

definition sample_record :: token_record where
  "sample_record = \<lparr>tr_name = ''op'', tr_verifier = ''v'', tr_scopes = {''jobs:read''}\<rparr>"

definition sample_verify :: "string \<Rightarrow> string \<Rightarrow> exc + bool" where
  "sample_verify token v = Inr (token = ''good'' \<and> v = ''v'')"

definition sample_auth_state :: "string list auth_state" where
  "sample_auth_state = \<lparr>as_limiter = new_limiter 2, as_db = []\<rparr>"

lemma sample_grant:
  "require_scope (\<lambda>ev actor payload log. log @ [ev]) sample_verify [sample_record] ''jobs:read''
      (Some (''Bearer'', ''good'')) None 0 sample_auth_state =
    (sample_auth_state\<lparr>as_limiter := snd (check ''op:unknown'' 0 (new_limiter 2))\<rparr>,
     Inr \<lparr>p_name = ''op'', p_scopes = {''jobs:read''}\<rparr>)"
proof -
  have "lower ''Bearer'' = ''bearer''" by code_simp
  moreover obtain l where "check ''op:unknown'' 0 (new_limiter 2) = (True, l)"
    by (simp add: check_def new_limiter_def)
  ultimately show ?thesis
    by (simp add: require_scope_def authenticate_def sample_verify_def sample_record_def
        sample_auth_state_def permits_def Let_def)
qed

lemma require_scope_grants_witness:
  "as_db (sample_auth_state\<lparr>as_limiter := snd (check ''op:unknown'' 0 (new_limiter 2))\<rparr>) = [] \<and>
    (\<exists>r \<in> set [sample_record]. sample_verify ''good'' (tr_verifier r) = Inr True)"
  using require_scope_grants [OF sample_grant] by (auto simp: sample_auth_state_def)

text \<open>
  C23: Every refusal is recorded, and its status tells the reason. When the verifier check does not
  itself raise, a refused request leaves exactly one audit event. The status is 401 if no bearer
  token was presented that a verifier accepts, and the limiter was not asked then. Otherwise a
  record accepted the token, and the limiter was asked under that record's name and the client's
  address: the status is 429 exactly if it refused, and 403 exactly if it admitted the request and
  the record has neither the required scope nor \<^verbatim>\<open>admin\<close>.
\<close>

theorem require_scope_denies:
  assumes "\<And>r t. r \<in> set records \<Longrightarrow> \<exists>b. verify t (tr_verifier r) = Inr b"
    and "require_scope audit verify records scope credentials client_host now s = (s', Inl e)"
  shows "(fst e = HTTPException 401 \<and> as_limiter s' = as_limiter s \<and>
      (\<exists>reason. as_db s' = audit ''auth.failed'' ''anonymous'' (JObj [(''reason'', JStr reason)]) (as_db s)) \<and>
      (\<forall>scheme token. credentials = Some (scheme, token) \<longrightarrow> lower scheme = ''bearer'' \<longrightarrow>
        (\<forall>r \<in> set records. verify token (tr_verifier r) = Inr False))) \<or>
    (\<exists>scheme token r admitted. credentials = Some (scheme, token) \<and> lower scheme = ''bearer'' \<and>
      r \<in> set records \<and> verify token (tr_verifier r) = Inr True \<and>
      check (tr_name r @ '':'' @ (case client_host of None \<Rightarrow> ''unknown'' | Some h \<Rightarrow> h)) now (as_limiter s) =
        (admitted, as_limiter s') \<and>
      (if admitted
       then fst e = HTTPException 403 \<and> ''admin'' \<notin> tr_scopes r \<and> scope \<notin> tr_scopes r \<and>
         as_db s' = audit ''auth.forbidden'' (tr_name r) (JObj [(''required_scope'', JStr scope)]) (as_db s)
       else fst e = HTTPException 429 \<and>
         as_db s' = audit ''rate_limited'' (tr_name r)
           (JObj [(''client'', JStr (case client_host of None \<Rightarrow> ''unknown'' | Some h \<Rightarrow> h))]) (as_db s)))"
proof -
  define acc where "acc t r = (verify t (tr_verifier r) = Inr True)" for t and r :: token_record
  have acc: "verify t (tr_verifier r) = Inr (acc t r)" if "r \<in> set records" for r t
    using assms(1) [OF that, of t] by (auto simp: acc_def)
  have auth: "authenticate verify records t =
      Inr (case filter (acc t) records of [] \<Rightarrow> None
           | _ # _ \<Rightarrow> let r = last (filter (acc t) records) in Some \<lparr>p_name = tr_name r, p_scopes = tr_scopes r\<rparr>)" for t
    by (rule authenticate_eq) (rule acc)
  have empty: "authenticate verify records t = Inr None \<longleftrightarrow> filter (acc t) records = []" for t
    by (cases "filter (acc t) records") (simp_all add: auth Let_def)
  have none: "\<forall>r \<in> set records. verify t (tr_verifier r) = Inr False"
    if "authenticate verify records t = Inr None" for t
    using that acc [of _ t] by (simp add: empty filter_empty_conv)
  have some: "\<exists>r \<in> set records. verify t (tr_verifier r) = Inr True \<and> p_name p = tr_name r \<and> p_scopes p = tr_scopes r"
    if "authenticate verify records t = Inr (Some p)" for t p
  proof -
    from that have ne: "filter (acc t) records \<noteq> []" using empty [of t] by simp
    then have "last (filter (acc t) records) \<in> set (filter (acc t) records)" by (rule last_in_set)
    moreover have "p = \<lparr>p_name = tr_name (last (filter (acc t) records)), p_scopes = tr_scopes (last (filter (acc t) records))\<rparr>"
      using that ne by (simp add: auth Let_def split: list.splits)
    ultimately show ?thesis by (auto simp: acc_def)
  qed
  have total: "authenticate verify records t \<noteq> Inl e'" for t e' by (simp add: auth)
  from assms(2) show ?thesis
  proof (cases rule: require_scope_cases)
    case missing
    then show ?thesis by (intro disjI1) auto
  next
    case (raised scheme token e')
    then show ?thesis using total by blast
  next
    case (invalid scheme token)
    then show ?thesis using none [of token] by (intro disjI1) auto
  next
    case (limited scheme token p client l)
    from some [OF limited(3)] obtain r where "r \<in> set records" "verify token (tr_verifier r) = Inr True" "p_name p = tr_name r"
      by blast
    with limited show ?thesis
      by (intro disjI2 exI [of _ scheme] exI [of _ token] exI [of _ r] exI [of _ False]) simp
  next
    case (forbidden scheme token p client l)
    from some [OF forbidden(3)] obtain r where "r \<in> set records" "verify token (tr_verifier r) = Inr True"
      "p_name p = tr_name r" "p_scopes p = tr_scopes r" by blast
    with forbidden show ?thesis
      by (intro disjI2 exI [of _ scheme] exI [of _ token] exI [of _ r] exI [of _ True]) (simp add: permits_def)
  qed simp
qed

lemma sample_denial:
  "require_scope (\<lambda>ev actor payload log. log @ [ev]) sample_verify [sample_record] ''jobs:read''
      None None 0 sample_auth_state =
    (sample_auth_state\<lparr>as_db := [''auth.failed'']\<rparr>, Inl (HTTPException 401, ''missing bearer token''))"
  by (simp add: require_scope_def sample_auth_state_def)

lemma require_scope_denies_witness:
  "\<exists>event. as_db (sample_auth_state\<lparr>as_db := [''auth.failed'']\<rparr>) = as_db sample_auth_state @ [event]"
  using require_scope_denies [OF _ sample_denial] by (auto simp: sample_verify_def)

end
