(* ===== verification/TeamsGateway.thy ===== *)
theory TeamsGateway
  imports Engine
begin

text \<open>
  The Teams gateway (\<^verbatim>\<open>src/sprinter/teams/gateway.py\<close>): authentication of an incoming
  activity and the handling of its life-cycle events. The SDK's token validator and parser are
  arguments; an activity is reduced to what the code reads from it. \<open>flush_outbox\<close> takes the
  sending of a card as an argument, which \<open>send_card\<close> provides.
\<close>

record activity =
  ac_channel_data :: json
  ac_type :: string
  ac_action :: string
  ac_conversation :: "activity_info option"

section \<open>Authentication\<close>

text \<open>\<open>validate_token\<close> tells whether the claims are authenticated; either argument may raise.\<close>

definition validate_activity ::
  "(string \<Rightarrow> exc + bool) \<Rightarrow> (json \<Rightarrow> exc + activity) \<Rightarrow> string \<Rightarrow> json \<Rightarrow> exc + activity"
where
  "validate_activity validate_token model_validate authorization payload =
     (if \<not> starts_with ''Bearer '' authorization
      then Inl (TeamsAuthenticationError, ''missing Teams bearer token'')
      else
        let token = strip (drop 7 authorization) in
        case bind_result (validate_token token) (\<lambda>authenticated.
               bind_result (model_validate payload) (\<lambda>a. Inr (authenticated, a))) of
          Inl e \<Rightarrow> if caught [ValueError, TypeError] e
            then Inl (TeamsAuthenticationError, ''invalid Teams activity'') else Inl e
        | Inr (authenticated, a) \<Rightarrow>
            if \<not> authenticated then Inl (TeamsAuthenticationError, ''unauthenticated Teams activity'')
            else Inr a)"

section \<open>Life-cycle events\<close>

definition tenant_of :: "activity \<Rightarrow> exc + string" where
  "tenant_of a =
     bind_result (as_dict (py_or (ac_channel_data a) (JObj []))) (\<lambda>d.
     bind_result (as_dict (py_or (get_or_none d ''tenant'') (JObj []))) (\<lambda>t.
       Inr (py_str (py_or (get_or_none t ''id'') (JStr [])))))"

definition conversation :: "activity \<Rightarrow> exc + activity_info" where
  "conversation a = (case ac_conversation a of
     None \<Rightarrow> Inl (AttributeError, ''conversation'') | Some c \<Rightarrow> Inr c)"

definition accepted_installation :: "installation \<Rightarrow> json" where
  "accepted_installation t = JObj [(''accepted'', JBool True), (''installation_id'', JStr (t_id t)),
     (''enabled'', JBool (t_enabled t))]"

definition accepted_ignored :: json where
  "accepted_ignored = JObj [(''accepted'', JBool True), (''ignored'', JBool True)]"

definition handle_lifecycle ::
  "settings \<Rightarrow> instant \<Rightarrow> string \<Rightarrow> string \<Rightarrow> activity \<Rightarrow> database \<Rightarrow> database \<times> (exc + json)"
where
  "handle_lifecycle s now hex audit_hex a db =
     (case tenant_of a of
        Inl e \<Rightarrow> (db, Inl e)
      | Inr tenant \<Rightarrow>
          if tenant \<notin> allowed_teams_tenants s
          then (db, Inl (TeamsAuthenticationError, ''Teams tenant is not allowed''))
          else if ac_type a = ''message'' then
            (case conversation a of
               Inl e \<Rightarrow> (db, Inl e)
             | Inr c \<Rightarrow>
                 (fst (audit s now audit_hex ''teams.message_ignored'' ''teams''
                    (JObj [(''tenant_id'', JStr tenant), (''conversation_id'', JStr (act_conversation_id c))]) db),
                  Inr accepted_ignored))
          else if ac_type a = ''installationUpdate'' \<and> ac_action a = ''remove'' then
            (case conversation a of
               Inl e \<Rightarrow> (db, Inl e)
             | Inr c \<Rightarrow>
                 (case deactivate_installation now tenant (act_conversation_id c) db of
                    (db1, changed) \<Rightarrow>
                      (db1, Inr (JObj [(''accepted'', JBool True), (''deactivated'', JBool changed)]))))
          else if ac_type a \<in> {''installationUpdate'', ''conversationUpdate''} then
            (case conversation a of
               Inl e \<Rightarrow> (db, Inl e)
             | Inr c \<Rightarrow>
                 (case upsert_installation now hex c tenant db of
                    (db1, t) \<Rightarrow> (db1, Inr (accepted_installation t))))
          else
            (fst (audit s now audit_hex ''teams.activity_ignored'' ''teams''
               (JObj [(''tenant_id'', JStr tenant),
                      (''conversation_id'', JStr (case ac_conversation a of None \<Rightarrow> [] | Some c \<Rightarrow> act_conversation_id c)),
                      (''activity_type'', JStr (ac_type a))]) db),
             Inr accepted_ignored))"

section \<open>Sending a card\<close>

text \<open>
  The SDK: reading a stored conversation reference gives the activity that continues the
  conversation, and the adapter delivers an activity to it.
\<close>

record teams_sdk =
  sdk_continuation :: "string \<Rightarrow> exc + json"
  sdk_continue :: "string \<Rightarrow> json \<Rightarrow> json \<Rightarrow> exc + unit"

definition card_activity :: "json \<Rightarrow> json" where
  "card_activity body = JObj [(''type'', JStr ''message''),
     (''attachments'', JArr [JObj [(''content_type'', JStr ''application/vnd.microsoft.card.adaptive''),
                                   (''content'', body)]])]"

definition send_card :: "teams_sdk \<Rightarrow> settings \<Rightarrow> string \<Rightarrow> json \<Rightarrow> exc + unit" where
  "send_card sdk s reference_json body =
     bind_result (sdk_continuation sdk reference_json) (\<lambda>continuation.
       sdk_continue sdk (teams_app_id s) continuation (card_activity body))"

section \<open>Only an administrator enables\<close>

text \<open>Every destination enabled in the second table was enabled, under the same id, in the first.\<close>

definition no_new_enabled :: "installation list \<Rightarrow> installation list \<Rightarrow> bool" where
  "no_new_enabled ts ts' =
     (\<forall>t \<in> set ts'. t_enabled t \<longrightarrow> (\<exists>t0 \<in> set ts. t_id t0 = t_id t \<and> t_enabled t0))"

lemma no_new_enabled_refl [simp]: "no_new_enabled ts ts"
  by (auto simp: no_new_enabled_def)

lemma no_new_enabled_trans: "no_new_enabled ts ts' \<Longrightarrow> no_new_enabled ts' ts'' \<Longrightarrow> no_new_enabled ts ts''"
  unfolding no_new_enabled_def by metis

lemma no_new_enabled_update:
  assumes "\<And>t. t_id (f t) = t_id t" and "\<And>t. t_enabled (f t) \<Longrightarrow> t_enabled t"
  shows "no_new_enabled ts (update_where p f ts)"
  using assms by (auto simp: no_new_enabled_def set_update_where)

lemma upsert_no_new_enabled: "no_new_enabled (installs db) (installs (fst (upsert_installation now hex c tenant db)))"
proof (cases "find (destination tenant (act_conversation_id c)) (installs db)")
  case None
  then show ?thesis by (auto simp: upsert_installation_def no_new_enabled_def new_installation_def Let_def)
next
  case (Some t)
  then show ?thesis
    by (auto simp: upsert_installation_def touch_installation_def intro!: no_new_enabled_update)
qed

lemma deactivate_no_new_enabled: "no_new_enabled (installs db) (installs (fst (deactivate_installation now x y db)))"
  by (auto simp: deactivate_installation_def mark_inactive_def Let_def intro!: no_new_enabled_update)

lemma audit_installs [simp]: "installs (fst (audit s now hex t a p db)) = installs db"
  by (simp add: audit_def Let_def)

lemma handle_lifecycle_cases:
  assumes "handle_lifecycle s now hex ahex a db = (db', r)"
  obtains (same) "db' = db" "\<exists>e. r = Inl e"
  | (audited) tenant et p where "tenant_of a = Inr tenant" "tenant \<in> allowed_teams_tenants s"
      "db' = fst (audit s now ahex et ''teams'' p db)"
  | (removed) tenant c where "tenant_of a = Inr tenant" "tenant \<in> allowed_teams_tenants s"
      "ac_conversation a = Some c" "db' = fst (deactivate_installation now tenant (act_conversation_id c) db)"
  | (updated) tenant c where "tenant_of a = Inr tenant" "tenant \<in> allowed_teams_tenants s"
      "ac_conversation a = Some c" "db' = fst (upsert_installation now hex c tenant db)"
proof (cases "tenant_of a")
  case (Inl e)
  with assms show ?thesis by (intro same) (auto simp: handle_lifecycle_def)
next
  case (Inr tenant)
  show ?thesis
  proof (cases "tenant \<in> allowed_teams_tenants s")
    case False
    with Inr assms show ?thesis by (intro same) (auto simp: handle_lifecycle_def)
  next
    case True
    show ?thesis
    proof (cases "ac_conversation a")
      case None
      with Inr True assms show ?thesis
        by (auto simp: handle_lifecycle_def conversation_def split: if_split_asm intro: same audited)
    next
      case (Some c)
      with Inr True assms show ?thesis
        by (auto simp: handle_lifecycle_def conversation_def split: if_split_asm prod.split_asm
            intro: audited removed updated)
    qed
  qed
qed

text \<open>A sequence of events, each with its time and identifiers.\<close>

fun handle_events ::
  "settings \<Rightarrow> (instant \<times> string \<times> string \<times> activity) list \<Rightarrow> database \<Rightarrow> database"
where
  "handle_events s [] db = db"
| "handle_events s ((now, hex, ahex, a) # es) db =
     handle_events s es (fst (handle_lifecycle s now hex ahex a db))"

lemma handle_lifecycle_no_new_enabled:
  "no_new_enabled (installs db) (installs (fst (handle_lifecycle s now hex ahex a db)))"
proof -
  obtain db' r where h: "handle_lifecycle s now hex ahex a db = (db', r)" by fastforce
  then show ?thesis
    by (cases rule: handle_lifecycle_cases)
       (simp_all add: h upsert_no_new_enabled deactivate_no_new_enabled)
qed

text \<open>
  Events from Teams never enable a destination: after any sequence of activities, every
  enabled destination was already enabled before it. Together with the check at delivery, cards
  reach a destination only after an administrator enabled it, also when the application is
  removed and installed again.
\<close>

theorem teams_events_never_enable:
  "no_new_enabled (installs db) (installs (handle_events s es db))"
proof (induction s es db rule: handle_events.induct)
  case (2 s now hex ahex a es db)
  then show ?case
    using handle_lifecycle_no_new_enabled [of db s now hex ahex a] by (auto intro: no_new_enabled_trans)
qed simp

lemma handle_removal:
  assumes "tenant_of a = Inr tenant" and "tenant \<in> allowed_teams_tenants s" and "ac_conversation a = Some c"
    and "ac_type a = ''installationUpdate''" and "ac_action a = ''remove''"
  shows "fst (handle_lifecycle s now hex ahex a db) = fst (deactivate_installation now tenant (act_conversation_id c) db)"
  using assms by (simp add: handle_lifecycle_def conversation_def case_prod_unfold)

text \<open>
  Activities of tenants outside the allowlist change nothing and are answered with an
  authentication error; an accepted removal disables and deactivates every destination of that
  conversation at once.
\<close>

theorem lifecycle_respects_tenants:
  assumes "handle_lifecycle s now hex ahex a db = (db', r)"
  shows "(\<forall>tenant. tenant_of a = Inr tenant \<and> tenant \<notin> allowed_teams_tenants s \<longrightarrow>
      db' = db \<and> r = Inl (TeamsAuthenticationError, ''Teams tenant is not allowed'')) \<and>
    (\<forall>tenant c. tenant_of a = Inr tenant \<and> tenant \<in> allowed_teams_tenants s \<and> ac_conversation a = Some c \<and>
      ac_type a = ''installationUpdate'' \<and> ac_action a = ''remove'' \<longrightarrow>
      (\<forall>t \<in> set (installs db'). destination tenant (act_conversation_id c) t \<longrightarrow> \<not> t_enabled t \<and> \<not> t_active t) \<and>
      installations True db' = filter (\<lambda>t. \<not> destination tenant (act_conversation_id c) t) (installations True db))"
proof -
  have "db' = db \<and> r = Inl (TeamsAuthenticationError, ''Teams tenant is not allowed'')"
    if "tenant_of a = Inr tenant" "tenant \<notin> allowed_teams_tenants s" for tenant
    using assms that by (simp add: handle_lifecycle_def)
  moreover have "(\<forall>t \<in> set (installs db'). destination tenant (act_conversation_id c) t \<longrightarrow> \<not> t_enabled t \<and> \<not> t_active t) \<and>
      installations True db' = filter (\<lambda>t. \<not> destination tenant (act_conversation_id c) t) (installations True db)"
    if "tenant_of a = Inr tenant" "tenant \<in> allowed_teams_tenants s" "ac_conversation a = Some c"
      "ac_type a = ''installationUpdate''" "ac_action a = ''remove''" for tenant c
  proof -
    let ?d = "destination tenant (act_conversation_id c)"
    have i: "installs db' = update_where ?d (mark_inactive now) (installs db)"
      using handle_removal [OF that, of now hex ahex db] assms by (simp add: deactivate_installation_def Let_def)
    have off: "\<not> t_enabled t \<and> \<not> t_active t" if "t \<in> set (installs db')" "?d t" for t
    proof -
      from that(1) obtain u where "u \<in> set (installs db)" "t = (if ?d u then mark_inactive now u else u)"
        unfolding i by (auto simp: update_where_def)
      with that(2) show ?thesis by (cases "?d u") (simp_all add: mark_inactive_def)
    qed
    have "filter (\<lambda>t. t_enabled t \<and> t_active t) (update_where ?d (mark_inactive now) ts) =
        filter (\<lambda>t. \<not> ?d t) (filter (\<lambda>t. t_enabled t \<and> t_active t) ts)" for ts
      by (induction ts) (auto simp: update_where_def mark_inactive_def)
    then have "installations True db' = filter (\<lambda>t. \<not> ?d t) (installations True db)"
      by (simp add: installations_def i order_by_def filter_sort)
    with off show ?thesis by blast
  qed
  ultimately show ?thesis by blast
qed

definition removal :: activity where
  "removal = \<lparr>ac_channel_data = JObj [(''tenant'', JObj [(''id'', JStr ''T'')])], ac_type = ''installationUpdate'',
     ac_action = ''remove'', ac_conversation = Some \<lparr>act_conversation_id = ''c'', act_conversation_type = None,
       act_service_url = ''https://x'', act_reference_json = ''{}''\<rparr>\<rparr>"

definition allowing_settings :: settings where
  "allowing_settings = default_settings\<lparr>teams_allowed_tenant_ids := ''T''\<rparr>"

lemma lifecycle_respects_tenants_witness:
  "installations True (fst (handle_lifecycle allowing_settings 1 ''h'' ''x'' removal
     (empty_database\<lparr>installs := [\<lparr>t_id = ''t'', t_tenant_id = ''T'', t_conversation_id = ''c'', t_service_url = [],
        t_scope = [], t_reference_json = [], t_enabled = True, t_active = True, t_discovered_at = 0,
        t_last_seen_at = 0\<rparr>]\<rparr>))) = []"
proof -
  let ?db = "empty_database\<lparr>installs := [\<lparr>t_id = ''t'', t_tenant_id = ''T'', t_conversation_id = ''c'', t_service_url = [],
        t_scope = [], t_reference_json = [], t_enabled = True, t_active = True, t_discovered_at = 0,
        t_last_seen_at = 0\<rparr>]\<rparr>"
  obtain db' r where h: "handle_lifecycle allowing_settings 1 ''h'' ''x'' removal ?db = (db', r)" by fastforce
  have "tenant_of removal = Inr ''T''"
    by (simp add: tenant_of_def removal_def py_or_def get_or_none_def py_str_def)
  moreover have "csv_set ''T'' = {''T''}" by code_simp
  then have "''T'' \<in> allowed_teams_tenants allowing_settings"
    by (simp add: allowed_teams_tenants_def allowing_settings_def)
  ultimately have "installations True db' = filter (\<lambda>t. \<not> destination ''T'' ''c'' t) (installations True ?db)"
    using lifecycle_respects_tenants [OF h] by (auto simp: removal_def)
  then show ?thesis
    using h by (simp add: installations_def destination_def order_by_def)
qed

end
