(* ===== verification/QueryTools.thy ===== *)
theory QueryTools
  imports Integrations PiGateway
begin

text \<open>
  What the query tools make of an answer: the rest of
  \<^verbatim>\<open>src/sprinter/integrations/adx.py\<close>, \<^verbatim>\<open>confluence.py\<close> and \<^verbatim>\<open>sigma.py\<close>.
  The exchange with the service (credentials, HTTP) is an argument that gives the decoded JSON
  body or the exception of the client; the body is untrusted and may have any shape, so every
  attribute access and iteration that can raise is written out. The Sigma backend is an
  argument.

  The lemmas show that the tools return no more rows than they were asked for, and that nothing
  is sent before the query was validated.
\<close>

section \<open>Python operations on untrusted values\<close>

text \<open>Iterating over a value, and slicing off its first elements.\<close>

definition iterate :: "json \<Rightarrow> exc + json list" where
  "iterate v = (case v of
     JArr xs \<Rightarrow> Inr xs
   | JStr cs \<Rightarrow> Inr (map (\<lambda>c. JStr [c]) cs)
   | JObj d \<Rightarrow> Inr (map (\<lambda>kv. JStr (fst kv)) d)
   | _ \<Rightarrow> Inl (TypeError, repr_str (python_type v) @ '' object is not iterable''))"

definition first_items :: "nat \<Rightarrow> json \<Rightarrow> exc + json list" where
  "first_items n v = (case v of
     JArr xs \<Rightarrow> Inr (take n xs)
   | JStr cs \<Rightarrow> Inr (map (\<lambda>c. JStr [c]) (take n cs))
   | JObj _ \<Rightarrow> Inl (KeyError, ''slice(None, '' @ str_of_int (int n) @ '', None)'')
   | _ \<Rightarrow> Inl (TypeError, repr_str (python_type v) @ '' object is not subscriptable''))"

text \<open>A value used as a dictionary key, as the key is written in the JSON response.\<close>

definition key_text :: "json \<Rightarrow> exc + string" where
  "key_text v = (case v of
     JStr s \<Rightarrow> Inr s
   | JArr _ \<Rightarrow> Inl (TypeError, ''unhashable type: '' @ repr_str ''list'')
   | JObj _ \<Rightarrow> Inl (TypeError, ''unhashable type: '' @ repr_str ''dict'')
   | _ \<Rightarrow> Inr (render '','' '':'' v))"

fun map_result :: "('a \<Rightarrow> 'e + 'b) \<Rightarrow> 'a list \<Rightarrow> 'e + 'b list" where
  "map_result f [] = Inr []"
| "map_result f (x # xs) = bind_result (f x) (\<lambda>y. bind_result (map_result f xs) (\<lambda>ys. Inr (y # ys)))"

section \<open>Azure Data Explorer\<close>

text \<open>The generator stops at the first table of the kind it looks for.\<close>

fun primary_result :: "json list \<Rightarrow> exc + json dict" where
  "primary_result [] = Inr []"
| "primary_result (t # ts) =
     bind_result (as_dict t) (\<lambda>d.
       if get_or_none d ''TableKind'' = JStr ''PrimaryResult'' then Inr d else primary_result ts)"

definition column_name :: "json \<Rightarrow> exc + json" where
  "column_name c = (case c of
     JObj d \<Rightarrow> (case dict_get d ''ColumnName'' of
         None \<Rightarrow> Inl (KeyError, repr_str ''ColumnName'') | Some v \<Rightarrow> Inr v)
   | _ \<Rightarrow> Inl (TypeError, repr_str (python_type c) @ '' object is not subscriptable''))"

text \<open>\<^verbatim>\<open>dict(zip(columns, row, strict=False))\<close>\<close>

fun zip_row :: "json list \<Rightarrow> json list \<Rightarrow> json dict \<Rightarrow> exc + json dict" where
  "zip_row (c # cs) (v # vs) d = bind_result (key_text c) (\<lambda>k. zip_row cs vs (dict_set k v d))"
| "zip_row _ _ d = Inr d"

definition table_row :: "json list \<Rightarrow> json \<Rightarrow> exc + json dict" where
  "table_row columns row = bind_result (iterate row) (\<lambda>vs. zip_row columns vs [])"

record adx_result =
  aq_rows :: "json dict list"
  aq_count :: nat
  aq_query :: string

text \<open>\<open>http\<close> takes the client secret and the statement.\<close>

definition adx_query ::
  "(string \<Rightarrow> string \<Rightarrow> exc + json) \<Rightarrow> file_system \<Rightarrow> settings \<Rightarrow> string \<Rightarrow> nat \<Rightarrow> exc + adx_result"
where
  "adx_query http fs s query max_rows =
     (if adx_cluster_url s = [] then Inl (RuntimeError, ''ADX is not configured'')
      else
        bind_result (adx_validate s query) (\<lambda>clean.
        bind_result (secret_value fs s Secret_adx) (\<lambda>secret.
        bind_result (http secret (clean @ [CHR 0x0A] @ ''| take '' @ str_of_int (int max_rows))) (\<lambda>payload.
        bind_result (iterate payload) (\<lambda>tables.
        bind_result (primary_result tables) (\<lambda>primary.
        bind_result (bind_result (iterate (optional primary ''Columns'' (JArr []))) (map_result column_name)) (\<lambda>columns.
        bind_result (bind_result (iterate (optional primary ''Rows'' (JArr []))) (map_result (table_row columns))) (\<lambda>rows.
          Inr \<lparr>aq_rows = take max_rows rows, aq_count = length (take max_rows rows), aq_query = clean\<rparr>))))))))"

section \<open>Confluence\<close>

definition or_empty :: "json \<Rightarrow> exc + json dict" where
  "or_empty v = as_dict (py_or v (JObj []))"

definition page_view :: "string \<Rightarrow> json \<Rightarrow> exc + json" where
  "page_view base item =
     bind_result (as_dict item) (\<lambda>d.
     bind_result (or_empty (get_or_none d ''_links'')) (\<lambda>links.
     bind_result (or_empty (get_or_none d ''space'')) (\<lambda>space.
       let webui = py_or (get_or_none links ''webui'') (JStr []) in
       Inr (JObj [(''id'', get_or_none d ''id''), (''title'', get_or_none d ''title''),
         (''space'', get_or_none space ''key''),
         (''url'', JStr (if truthy webui then base @ py_str webui else []))]))))"

text \<open>\<open>http\<close> takes the API token, the CQL text and the limit.\<close>

definition confluence_search ::
  "(string \<Rightarrow> string \<Rightarrow> nat \<Rightarrow> exc + json) \<Rightarrow> file_system \<Rightarrow> settings \<Rightarrow> string \<Rightarrow> nat \<Rightarrow> exc + json list"
where
  "confluence_search http fs s query limit =
     bind_result (confluence_search_cql s query) (\<lambda>cql.
     bind_result (secret_value fs s Secret_confluence) (\<lambda>secret.
     bind_result (http secret cql limit) (\<lambda>payload.
     bind_result (as_dict payload) (\<lambda>d.
     bind_result (first_items limit (optional d ''results'' (JArr []))) (\<lambda>items.
       map_result (page_view (strip_slashes (confluence_base_url s))) items)))))"

section \<open>Sigma\<close>

definition sigma_convert :: "(json dict \<Rightarrow> exc + string list) \<Rightarrow> json dict \<Rightarrow> exc + json" where
  "sigma_convert backend rule =
     bind_result (backend rule) (\<lambda>queries.
       Inr (JObj [(''queries'', strings queries), (''count'', JInt (int (length queries)))]))"

section \<open>Requests of the tools\<close>

record splunk_tool =
  st_search :: string
  st_earliest :: string
  st_latest :: string
  st_max_rows :: nat

definition validate_splunk_tool :: "json \<Rightarrow> exc + splunk_tool" where
  "validate_splunk_tool v = (case v of
     JObj d \<Rightarrow>
       bind_result (bind_result (required d ''search'') (check_str ''search'' 1 8192)) (\<lambda>search.
       bind_result (check_str ''earliest'' 0 32 (optional d ''earliest'' (JStr ''-24h''))) (\<lambda>earliest.
       bind_result (check_str ''latest'' 0 32 (optional d ''latest'' (JStr ''now''))) (\<lambda>latest.
       bind_result (check_nat ''max_rows'' 1 500 (optional d ''max_rows'' (JInt 50))) (\<lambda>n.
         Inr \<lparr>st_search = search, st_earliest = earliest, st_latest = latest, st_max_rows = n\<rparr>))))
   | _ \<Rightarrow> invalid ''body'')"

definition validate_adx_tool :: "json \<Rightarrow> exc + string \<times> nat" where
  "validate_adx_tool v = (case v of
     JObj d \<Rightarrow>
       bind_result (bind_result (required d ''query'') (check_str ''query'' 1 16384)) (\<lambda>query.
       bind_result (check_nat ''max_rows'' 1 500 (optional d ''max_rows'' (JInt 50))) (\<lambda>n. Inr (query, n)))
   | _ \<Rightarrow> invalid ''body'')"

definition validate_confluence_tool :: "json \<Rightarrow> exc + string \<times> nat" where
  "validate_confluence_tool v = (case v of
     JObj d \<Rightarrow>
       bind_result (bind_result (required d ''query'') (check_str ''query'' 2 512)) (\<lambda>query.
       bind_result (check_nat ''limit'' 1 50 (optional d ''limit'' (JInt 10))) (\<lambda>n. Inr (query, n)))
   | _ \<Rightarrow> invalid ''body'')"

definition validate_sigma_tool :: "json \<Rightarrow> exc + json dict" where
  "validate_sigma_tool v = (case v of
     JObj d \<Rightarrow> (case dict_get d ''rule'' of Some (JObj rule) \<Rightarrow> Inr rule | _ \<Rightarrow> invalid ''rule'')
   | _ \<Rightarrow> invalid ''body'')"

definition validate_installation_update :: "json \<Rightarrow> exc + bool" where
  "validate_installation_update v = (case v of
     JObj d \<Rightarrow> (case dict_get d ''enabled'' of Some (JBool b) \<Rightarrow> Inr b | _ \<Rightarrow> invalid ''enabled'')
   | _ \<Rightarrow> invalid ''body'')"

section \<open>What the tools guarantee\<close>

lemma adx_validate_Inr:
  assumes "adx_validate s q = Inr clean"
  shows "clean = strip q" and "CHR '';'' \<notin> set clean" and "\<not> writes_kql clean"
    and "\<exists>t. leading_table clean = Some t \<and> t \<in> allowed_adx_tables s"
    and "adx_validate s clean = Inr clean"
  using assms by (auto simp: adx_validate_def Let_def strip_idem split: if_splits option.splits)

text \<open>
  C33: An ADX query that returns was sent as one validated statement: what reached the cluster is
  the returned query followed only by a limit on the rows; that query starts with an allowed
  table, contains no statement separator, no control command and no \<^verbatim>\<open>into\<close> stage, passes
  validation again unchanged, and no more rows come back than were asked for.
\<close>

theorem adx_query_guarded:
  assumes "adx_query http fs s q n = Inr r"
  shows "(\<exists>secret payload. secret_value fs s Secret_adx = Inr secret \<and>
      http secret (aq_query r @ [CHR 0x0A] @ ''| take '' @ str_of_int (int n)) = Inr payload) \<and>
    (\<exists>t. leading_table (aq_query r) = Some t \<and> t \<in> allowed_adx_tables s) \<and>
    CHR '';'' \<notin> set (aq_query r) \<and> \<not> writes_kql (aq_query r) \<and>
    adx_validate s (aq_query r) = Inr (aq_query r) \<and>
    length (aq_rows r) \<le> n \<and> aq_count r = length (aq_rows r)"
  using assms
  by (auto simp: adx_query_def bind_result_Inr_iff split: if_splits dest: adx_validate_Inr)

definition sample_adx :: settings where
  "sample_adx = default_settings\<lparr>adx_cluster_url := ''https://k'', adx_allowed_tables := ''T'',
     adx_client_secret := Some ''s''\<rparr>"

lemma sample_adx_fields [simp]:
  "adx_cluster_url sample_adx = ''https://k''" "adx_allowed_tables sample_adx = ''T''"
  "adx_client_secret sample_adx = Some ''s''"
  by (simp_all add: sample_adx_def)

lemma sample_adx_answer:
  "adx_query (\<lambda>_ _. Inr (JArr [])) (\<lambda>_. None) sample_adx ''T | count'' 5 =
    Inr \<lparr>aq_rows = [], aq_count = 0, aq_query = ''T | count''\<rparr>"
proof -
  have "strip ''T | count'' = ''T | count''" "\<not> writes_kql ''T | count''" "leading_table ''T | count'' = Some ''T''"
    "csv_set ''T'' = {''T''}" by code_simp+
  then have "adx_validate sample_adx ''T | count'' = Inr ''T | count''"
    by (simp add: adx_validate_def allowed_adx_tables_def)
  then show ?thesis
    by (simp add: adx_query_def iterate_def optional_def read_secret_def)
qed

lemma adx_query_guarded_witness:
  "adx_validate sample_adx ''T | count'' = Inr ''T | count'' \<and> \<not> writes_kql ''T | count''"
  using adx_query_guarded [OF sample_adx_answer] by simp

end
