(* ===== verification/Api.thy ===== *)
theory Api
  imports Auth TeamsGateway QueryTools EngineProperties
begin

text \<open>
  The HTTP interface (\<^verbatim>\<open>src/sprinter/api.py\<close>): the limit on request bodies, the exception
  handlers, and every route with its dependency, its validation and its calls into the container.
  The web framework is not modelled beyond what the routes rely on: it decodes a JSON body before
  anything else (an undecodable body is \<open>None\<close>), runs the scope dependency, then validates
  headers and body, then calls the route; an exception goes to the handler of the nearest class.
  Clocks, generated identifiers and the services are arguments, collected in \<open>api_env\<close>.
\<close>

section \<open>The body limit\<close>

text \<open>\<^verbatim>\<open>int(data)\<close> of bytes: ASCII white space around, a sign, digits with single underscores between them, at most 4300.\<close>

fun digit_groups :: "string \<Rightarrow> bool" where
  "digit_groups [] = False"
| "digit_groups [c] = is_digit c"
| "digit_groups (c # d # s) =
     (is_digit c \<and> (if d = CHR ''_'' then digit_groups s else digit_groups (d # s)))"

definition ascii_space :: "char \<Rightarrow> bool" where
  "ascii_space c = (code_of c \<in> {9, 10, 11, 12, 13, 32})"

definition strip_ascii :: "string \<Rightarrow> string" where
  "strip_ascii s = rev (dropWhile ascii_space (rev (dropWhile ascii_space s)))"

definition py_int :: "string \<Rightarrow> int option" where
  "py_int text =
     (let t = strip_ascii text;
          negative = starts_with ''-'' t;
          body = (if negative \<or> starts_with ''+'' t then drop 1 t else t);
          digits = filter (\<lambda>c. c \<noteq> CHR ''_'') body in
      if digit_groups body \<and> length digits \<le> 4300
      then Some (if negative then - int (nat_of_digits digits) else int (nat_of_digits digits)) else None)"

datatype message =
    Http_request string bool
  | Http_disconnect

fun body_of :: "message \<Rightarrow> string" where
  "body_of (Http_request b _) = b"
| "body_of Http_disconnect = []"

text \<open>
  The wrapped application, seen from its calls of \<^verbatim>\<open>receive\<close>: from the messages it has got
  so far it either answers or waits for the next one. \<open>limited_run\<close> is the run with
  \<^verbatim>\<open>limited_receive\<close>: the messages it was shown, and its answer, \<open>None\<close> while it waits, or
  the exception.
\<close>

fun limited_run ::
  "int \<Rightarrow> (message list \<Rightarrow> 'r option) \<Rightarrow> message list \<Rightarrow> int \<Rightarrow> message list \<Rightarrow> message list \<times> (exc + 'r option)"
where
  "limited_run limit app got received pending =
     (case app got of
        Some r \<Rightarrow> (got, Inr (Some r))
      | None \<Rightarrow>
          (case pending of
             [] \<Rightarrow> (got, Inr None)
           | m # ms \<Rightarrow>
               (let received' = received + int (length (body_of m)) in
                if m \<noteq> Http_disconnect \<and> limit < received'
                then (got, Inl (HTTPException 413, ''request body too large''))
                else limited_run limit app (got @ [m]) received' ms)))"

declare limited_run.simps [simp del]

text \<open>The whole middleware for an HTTP request; of repeated headers the last one counts.\<close>

definition body_limit ::
  "int \<Rightarrow> (string \<times> string) list \<Rightarrow> (message list \<Rightarrow> 'r option) \<Rightarrow> message list \<Rightarrow> message list \<times> (exc + 'r option)"
where
  "body_limit limit headers app pending =
     (case map_of (rev headers) ''content-length'' of
        Some (c # cs) \<Rightarrow>
          (case py_int (c # cs) of
             None \<Rightarrow> ([], Inl (HTTPException 400, ''invalid content length''))
           | Some n \<Rightarrow>
               if limit < n then ([], Inl (HTTPException 413, ''request body too large''))
               else limited_run limit app [] 0 pending)
      | _ \<Rightarrow> limited_run limit app [] 0 pending)"

section \<open>Exception handlers\<close>

type_synonym reply = "nat \<times> json"

definition api_status :: "exc_type \<Rightarrow> nat" where
  "api_status t = (case t of
     HTTPException n \<Rightarrow> n
   | _ \<Rightarrow> if is_instance t IdempotencyConflict then 409
          else if is_instance t ValueError then 400
          else if is_instance t RuntimeError then 503
          else 500)"

definition api_detail :: "exc \<Rightarrow> string" where
  "api_detail e =
     (if api_status (fst e) = 503 then ''configured dependency is unavailable''
      else if api_status (fst e) = 500 then ''Internal Server Error'' else snd e)"

definition respond :: "exc + reply \<Rightarrow> reply" where
  "respond r = (case r of
     Inr reply \<Rightarrow> reply
   | Inl e \<Rightarrow> (api_status (fst e), JObj [(''detail'', JStr (api_detail e))]))"

section \<open>The environment of a request\<close>

record api_env =
  ae_now :: instant
  ae_monotonic :: instant
  ae_hex :: string
  ae_audit :: "string \<times> string"
  ae_seen :: database
  ae_aware :: bool
  ae_isoformat :: "instant \<Rightarrow> string"
  ae_verify :: "string \<Rightarrow> string \<Rightarrow> exc + bool"
  ae_fs :: file_system
  ae_splunk :: "splunk_request \<Rightarrow> exc + string"
  ae_adx :: "string \<Rightarrow> string \<Rightarrow> exc + json"
  ae_confluence :: "string \<Rightarrow> string \<Rightarrow> nat \<Rightarrow> exc + json"
  ae_sigma :: "json dict \<Rightarrow> exc + string list"
  ae_teams :: bool
  ae_validate_token :: "string \<Rightarrow> exc + bool"
  ae_model_validate :: "json \<Rightarrow> exc + activity"

text \<open>Who calls: what the bearer parser extracted, and the client's address.\<close>

record caller =
  ca_credentials :: "(string \<times> string) option"
  ca_host :: "string option"

type_synonym api_state = "database auth_state"

definition env_audit_to :: "api_env \<Rightarrow> settings \<Rightarrow> string \<Rightarrow> string \<Rightarrow> json \<Rightarrow> database \<Rightarrow> database" where
  "env_audit_to v s event_type actor payload db =
     fst (container_audit s (ae_now v) (ae_audit v) event_type actor payload db)"

definition configured_records :: "settings \<Rightarrow> token_record list" where
  "configured_records s = (case token_records s of Inr rs \<Rightarrow> rs | Inl _ \<Rightarrow> [])"

text \<open>A request that fails validation is answered with 400 (\<^verbatim>\<open>validation_error\<close>).\<close>

definition rejected :: "string \<Rightarrow> exc + reply" where
  "rejected field = Inr (400, JObj [(''detail'', JStr field)])"

definition validated :: "exc + 'a \<Rightarrow> ('a \<Rightarrow> database \<times> (exc + reply)) \<Rightarrow> database \<Rightarrow> database \<times> (exc + reply)" where
  "validated r handler db = (case r of Inl e \<Rightarrow> (db, rejected (snd e)) | Inr x \<Rightarrow> handler x)"

text \<open>A route behind \<^verbatim>\<open>Depends(require_scope(scope))\<close>.\<close>

definition guarded ::
  "api_env \<Rightarrow> settings \<Rightarrow> string \<Rightarrow> caller \<Rightarrow> (principal \<Rightarrow> database \<Rightarrow> database \<times> (exc + reply)) \<Rightarrow> api_state \<Rightarrow>
   api_state \<times> (exc + reply)"
where
  "guarded v s scope c handler st =
     (case require_scope (env_audit_to v s) (ae_verify v) (configured_records s) scope (ca_credentials c)
             (ca_host c) (ae_monotonic v) st of
        (st', Inl e) \<Rightarrow> (st', Inl e)
      | (st', Inr p) \<Rightarrow>
          (case handler p (as_db st') of (db', r) \<Rightarrow> (st'\<lparr>as_db := db'\<rparr>, r)))"

section \<open>Health\<close>

definition VERSION :: string where "VERSION = ''1.0.0''"

definition livez :: reply where
  "livez = (200, JObj [(''ok'', JBool True), (''service'', JStr ''sprinter''), (''version'', JStr VERSION)])"

definition ready_checks :: "(instant \<Rightarrow> string) \<Rightarrow> settings \<Rightarrow> readiness_view \<Rightarrow> bool \<Rightarrow> json dict" where
  "ready_checks isoformat s view teams_ready =
     [(''database'', JBool True),
      (''worker_heartbeat'', case rv_worker_heartbeat view of None \<Rightarrow> JNull | Some t \<Rightarrow> JStr (isoformat t)),
      (''worker_fresh'', JBool (rv_worker_fresh view)), (''pi_ready'', JBool (rv_pi_ready view)),
      (''pi_error'', JStr (rv_pi_error view)),
      (''enabled_teams_destinations'', JInt (int (rv_enabled_teams_destinations view))),
      (''teams_ready'', JBool teams_ready), (''pi_version_expected'', JStr (pi_expected_version s))]"

definition readyz :: "api_env \<Rightarrow> settings \<Rightarrow> database \<Rightarrow> exc + reply" where
  "readyz v s db =
     bind_result (readiness (ae_aware v) s (ae_now v) db) (\<lambda>view.
       let teams_ready = (\<not> teams_enabled s \<or> 0 < rv_enabled_teams_destinations view);
           ok = (rv_worker_fresh view \<and> rv_pi_ready view \<and> teams_ready) in
       Inr (if ok then 200 else 503,
            JObj [(''ok'', JBool ok), (''checks'', JObj (ready_checks (ae_isoformat v) s view teams_ready))]))"

section \<open>Jobs\<close>

definition accepted_job :: "job \<Rightarrow> bool \<Rightarrow> json" where
  "accepted_job j created = JObj [(''job_id'', JStr (j_id j)), (''status'', JStr (status_value (j_status j))),
     (''created'', JBool created), (''url'', JStr (''/api/v1/jobs/'' @ j_id j))]"

definition valid_key :: "string option \<Rightarrow> exc + string" where
  "valid_key header = (case header of
     None \<Rightarrow> invalid ''Idempotency-Key''
   | Some k \<Rightarrow> if 8 \<le> length k \<and> length k \<le> 128 then Inr k else invalid ''Idempotency-Key'')"

definition create_review_job ::
  "api_env \<Rightarrow> settings \<Rightarrow> json \<Rightarrow> string option \<Rightarrow> principal \<Rightarrow> database \<Rightarrow> database \<times> (exc + reply)"
where
  "create_review_job v s body header p db =
     validated (bind_result (valid_key header) (\<lambda>key.
                bind_result (validate_review_request body) (\<lambda>r. Inr (key, r))))
       (\<lambda>(key, r).
          case submit_review s (ae_now v) (ae_hex v) (ae_audit v) (ae_seen v) r key (p_name p) db of
            (db', Inl e) \<Rightarrow> (db', Inl e)
          | (db', Inr (j, created)) \<Rightarrow> (db', Inr (202, accepted_job j created))) db"

definition get_job_route :: "api_env \<Rightarrow> string \<Rightarrow> database \<Rightarrow> exc + reply" where
  "get_job_route v job_id db =
     (case get_job job_id db of
        None \<Rightarrow> Inl (HTTPException 404, ''job not found'')
      | Some j \<Rightarrow> Inr (200, job_view (ae_isoformat v) j db))"

section \<open>Tools\<close>

text \<open>A tool that succeeds is audited, then answers.\<close>

definition tool_reply ::
  "api_env \<Rightarrow> settings \<Rightarrow> string \<Rightarrow> principal \<Rightarrow> exc + json \<times> json \<Rightarrow> database \<Rightarrow> database \<times> (exc + reply)"
where
  "tool_reply v s event_type p result db =
     (case result of
        Inl e \<Rightarrow> (db, Inl e)
      | Inr (logged, answer) \<Rightarrow> (env_audit_to v s event_type (p_name p) logged db, Inr (200, answer)))"

definition splunk_json :: "splunk_result \<Rightarrow> json" where
  "splunk_json r = JObj [(''rows'', JArr (map JObj (sr_rows r))), (''count'', JInt (int (sr_count r))),
     (''search'', JStr (sr_search r)), (''url'', JStr (sr_url r))]"

definition splunk_route :: "api_env \<Rightarrow> settings \<Rightarrow> json \<Rightarrow> principal \<Rightarrow> database \<Rightarrow> database \<times> (exc + reply)" where
  "splunk_route v s body p db =
     validated (validate_splunk_tool body) (\<lambda>t.
       tool_reply v s ''tool.splunk'' p
         (bind_result (splunk_search (ae_splunk v) (ae_fs v) s (st_search t) (st_earliest t) (st_latest t) (st_max_rows t))
            (\<lambda>r. Inr (JObj [(''search'', JStr (sr_search r))], splunk_json r))) db) db"

definition adx_json :: "adx_result \<Rightarrow> json" where
  "adx_json r = JObj [(''rows'', JArr (map JObj (aq_rows r))), (''count'', JInt (int (aq_count r))),
     (''query'', JStr (aq_query r))]"

definition adx_route :: "api_env \<Rightarrow> settings \<Rightarrow> json \<Rightarrow> principal \<Rightarrow> database \<Rightarrow> database \<times> (exc + reply)" where
  "adx_route v s body p db =
     validated (validate_adx_tool body) (\<lambda>(query, n).
       tool_reply v s ''tool.adx'' p
         (bind_result (adx_query (ae_adx v) (ae_fs v) s query n)
            (\<lambda>r. Inr (JObj [(''query'', JStr (aq_query r))], adx_json r))) db) db"

definition confluence_route :: "api_env \<Rightarrow> settings \<Rightarrow> json \<Rightarrow> principal \<Rightarrow> database \<Rightarrow> database \<times> (exc + reply)" where
  "confluence_route v s body p db =
     validated (validate_confluence_tool body) (\<lambda>(query, n).
       tool_reply v s ''tool.confluence'' p
         (bind_result (confluence_search (ae_confluence v) (ae_fs v) s query n)
            (\<lambda>rs. Inr (JObj [(''query'', JStr query)],
               JObj [(''results'', JArr rs), (''count'', JInt (int (length rs)))]))) db) db"

definition sigma_route :: "api_env \<Rightarrow> settings \<Rightarrow> json \<Rightarrow> principal \<Rightarrow> database \<Rightarrow> database \<times> (exc + reply)" where
  "sigma_route v s body p db =
     validated (validate_sigma_tool body) (\<lambda>rule.
       tool_reply v s ''tool.sigma'' p
         (bind_result (sigma_convert (ae_sigma v) rule)
            (\<lambda>r. Inr (JObj [(''query_count'', get_or_none (members r) ''count'')], r))) db) db"

section \<open>Teams\<close>

definition teams_events ::
  "api_env \<Rightarrow> settings \<Rightarrow> string \<Rightarrow> json option \<Rightarrow> database \<Rightarrow> database \<times> (exc + reply)"
where
  "teams_events v s authorization body db =
     (if \<not> teams_enabled s \<or> \<not> ae_teams v then (db, Inl (HTTPException 404, ''Teams is disabled''))
      else case body of
        None \<Rightarrow> (db, Inl (HTTPException 400, ''malformed JSON''))
      | Some payload \<Rightarrow>
          (case (case validate_activity (ae_validate_token v) (ae_model_validate v) authorization payload of
                   Inl e \<Rightarrow> (db, Inl e)
                 | Inr a \<Rightarrow> handle_lifecycle s (ae_now v) (ae_hex v) (fst (ae_audit v)) a db) of
             (db', Inr answer) \<Rightarrow> (db', Inr (202, answer))
           | (db', Inl e) \<Rightarrow>
               if caught [TeamsAuthenticationError] e
               then (env_audit_to v s ''teams.auth_failed'' ''teams'' (JObj [(''reason'', JStr (snd e))]) db',
                     Inl (HTTPException 401, ''invalid Teams activity''))
               else (db', Inl e)))"

definition installation_view :: "(instant \<Rightarrow> string) \<Rightarrow> installation \<Rightarrow> json" where
  "installation_view isoformat t = JObj
     [(''id'', JStr (t_id t)), (''tenant_id'', JStr (t_tenant_id t)),
      (''conversation_id'', JStr (t_conversation_id t)), (''service_url'', JStr (t_service_url t)),
      (''scope'', JStr (t_scope t)), (''enabled'', JBool (t_enabled t)), (''active'', JBool (t_active t)),
      (''discovered_at'', JStr (isoformat (t_discovered_at t))),
      (''last_seen_at'', JStr (isoformat (t_last_seen_at t)))]"

definition list_installations :: "api_env \<Rightarrow> database \<Rightarrow> exc + reply" where
  "list_installations v db =
     Inr (200, JArr (map (installation_view (ae_isoformat v)) (installations False db)))"

definition update_installation ::
  "api_env \<Rightarrow> settings \<Rightarrow> string \<Rightarrow> json \<Rightarrow> principal \<Rightarrow> database \<Rightarrow> database \<times> (exc + reply)"
where
  "update_installation v s installation_id body p db =
     validated (validate_installation_update body) (\<lambda>enabled.
       case set_installation_enabled (ae_now v) installation_id enabled db of
         (db', None) \<Rightarrow> (db', Inl (HTTPException 409, ''installation not found or inactive''))
       | (db', Some t) \<Rightarrow>
           (env_audit_to v s ''teams.installation_updated'' (p_name p)
              (JObj [(''installation_id'', JStr installation_id), (''enabled'', JBool enabled)]) db',
            Inr (200, installation_view (ae_isoformat v) t))) db"

section \<open>All routes\<close>

datatype request =
    Livez
  | Readyz
  | Create_review_job "json option" "string option"
  | Get_job string
  | Splunk_search "json option"
  | Adx_query "json option"
  | Confluence_search "json option"
  | Sigma_convert "json option"
  | Teams_events string "json option"
  | List_installations
  | Update_installation string "json option"

text \<open>A body that is not JSON is refused before the dependency runs.\<close>

definition with_body ::
  "json option \<Rightarrow> (json \<Rightarrow> api_state \<Rightarrow> api_state \<times> (exc + reply)) \<Rightarrow> api_state \<Rightarrow> api_state \<times> (exc + reply)"
where
  "with_body body f st = (case body of None \<Rightarrow> (st, rejected ''body'') | Some b \<Rightarrow> f b st)"

definition reading :: "(database \<Rightarrow> exc + reply) \<Rightarrow> principal \<Rightarrow> database \<Rightarrow> database \<times> (exc + reply)" where
  "reading f p db = (db, f db)"

fun serve :: "api_env \<Rightarrow> settings \<Rightarrow> caller \<Rightarrow> request \<Rightarrow> api_state \<Rightarrow> api_state \<times> (exc + reply)" where
  "serve v s c Livez st = (st, Inr livez)"
| "serve v s c Readyz st = guarded v s ''admin'' c (reading (readyz v s)) st"
| "serve v s c (Create_review_job body key) st =
     with_body body (\<lambda>b. guarded v s ''reviews:write'' c (create_review_job v s b key)) st"
| "serve v s c (Get_job i) st = guarded v s ''jobs:read'' c (reading (get_job_route v i)) st"
| "serve v s c (Splunk_search body) st = with_body body (\<lambda>b. guarded v s ''tools:splunk'' c (splunk_route v s b)) st"
| "serve v s c (Adx_query body) st = with_body body (\<lambda>b. guarded v s ''tools:adx'' c (adx_route v s b)) st"
| "serve v s c (Confluence_search body) st =
     with_body body (\<lambda>b. guarded v s ''tools:confluence'' c (confluence_route v s b)) st"
| "serve v s c (Sigma_convert body) st = with_body body (\<lambda>b. guarded v s ''tools:sigma'' c (sigma_route v s b)) st"
| "serve v s c (Teams_events authorization body) st =
     (case teams_events v s authorization body (as_db st) of (db', r) \<Rightarrow> (st\<lparr>as_db := db'\<rparr>, r))"
| "serve v s c List_installations st = guarded v s ''teams:admin'' c (reading (list_installations v)) st"
| "serve v s c (Update_installation i body) st =
     with_body body (\<lambda>b. guarded v s ''teams:admin'' c (update_installation v s i b)) st"

section \<open>What the body limit guarantees\<close>

definition body_bytes :: "message list \<Rightarrow> int" where
  "body_bytes ms = int (length (concat (map body_of ms)))"

lemma body_bytes_simps [simp]:
  "body_bytes [] = 0" "body_bytes (m # ms) = int (length (body_of m)) + body_bytes ms"
  "body_bytes (ms @ ms') = body_bytes ms + body_bytes ms'"
  by (simp_all add: body_bytes_def)

lemma body_bytes_nonneg: "0 \<le> body_bytes ms"
  by (simp add: body_bytes_def)

text \<open>The run without a limit.\<close>

fun plain_run :: "(message list \<Rightarrow> 'r option) \<Rightarrow> message list \<Rightarrow> message list \<Rightarrow> message list \<times> 'r option" where
  "plain_run app got [] = (got, app got)"
| "plain_run app got (m # ms) =
     (case app got of Some r \<Rightarrow> (got, Some r) | None \<Rightarrow> plain_run app (got @ [m]) ms)"

lemma limited_run_bound:
  assumes "limited_run limit app got received pending = (shown, r)" and "received = body_bytes got"
    and "body_bytes got \<le> limit"
  shows "body_bytes shown \<le> limit \<and> (\<exists>rest. got @ pending = shown @ rest) \<and> (\<forall>x. r = Inr x \<longrightarrow> app shown = x)"
  using assms
proof (induction pending arbitrary: got received)
  case Nil
  then show ?case by (subst (asm) limited_run.simps) (auto split: option.splits)
next
  case (Cons m ms)
  show ?case
  proof (cases "app got")
    case None
    let ?received = "received + int (length (body_of m))"
    show ?thesis
    proof (cases "m \<noteq> Http_disconnect \<and> limit < ?received")
      case True
      with Cons.prems None show ?thesis by (subst (asm) limited_run.simps) (auto simp: Let_def)
    next
      case False
      then have le: "?received \<le> limit"
        using Cons.prems(2,3) by (cases m) auto
      from Cons.prems(1) None False have "limited_run limit app (got @ [m]) ?received ms = (shown, r)"
        by (subst (asm) limited_run.simps) (auto simp: Let_def)
      from Cons.IH [OF this] Cons.prems(2) le show ?thesis by simp
    qed
  next
    case (Some a)
    with Cons.prems show ?thesis by (subst (asm) limited_run.simps) auto
  qed
qed

lemma limited_run_transparent:
  assumes "received + body_bytes pending \<le> limit"
  shows "limited_run limit app got received pending = (case plain_run app got pending of (g, x) \<Rightarrow> (g, Inr x))"
  using assms
proof (induction pending arbitrary: got received)
  case Nil
  show ?case by (subst limited_run.simps) (simp split: option.split)
next
  case (Cons m ms)
  then have "\<not> limit < received + int (length (body_of m))"
    using body_bytes_nonneg [of ms] by simp
  with Cons show ?case by (subst limited_run.simps) (simp split: option.split)
qed

text \<open>
  C35: The body limit is exact. The application never sees more than \<^verbatim>\<open>max_body_bytes\<close>
  bytes of a body, whatever the sender declares and however it cuts the body into messages; what
  it sees is an initial part of what was sent, and an answer is its own answer to that part. A
  request that declares no length, or one within the limit, and stays within the limit is handled
  as if the middleware were not there.
\<close>

theorem body_limit_exact:
  assumes "0 \<le> limit" and "body_limit limit headers app pending = (shown, r)"
  shows "body_bytes shown \<le> limit \<and> (\<exists>rest. pending = shown @ rest) \<and> (\<forall>x. r = Inr x \<longrightarrow> app shown = x) \<and>
    (body_bytes pending \<le> limit \<and>
      (case map_of (rev headers) ''content-length'' of
         None \<Rightarrow> True | Some t \<Rightarrow> t = [] \<or> (\<exists>n \<le> limit. py_int t = Some n)) \<longrightarrow>
      (shown, r) = (case plain_run app [] pending of (g, x) \<Rightarrow> (g, Inr x)))"
proof -
  let ?run = "limited_run limit app [] 0 pending"
  have run: "?thesis" if "(shown, r) = ?run"
    using limited_run_bound [of limit app "[]" 0 pending shown r] limited_run_transparent [of 0 pending limit app "[]"]
      that assms(1) by auto
  have refused: "?thesis" if "shown = []" "\<exists>e. r = Inl e"
      "\<exists>c cs. map_of (rev headers) ''content-length'' = Some (c # cs) \<and> \<not> (\<exists>n \<le> limit. py_int (c # cs) = Some n)"
    using that assms(1) by auto
  show ?thesis
  proof (cases "map_of (rev headers) ''content-length''")
    case None
    with assms(2) show ?thesis by (intro run) (simp add: body_limit_def)
  next
    case (Some t)
    then consider "t = []" | n where "t \<noteq> []" "py_int t = Some n" "n \<le> limit"
      | "t \<noteq> []" "py_int t = None \<or> (\<exists>n > limit. py_int t = Some n)"
      by (cases "py_int t") (auto simp: not_less [symmetric])
    then show ?thesis
    proof cases
      case 1
      with Some assms(2) have "(shown, r) = ?run" by (simp add: body_limit_def)
      then show ?thesis by (rule run)
    next
      case 2
      with Some assms(2) have "(shown, r) = ?run" by (auto simp: body_limit_def neq_Nil_conv)
      then show ?thesis by (rule run)
    next
      case 3
      with Some assms(2) show ?thesis
        by (intro refused) (auto simp: body_limit_def neq_Nil_conv split: option.splits if_splits)
    qed
  qed
qed

lemma body_limit_exact_witness:
  "fst (body_limit 3 [] (\<lambda>_. None :: nat option) [Http_request ''ab'' True, Http_request ''cd'' False]) = [Http_request ''ab'' True] \<and>
   body_limit 4 [(''content-length'', '' +4'')] (\<lambda>ms. if length ms = 2 then Some (7::nat) else None)
     [Http_request ''ab'' True, Http_request ''cd'' False] =
     ([Http_request ''ab'' True, Http_request ''cd'' False], Inr (Some 7))"
proof
  show "fst (body_limit 3 [] (\<lambda>_. None :: nat option) [Http_request ''ab'' True, Http_request ''cd'' False]) = [Http_request ''ab'' True]"
    by (simp add: body_limit_def limited_run.simps)
next
  let ?app = "\<lambda>ms. if length ms = 2 then Some (7::nat) else None"
  let ?ms = "[Http_request ''ab'' True, Http_request ''cd'' False]"
  obtain shown r where b: "body_limit 4 [(''content-length'', '' +4'')] ?app ?ms = (shown, r)" by fastforce
  have "py_int '' +4'' = Some 4" by code_simp
  with body_limit_exact [OF _ b] b show "body_limit 4 [(''content-length'', '' +4'')] ?app ?ms = (?ms, Inr (Some 7))"
    by simp
qed

end
