(* ===== verification/Worker.thy ===== *)
theory Worker
  imports EngineProperties ConfigFacts
begin

text \<open>
  The worker process (\<^verbatim>\<open>src/sprinter/worker.py\<close>): its start, one iteration of its loop and
  the loop up to the stop signal. What an iteration observes (the clocks, what the model runtime
  answers to the probe, the services) is an argument of the iteration; a run is a list of
  iterations, and the stop signal is the end of the list. Signal handlers and the wait between
  iterations are left out; what the worker logs is in \<open>Logging\<close>.

  Every operation of the loop reads the clock for itself, so an iteration has one reading for each.

  The lemmas show that a worker's run is a run of the job life cycle, that no job is touched
  while the model runtime is unavailable, and that the row in which the worker reports its health
  holds what the last probe found, which the readiness check reads.
\<close>

section \<open>The process\<close>

text \<open>
  The variables of the loop; \<open>next_probe\<close> and \<open>next_purge\<close> are readings of the monotonic clock.
  Of an iteration, \<open>it_beat\<close> is what the clock shows at the heartbeat, after a probe if one is made,
  \<open>it_env\<close> holds the readings while a job is processed, \<open>it_listed\<close> is the reading for which pending
  deliveries are selected, \<open>it_settled\<close> the reading when the delivery with that identifier is
  recorded as sent or failed, and \<open>it_purged\<close> the one of the purge.
\<close>

record worker_state =
  next_probe :: instant
  next_purge :: instant
  pi_ready :: bool
  pi_error :: string

record iteration =
  it_monotonic :: instant
  it_beat :: instant
  it_env :: job_env
  it_probe :: "exc + pi_details"
  it_services :: services
  it_send_card :: "(string \<Rightarrow> json \<Rightarrow> exc + unit) option"
  it_post :: "string \<Rightarrow> json \<Rightarrow> exc + unit"
  it_listed :: instant
  it_settled :: "string \<Rightarrow> instant"
  it_purged :: instant

definition details_json :: "pi_details \<Rightarrow> json" where
  "details_json d = JObj [(''version'', JStr (pd_version d)), (''provider'', JStr (pd_provider d)),
     (''model'', JStr (pd_model d))]"

definition probe_or_beat ::
  "settings \<Rightarrow> iteration \<Rightarrow> worker_state \<Rightarrow> database \<Rightarrow> database \<times> worker_state"
where
  "probe_or_beat s i w db =
     (let now = it_beat i in
      if next_probe w \<le> it_monotonic i then
        (let w' = w\<lparr>next_probe := it_monotonic i + seconds (pi_probe_interval_seconds s)\<rparr> in
         case it_probe i of
           Inr d \<Rightarrow> (heartbeat now True [] (details_json d) db, w'\<lparr>pi_ready := True, pi_error := []\<rparr>)
         | Inl e \<Rightarrow> (heartbeat now False (snd e) JNull db, w'\<lparr>pi_ready := False, pi_error := snd e\<rparr>))
      else (heartbeat now (pi_ready w) (pi_error w) JNull db, w))"

definition flush_and_purge ::
  "(instant \<Rightarrow> instant \<Rightarrow> bool) \<Rightarrow> settings \<Rightarrow> iteration \<Rightarrow> worker_state \<Rightarrow> database \<Rightarrow> database \<times> worker_state"
where
  "flush_and_purge before s i w db =
     (let db1 = fst (flush_outbox (it_send_card i) (it_post i) (sv_fs (it_services i)) s
            (it_listed i) (it_settled i) db) in
      if next_purge w \<le> it_monotonic i
      then (fst (purge before s (it_purged i) db1), w\<lparr>next_purge := it_monotonic i + seconds 86400\<rparr>)
      else (db1, w))"

text \<open>An exception that \<^verbatim>\<open>process_next_job\<close> does not handle ends the process.\<close>

definition worker_iteration ::
  "(instant \<Rightarrow> instant \<Rightarrow> bool) \<Rightarrow> settings \<Rightarrow> iteration \<Rightarrow> worker_state \<Rightarrow> database \<Rightarrow> database \<times> (exc + worker_state)"
where
  "worker_iteration before s i w db =
     (case probe_or_beat s i w db of (db1, w1) \<Rightarrow>
      case (if pi_ready w1 then process_next_job (it_services i) s (it_env i) db1 else (db1, Inr Idle)) of
        (db2, Inl e) \<Rightarrow> (db2, Inl e)
      | (db2, Inr _) \<Rightarrow> (case flush_and_purge before s i w1 db2 of (db3, w3) \<Rightarrow> (db3, Inr w3)))"

fun worker_loop ::
  "(instant \<Rightarrow> instant \<Rightarrow> bool) \<Rightarrow> settings \<Rightarrow> iteration list \<Rightarrow> worker_state \<Rightarrow> database \<Rightarrow> database \<times> (exc + worker_state)"
where
  "worker_loop before s [] w db = (db, Inr w)"
| "worker_loop before s (i # its) w db =
     (case worker_iteration before s i w db of
        (db', Inl e) \<Rightarrow> (db', Inl e)
      | (db', Inr w') \<Rightarrow> worker_loop before s its w' db')"

definition started_worker :: worker_state where
  "started_worker = \<lparr>next_probe = 0, next_purge = 0, pi_ready = True, pi_error = []\<rparr>"

text \<open>
  \<open>writable\<close> tells whether the data directory can be written; \<open>found\<close> is what the probe at the start
  found, \<open>beat\<close> the reading of the clock at the heartbeat that follows it, and \<open>now\<close> the one when
  abandoned jobs are recovered.
\<close>

definition run_worker ::
  "(instant \<Rightarrow> instant \<Rightarrow> bool) \<Rightarrow> file_system \<Rightarrow> bool \<Rightarrow> settings \<Rightarrow> instant \<Rightarrow> instant \<Rightarrow> exc + pi_details \<Rightarrow>
   iteration list \<Rightarrow> database \<Rightarrow> database \<times> (exc + worker_state)"
where
  "run_worker before fs writable s beat now found its db =
     (case validate_runtime fs writable s Role_worker of
        Inl e \<Rightarrow> (db, Inl e)
      | Inr _ \<Rightarrow>
          (case found of
             Inl e \<Rightarrow> (heartbeat beat False (snd e) JNull db, Inl (RuntimeError, ''Pi startup probe failed''))
           | Inr d \<Rightarrow>
               worker_loop before s its started_worker
                 (fst (recover_abandoned_jobs now 900 (heartbeat beat True [] (details_json d) db)))))"

section \<open>What the parts leave alone\<close>

lemma probe_or_beat_tables [simp]: "job_tables (fst (probe_or_beat s i w db)) = job_tables db"
  by (simp add: probe_or_beat_def Let_def split: sum.split)

lemma flush_outbox_tables [simp]: "job_tables (fst (flush_outbox send hec fs s now clock db)) = job_tables db"
  by (simp add: flush_outbox_def flush_items_tables)

lemma flush_items_health: "health (fst (flush_items send clock items db)) = health db"
proof (induction items arbitrary: db)
  case (Cons item items)
  have "health (delivery_succeeded t i db) = health db" "health (delivery_failed t item e db) = health db" for t i e
    by (simp_all add: delivery_succeeded_def delivery_failed_def)
  with Cons.IH [of "delivery_succeeded (clock (o_id item)) (o_id item) db"]
    Cons.IH [of "delivery_failed (clock (o_id item)) item _ db"]
  show ?case by (simp add: case_prod_unfold split: sum.split)
qed simp

lemma worker_loop_append:
  "worker_loop before s (its @ js) w db =
    (case worker_loop before s its w db of
       (db', Inl e) \<Rightarrow> (db', Inl e)
     | (db', Inr w') \<Rightarrow> worker_loop before s js w' db')"
  by (induction its arbitrary: w db) (simp_all add: case_prod_unfold split: sum.split)

text \<open>An iteration either ends the process in \<^verbatim>\<open>process_next_job\<close> or runs to its end.\<close>

lemma worker_iteration_cases:
  assumes "worker_iteration before s i w db = (db', r)"
  obtains (died) db1 w1 e where "probe_or_beat s i w db = (db1, w1)" "pi_ready w1"
      "process_next_job (it_services i) s (it_env i) db1 = (db', Inl e)" "r = Inl e"
  | (completed) db1 w1 db2 w2 where "probe_or_beat s i w db = (db1, w1)"
      "if pi_ready w1 then \<exists>out. process_next_job (it_services i) s (it_env i) db1 = (db2, Inr out) else db2 = db1"
      "flush_and_purge before s i w1 db2 = (db', w2)" "r = Inr w2"
  using assms by (auto simp: worker_iteration_def split: prod.splits sum.splits if_splits)

section \<open>A worker's run is a run of the life cycle\<close>

lemma run_purge:
  assumes "steps_star (lifecycle s before) st0 st" and "job_tables db1 = job_tables (store st)"
  shows "\<exists>p. steps_star (lifecycle s before) st0 (st\<lparr>store := fst (purge before s now db1), purged := p\<rparr>)"
proof -
  let ?st1 = "st\<lparr>store := db1\<rparr>"
  have "steps_star (lifecycle s before) st0 ?st1"
    using assms(1) lifecycle.unrelated [OF assms(2)] by (rule steps_star.steps_step)
  moreover obtain db2 c where "purge before s now (store ?st1) = (db2, c)" by fastforce
  moreover from this have "lifecycle s before ?st1 (?st1\<lparr>store := db2,
      purged := purged ?st1 \<union> j_id ` (set (jobs (store ?st1)) - set (jobs db2))\<rparr>)"
    by (rule lifecycle.retain)
  ultimately show ?thesis by (auto dest: steps_star.steps_step)
qed

lemma flush_and_purge_run:
  assumes "steps_star (lifecycle s before) st0 st" and "flush_and_purge before s i w (store st) = (db', w')"
  shows "\<exists>p. steps_star (lifecycle s before) st0 (st\<lparr>store := db', purged := p\<rparr>)"
proof -
  define db1 where "db1 = fst (flush_outbox (it_send_card i) (it_post i) (sv_fs (it_services i)) s
    (it_listed i) (it_settled i) (store st))"
  have t: "job_tables db1 = job_tables (store st)" by (simp add: db1_def)
  show ?thesis
  proof (cases "next_purge w \<le> it_monotonic i")
    case True
    then show ?thesis
      using run_purge [OF assms(1) t, of "it_purged i"] assms(2)
      by (auto simp: flush_and_purge_def Let_def db1_def)
  next
    case False
    then have "db' = db1" using assms(2) by (simp add: flush_and_purge_def Let_def db1_def)
    then have "lifecycle s before st (st\<lparr>store := db', purged := purged st\<rparr>)"
      using lifecycle.unrelated [OF t] by simp
    with assms(1) show ?thesis by (blast intro: steps_star.steps_step)
  qed
qed

lemma worker_iteration_run:
  assumes "holds st = None" and it: "worker_iteration before s i w (store st) = (db', r)"
  shows "\<exists>h p. steps_star (lifecycle s before) st (st\<lparr>store := db', holds := h, purged := p\<rparr>) \<and>
    ((\<exists>w'. r = Inr w') \<longrightarrow> h = None)"
proof -
  obtain db1 w1 where p: "probe_or_beat s i w (store st) = (db1, w1)" by fastforce
  let ?st1 = "st\<lparr>store := db1\<rparr>"
  have "job_tables db1 = job_tables (store st)"
    using probe_or_beat_tables [of s i w "store st"] p by simp
  then have run1: "steps_star (lifecycle s before) st ?st1"
    by (intro run_one lifecycle.unrelated)
  have pr: "\<exists>h. steps_star (lifecycle s before) st (st\<lparr>store := db2, holds := h\<rparr>) \<and> ((\<exists>out. res = Inr out) \<longrightarrow> h = None)"
    if "process_next_job (it_services i) s (it_env i) db1 = (db2, res)" for db2 res
    using process_run [of ?st1 "it_services i" s "it_env i" db2 res before] that assms(1)
      steps_star_trans [OF _ run1] by auto
  from it show ?thesis
  proof (cases rule: worker_iteration_cases)
    case (died db1' w1' e)
    with p pr [of db' "Inl e"] obtain h where
      "steps_star (lifecycle s before) st (st\<lparr>store := db', holds := h, purged := purged st\<rparr>)" by auto
    with died show ?thesis by blast
  next
    case (completed db1' w1' db2 w2)
    have "steps_star (lifecycle s before) st (st\<lparr>store := db2, holds := None\<rparr>)"
    proof (cases "pi_ready w1")
      case True
      with completed p pr [of db2 "Inr _"] show ?thesis by auto
    next
      case False
      with completed p run1 assms(1) show ?thesis by (cases st) simp
    qed
    from flush_and_purge_run [OF this, of i w1 db' w2] completed p obtain q where
      "steps_star (lifecycle s before) st (st\<lparr>store := db', holds := None, purged := q\<rparr>)" by (cases st) auto
    then show ?thesis by blast
  qed
qed

lemma worker_loop_run:
  assumes "holds st = None" and "worker_loop before s its w (store st) = (db', r)"
  shows "\<exists>h p. steps_star (lifecycle s before) st (st\<lparr>store := db', holds := h, purged := p\<rparr>) \<and>
    ((\<exists>w'. r = Inr w') \<longrightarrow> h = None)"
  using assms
proof (induction its arbitrary: w st)
  case Nil
  then have "st\<lparr>store := db', holds := None, purged := purged st\<rparr> = st" by (cases st) simp
  then show ?case using steps_star.steps_refl [of "lifecycle s before" st] by metis
next
  case (Cons i its)
  obtain db1 r1 where it: "worker_iteration before s i w (store st) = (db1, r1)" by fastforce
  from worker_iteration_run [OF Cons.prems(1) it] obtain h p where
    run: "steps_star (lifecycle s before) st (st\<lparr>store := db1, holds := h, purged := p\<rparr>)" and
    h: "(\<exists>w'. r1 = Inr w') \<longrightarrow> h = None" by blast
  show ?case
  proof (cases r1)
    case (Inl e)
    with Cons.prems it run show ?thesis by auto
  next
    case (Inr w1)
    let ?st1 = "st\<lparr>store := db1, holds := None, purged := p\<rparr>"
    from Cons.IH [of ?st1 w1] Cons.prems(2) it Inr obtain h' p' where
      "steps_star (lifecycle s before) ?st1 (?st1\<lparr>store := db', holds := h', purged := p'\<rparr>)"
      "(\<exists>w'. r = Inr w') \<longrightarrow> h' = None" by auto
    with run h Inr steps_star_trans [of "lifecycle s before" ?st1 _ st] show ?thesis by auto
  qed
qed

lemma recovered_start_run:
  assumes "holds st = None" and "job_tables db1 = job_tables (store st)"
  shows "steps_star (lifecycle s before) st (st\<lparr>store := fst (recover_abandoned_jobs now n db1)\<rparr>)"
proof -
  have "lifecycle s before st (st\<lparr>store := db1\<rparr>)" by (rule lifecycle.unrelated [OF assms(2)])
  moreover obtain db2 k where "recover_abandoned_jobs now n (store (st\<lparr>store := db1\<rparr>)) = (db2, k)"
    by fastforce
  moreover from this have "lifecycle s before (st\<lparr>store := db1\<rparr>) (st\<lparr>store := db1, store := db2\<rparr>)"
    using lifecycle.recover [of "st\<lparr>store := db1\<rparr>" now n db2 k s before] assms(1) by simp
  ultimately show ?thesis
    by (auto intro: steps_star_head run_one)
qed

lemma run_without_jobs:
  assumes "holds st = None" and "job_tables db' = job_tables (store st)"
  shows "steps_star (lifecycle s before) st (st\<lparr>store := db', holds := None, purged := purged st\<rparr>)"
proof -
  have "lifecycle s before st (st\<lparr>store := db', holds := None, purged := purged st\<rparr>)"
    using lifecycle.unrelated [OF assms(2), of s before] assms(1) by (cases st) simp
  then show ?thesis by (rule run_one)
qed

lemma worker_run:
  assumes "holds st = None" and "run_worker before fs writable s beat now found its (store st) = (db', r)"
  shows "\<exists>h p. steps_star (lifecycle s before) st (st\<lparr>store := db', holds := h, purged := p\<rparr>) \<and>
    ((\<exists>w. r = Inr w) \<longrightarrow> h = None)"
proof -
  show ?thesis
  proof (cases "validate_runtime fs writable s Role_worker")
    case (Inl e)
    with assms(2) have "job_tables db' = job_tables (store st)"
      by (auto simp: run_worker_def)
    from run_without_jobs [OF assms(1) this] show ?thesis by blast
  next
    case valid: (Inr u)
    show ?thesis
    proof (cases found)
      case (Inl e)
      with valid assms(2) have "job_tables db' = job_tables (store st)"
        by (auto simp: run_worker_def)
      from run_without_jobs [OF assms(1) this] show ?thesis by blast
    next
      case (Inr d)
      let ?db1 = "heartbeat beat True [] (details_json d) (store st)"
      let ?st1 = "st\<lparr>store := fst (recover_abandoned_jobs now 900 ?db1)\<rparr>"
      have start: "steps_star (lifecycle s before) st ?st1"
        by (rule recovered_start_run [OF assms(1)]) simp
      have "worker_loop before s its started_worker (store ?st1) = (db', r)"
        using assms(2) valid Inr by (simp add: run_worker_def)
      from worker_loop_run [OF _ this] assms(1) steps_star_trans [OF _ start] show ?thesis by fastforce
    qed
  qed
qed

text \<open>
  C2: A worker process is a run of the job life cycle: whatever the services, the clocks and the
  probes do, and however many iterations it makes until it is stopped or dies of an error that
  \<^verbatim>\<open>process_next_job\<close> lets through, what it does to the database is a sequence of life-cycle
  steps, and it holds no job when it stops orderly. So all invariants of the life cycle hold of
  the database at every moment of the process.
\<close>

theorem worker_refines_lifecycle:
  assumes "holds st = None" and "run_worker before fs writable s beat now found its (store st) = (db', r)"
  shows "\<exists>h p. steps_star (lifecycle s before) st (st\<lparr>store := db', holds := h, purged := p\<rparr>) \<and>
    ((\<exists>w. r = Inr w) \<longrightarrow> h = None)"
  using assms by (rule worker_run)

section \<open>An unavailable model runtime\<close>

text \<open>The jobs of a later database that differs only by a purge.\<close>

definition only_purged :: "database \<Rightarrow> database \<Rightarrow> bool" where
  "only_purged db db' =
     (set (jobs db') \<subseteq> set (jobs db) \<and> {j \<in> set (jobs db). \<not> terminal j} \<subseteq> set (jobs db') \<and>
      set (decisions db') \<subseteq> set (decisions db))"

lemma only_purged_trans: "only_purged db db1 \<Longrightarrow> only_purged db1 db2 \<Longrightarrow> only_purged db db2"
  by (auto simp: only_purged_def)

lemma only_purged_tables: "job_tables db' = job_tables db \<Longrightarrow> only_purged db db'"
  by (simp add: only_purged_def job_tables_def)

lemma only_purged_purge: "only_purged db (fst (purge before s now db))"
  by (auto simp: only_purged_def purge_cascade(2) [OF refl] stale_job_def)

lemma only_purged_flush_and_purge: "only_purged db (fst (flush_and_purge before s i w db))"
  using only_purged_trans [OF only_purged_tables [OF flush_outbox_tables] only_purged_purge]
    only_purged_tables [OF flush_outbox_tables]
  by (simp add: flush_and_purge_def Let_def)

lemma iteration_without_model:
  assumes "\<not> pi_ready (snd (probe_or_beat s i w db))"
  shows "\<exists>db' w'. worker_iteration before s i w db = (db', Inr w') \<and> only_purged db db' \<and> \<not> pi_ready w'"
proof -
  obtain db1 w1 where p: "probe_or_beat s i w db = (db1, w1)" by fastforce
  with probe_or_beat_tables [of s i w db] have "only_purged db db1" by (intro only_purged_tables) simp
  moreover obtain db2 w2 where f: "flush_and_purge before s i w1 db1 = (db2, w2)" by fastforce
  ultimately have "only_purged db db2"
    using only_purged_flush_and_purge [of db1 before s i w1] by (auto intro: only_purged_trans)
  moreover have "pi_ready w2 = pi_ready w1"
    using f by (auto simp: flush_and_purge_def Let_def split: if_splits)
  ultimately show ?thesis using assms p f by (simp add: worker_iteration_def)
qed

lemma failing_probe:
  assumes "it_probe i = Inl e" and "next_probe w \<le> it_monotonic i \<or> \<not> pi_ready w"
  shows "\<not> pi_ready (snd (probe_or_beat s i w db))"
  using assms by (auto simp: probe_or_beat_def Let_def)

text \<open>
  C27: While the model runtime is unavailable no job is lost or used up. From the first failing
  probe on, and for as long as the probes fail, the worker keeps running and claims nothing:
  every job that is not finished stays exactly as it is, with its attempts, no decision is
  added, and only finished jobs may go, by retention.
\<close>

theorem outage_pauses_reviews:
  assumes "\<forall>i \<in> set its. \<exists>e. it_probe i = Inl e"
    and "its \<noteq> []" and "next_probe w \<le> it_monotonic (hd its) \<or> \<not> pi_ready w"
  shows "\<exists>db' w'. worker_loop before s its w db = (db', Inr w') \<and> \<not> pi_ready w' \<and>
    set (jobs db') \<subseteq> set (jobs db) \<and> {j \<in> set (jobs db). \<not> terminal j} \<subseteq> set (jobs db') \<and>
    set (decisions db') \<subseteq> set (decisions db)"
  unfolding only_purged_def [symmetric] using assms
proof (induction its arbitrary: w db)
  case (Cons i its)
  then obtain e where "it_probe i = Inl e" by auto
  then have "\<not> pi_ready (snd (probe_or_beat s i w db))" using Cons.prems(3) by (intro failing_probe) simp_all
  from iteration_without_model [OF this, of before] obtain db1 w1 where
    it: "worker_iteration before s i w db = (db1, Inr w1)" "only_purged db db1" "\<not> pi_ready w1" by blast
  show ?case
  proof (cases "its = []")
    case False
    with Cons.IH [of w1 db1] Cons.prems(1) it(3) obtain db' w' where
      "worker_loop before s its w1 db1 = (db', Inr w')" "\<not> pi_ready w'" "only_purged db1 db'" by auto
    with it show ?thesis by (auto intro: only_purged_trans)
  qed (use it in auto)
qed simp

section \<open>Readiness follows the probes\<close>

lemma container_audit_health [simp]: "health (fst (container_audit s now hexes t a p db)) = health db"
  by (simp add: container_audit_def audit_def enqueue_def Let_def)

lemma enqueue_notifications_health [simp]:
  "health (fst (enqueue_notifications s now hexes j d ev m db)) = health db"
proof -
  have "health (enqueue_all now hexes n p ts db) = health db" for n p ts
    by (induction ts arbitrary: n db) (simp_all add: enqueue_def Let_def)
  then show ?thesis by (simp add: enqueue_notifications_def Let_def split: json.split)
qed

lemma handle_failure_health [simp]: "health (fst (handle_failure s env j e db)) = health db"
  by (simp add: handle_failure_def retry_job_def Let_def)

lemma complete_job_health [simp]: "health (fst (complete_job s now hx j md key ev m db)) = health db"
  by (simp add: complete_job_def Let_def)

lemma store_result_health [simp]: "health (fst (store_result sv s env j ev r db)) = health db"
proof -
  obtain db1 r1 where c: "complete_job s (env_settled env) (env_hexes env) j (pr_decision r)
      (finding_key (sv_sha256 sv) j ev) ev (model_of r) db = (db1, r1)" by fastforce
  then have "health db1 = health db" using complete_job_health by (metis fst_conv)
  then show ?thesis
    by (auto simp: store_result_def Let_def c case_prod_unfold split: sum.split)
qed

lemma process_next_job_health: "health (fst (process_next_job sv s env db)) = health db"
proof -
  obtain db1 r where c: "claim_job (env_now env) db db = (db1, r)" by fastforce
  then have "health db1 = health db" by (cases rule: claim_job_cases) simp_all
  then show ?thesis
    by (auto simp: process_next_job_def c split: option.split sum.split)
qed

lemma worker_iteration_health:
  assumes "worker_iteration before s i w db = (db', Inr w')"
  shows "health db' = health (fst (probe_or_beat s i w db)) \<and>
    pi_ready w' = pi_ready (snd (probe_or_beat s i w db)) \<and> pi_error w' = pi_error (snd (probe_or_beat s i w db)) \<and>
    next_probe w' = next_probe (snd (probe_or_beat s i w db))"
  using assms
proof (cases rule: worker_iteration_cases)
  case (completed db1 w1 db2 w2)
  have "health db2 = health db1"
    using completed(2) process_next_job_health [of "it_services i" s "it_env i" db1] by (auto split: if_splits)
  moreover have "health db' = health db2" "pi_ready w' = pi_ready w1" "pi_error w' = pi_error w1"
    "next_probe w' = next_probe w1"
    using completed(3,4) flush_items_health
    by (auto simp: flush_and_purge_def flush_outbox_def Let_def split: if_splits)
  ultimately show ?thesis using completed(1) by simp
qed simp

text \<open>The loop's variables hold the outcome of the probe \<open>k\<close>, the last one made.\<close>

definition last_probe :: "settings \<Rightarrow> iteration \<Rightarrow> worker_state \<Rightarrow> bool" where
  "last_probe s k w =
     (next_probe w = it_monotonic k + seconds (pi_probe_interval_seconds s) \<and>
      (case it_probe k of Inr _ \<Rightarrow> pi_ready w \<and> pi_error w = []
       | Inl e \<Rightarrow> \<not> pi_ready w \<and> pi_error w = snd e))"

lemma probe_or_beat_last_probe:
  assumes "probe_or_beat s i w db = (db', w')"
  shows "(if next_probe w \<le> it_monotonic i then last_probe s i w' else w' = w) \<and>
    (\<exists>d. db' = heartbeat (it_beat i) (pi_ready w') (pi_error w') d db)"
  using assms by (auto simp: probe_or_beat_def last_probe_def Let_def split: if_splits sum.splits)

lemma worker_loop_last_probe:
  assumes "worker_loop before s its w db = (db', Inr w')" and "its \<noteq> []"
    and "next_probe w \<le> it_monotonic (hd its)"
  shows "\<exists>k \<in> set its. last_probe s k w'"
  using assms
proof (induction its arbitrary: db' w' rule: rev_induct)
  case (snoc i its)
  obtain db1 w1 where l: "worker_loop before s its w db = (db1, Inr w1)"
      and it: "worker_iteration before s i w1 db1 = (db', Inr w')"
    using snoc.prems(1) by (auto simp: worker_loop_append split: prod.splits sum.splits)
  define w2 where "w2 = snd (probe_or_beat s i w1 db1)"
  have same: "last_probe s k w' = last_probe s k w2" for k
    using worker_iteration_health [OF it] by (auto simp: last_probe_def w2_def split: sum.split)
  have step: "if next_probe w1 \<le> it_monotonic i then last_probe s i w2 else w2 = w1"
    using probe_or_beat_last_probe [of s i w1 db1 "fst (probe_or_beat s i w1 db1)" w2]
    by (simp add: w2_def split: if_splits)
  show ?case
  proof (cases "its = []")
    case True
    with l step snoc.prems(3) show ?thesis by (simp add: same)
  next
    case False
    with snoc.IH [OF l False] snoc.prems(3) obtain k where "k \<in> set its" "last_probe s k w1" by auto
    with step show ?thesis by (auto simp: same split: if_splits)
  qed
qed simp

text \<open>
  C28: The worker's health row holds what the worker last found. After any iterations of a started
  worker, the row carries the time of the last iteration's heartbeat, and the outcome of a probe the
  worker made less than the probe interval before that iteration: the model runtime is ready if it
  succeeded, and otherwise the error is the one that it raised, cut to 4,000 characters. The
  readiness check reads just this row: were timestamps loaded with their time zone, it would report
  these values and count the worker as fresh for the configured number of seconds; SQLite loads
  them without, and then, as the worker has reported, the check raises \<^verbatim>\<open>TypeError\<close>.
\<close>

theorem readiness_follows_probes:
  assumes "worker_loop before s (its @ [i]) started_worker db = (db', Inr w)"
    and "0 \<le> it_monotonic (hd (its @ [i]))" and "0 < pi_probe_interval_seconds s"
  shows "\<exists>k \<in> set (its @ [i]). \<exists>h. get_by h_role ''worker'' (health db') = Some h \<and>
    it_monotonic i - seconds (pi_probe_interval_seconds s) < it_monotonic k \<and>
    h_heartbeat_at h = it_beat i \<and> h_pi_checked_at h = Some (it_beat i) \<and>
    h_pi_ready h = (\<exists>d. it_probe k = Inr d) \<and>
    h_pi_error h = (case it_probe k of Inr _ \<Rightarrow> [] | Inl e \<Rightarrow> take 4000 (snd e)) \<and>
    readiness aware s now db' =
      (if aware then
         Inr \<lparr>rv_worker_heartbeat = Some (it_beat i),
              rv_worker_fresh = (now - seconds (worker_stale_seconds s) \<le> it_beat i),
              rv_pi_ready = h_pi_ready h, rv_pi_error = h_pi_error h,
              rv_enabled_teams_destinations = rowcount (\<lambda>x. t_enabled x \<and> t_active x) (installs db')\<rparr>
       else Inl (TypeError, ''can't compare offset-naive and offset-aware datetimes''))"
proof -
  obtain db1 w1 where l: "worker_loop before s its started_worker db = (db1, Inr w1)"
      and it: "worker_iteration before s i w1 db1 = (db', Inr w)"
    using assms(1) by (auto simp: worker_loop_append split: prod.splits sum.splits)
  obtain db2 w2 where p: "probe_or_beat s i w1 db1 = (db2, w2)" by fastforce
  note h = worker_iteration_health [OF it, unfolded p fst_conv snd_conv]
  obtain k where k: "k \<in> set (its @ [i])" "last_probe s k w"
    using worker_loop_last_probe [OF assms(1)] assms(2) by (auto simp: started_worker_def)
  have "it_monotonic i < next_probe w"
    using probe_or_beat_last_probe [OF p] h assms(3)
    by (auto simp: last_probe_def seconds_def split: if_splits)
  then have recent: "it_monotonic i - seconds (pi_probe_interval_seconds s) < it_monotonic k"
    using k(2) by (simp add: last_probe_def)
  from probe_or_beat_last_probe [OF p] obtain d where
    "db2 = heartbeat (it_beat i) (pi_ready w) (pi_error w) d db1" using h by auto
  with h have hb: "health db' = health (heartbeat (it_beat i) (pi_ready w) (pi_error w) d db1)" by simp
  from heartbeat_row [of "it_beat i" "pi_ready w" "pi_error w" d db1] obtain r where
    r: "get_by h_role ''worker'' (health db') = Some r" "h_heartbeat_at r = it_beat i"
      "h_pi_checked_at r = Some (it_beat i)" "h_pi_ready r = pi_ready w" "h_pi_error r = take 4000 (pi_error w)"
    using hb by auto
  then show ?thesis using k recent readiness_reports_row [OF r(1), of aware s now]
    by (intro bexI [of _ k] exI [of _ r]) (auto simp: last_probe_def split: sum.splits)
qed

section \<open>Witnesses\<close>

definition quiet_iteration :: "instant \<Rightarrow> exc + pi_details \<Rightarrow> iteration" where
  "quiet_iteration t found = \<lparr>it_monotonic = t, it_beat = t, it_env = sample_env, it_probe = found,
     it_services = failing_services, it_send_card = None, it_post = (\<lambda>_ _. Inr ()),
     it_listed = t, it_settled = (\<lambda>_. t), it_purged = t\<rparr>"

lemma worker_refines_lifecycle_witness:
  "\<exists>db' r h p. run_worker (<) sample_files True sample_settings 5 6 (Inl (PiUnavailable, ''down'')) [] submitted_db = (db', r) \<and>
     steps_star (lifecycle sample_settings (<)) idle_state (idle_state\<lparr>store := db', holds := h, purged := p\<rparr>)"
proof -
  obtain db' r where w: "run_worker (<) sample_files True sample_settings 5 6 (Inl (PiUnavailable, ''down'')) []
      (store idle_state) = (db', r)" by fastforce
  moreover have "holds idle_state = None" by (simp add: idle_state_def)
  ultimately show ?thesis
    using worker_refines_lifecycle [OF _ w] by (auto simp: idle_state_def)
qed

lemma outage_pauses_reviews_witness:
  "\<exists>db' w'. worker_loop (<) default_settings
      [quiet_iteration 1 (Inl (PiUnavailable, ''down'')), quiet_iteration 2 (Inl (PiUnavailable, ''down''))]
      started_worker submitted_db = (db', Inr w') \<and> sample_job \<in> set (jobs db')"
proof -
  let ?is = "[quiet_iteration 1 (Inl (PiUnavailable, ''down'')), quiet_iteration 2 (Inl (PiUnavailable, ''down''))]"
  have "sample_job \<in> {j \<in> set (jobs submitted_db). \<not> terminal j}"
    by (simp add: submitted_db_def terminal_def)
  then show ?thesis
    using outage_pauses_reviews [of ?is started_worker "(<)" default_settings submitted_db]
    by (auto simp: quiet_iteration_def started_worker_def)
qed

lemma readiness_follows_probes_witness:
  "\<exists>db' w. worker_loop (<) default_settings [quiet_iteration 1 (Inl (PiUnavailable, ''down''))] started_worker
      submitted_db = (db', Inr w) \<and>
    (\<exists>h. get_by h_role ''worker'' (health db') = Some h \<and> \<not> h_pi_ready h \<and> h_pi_error h = ''down'') \<and>
    (\<exists>e. readiness False default_settings 9 db' = Inl e)"
proof -
  let ?i = "quiet_iteration 1 (Inl (PiUnavailable, ''down''))"
  have "\<not> pi_ready (snd (probe_or_beat default_settings ?i started_worker submitted_db))"
    by (simp add: probe_or_beat_def quiet_iteration_def started_worker_def Let_def)
  from iteration_without_model [OF this, of "(<)"] obtain db' w where
    l: "worker_loop (<) default_settings ([] @ [?i]) started_worker submitted_db = (db', Inr w)"
    by (auto)
  have "0 < pi_probe_interval_seconds default_settings" by (simp add: default_settings_def)
  with readiness_follows_probes [OF l, of False 9] l show ?thesis
    by (auto simp: quiet_iteration_def)
qed

end
