(* ===== verification/ApiProperties.thy ===== *)
theory ApiProperties
  imports Api Worker
begin

text \<open>
  The properties of the HTTP interface: who may change what, that requests are steps of the job
  life cycle, and what the statuses mean.
\<close>

section \<open>Requests and their effects\<close>

text \<open>The caller presents a token of a configured record that grants the scope.\<close>

definition authorised :: "api_env \<Rightarrow> settings \<Rightarrow> caller \<Rightarrow> string \<Rightarrow> bool" where
  "authorised v s c scope =
     (\<exists>scheme token r. ca_credentials c = Some (scheme, token) \<and> lower scheme = ''bearer'' \<and>
        r \<in> set (configured_records s) \<and> ae_verify v token (tr_verifier r) = Inr True \<and>
        (''admin'' \<in> tr_scopes r \<or> scope \<in> tr_scopes r))"

text \<open>Neither the job tables nor the destinations change.\<close>

definition untouched :: "database \<Rightarrow> database \<Rightarrow> bool" where
  "untouched db db' = (job_tables db' = job_tables db \<and> installs db' = installs db)"

lemma untouched_refl [simp]: "untouched db db"
  by (simp add: untouched_def)

lemma untouched_audit [simp]: "untouched db (env_audit_to v s t a p db)"
  by (simp add: untouched_def env_audit_to_def)

lemma guarded_cases:
  assumes "guarded v s scope c handler st = (st', r)"
  obtains (denied) e where "r = Inl e" "untouched (as_db st) (as_db st')"
  | (granted) p where "authorised v s c scope" "handler p (as_db st) = (as_db st', r)"
proof -
  obtain st1 out where q: "require_scope (env_audit_to v s) (ae_verify v) (configured_records s) scope
      (ca_credentials c) (ca_host c) (ae_monotonic v) st = (st1, out)" by fastforce
  show ?thesis
  proof (cases out)
    case (Inl e)
    have "untouched (as_db st) (as_db st1)" using q by (cases rule: require_scope_cases) simp_all
    with assms q Inl show ?thesis by (intro denied) (auto simp: guarded_def)
  next
    case (Inr p)
    from require_scope_granted [OF q [unfolded Inr]] have "as_db st1 = as_db st" "authorised v s c scope"
      by (auto simp: authorised_def)
    with assms q Inr show ?thesis by (intro granted) (auto simp: guarded_def split: prod.splits)
  qed
qed

lemma tool_reply_untouched: "untouched db (fst (tool_reply v s t p x db))"
  by (simp add: tool_reply_def case_prod_unfold split: sum.split)

lemma routes_untouched:
  "untouched db (fst (splunk_route v s b p db))" "untouched db (fst (adx_route v s b p db))"
  "untouched db (fst (confluence_route v s b p db))" "untouched db (fst (sigma_route v s b p db))"
  by (simp_all add: splunk_route_def adx_route_def confluence_route_def sigma_route_def validated_def
      tool_reply_untouched case_prod_unfold split: sum.split)

text \<open>Every request is one of four kinds, by what it may change.\<close>

lemma serve_cases:
  assumes "serve v s c req st = (st', r)"
  obtains (kept) "untouched (as_db st) (as_db st')"
  | (submitted) b key p where "req = Create_review_job (Some b) key" "authorised v s c ''reviews:write''"
      "create_review_job v s b key p (as_db st) = (as_db st', r)"
  | (notified) a body where "req = Teams_events a body" "teams_events v s a body (as_db st) = (as_db st', r)"
  | (updated) i b p where "req = Update_installation i (Some b)" "authorised v s c ''teams:admin''"
      "update_installation v s i b p (as_db st) = (as_db st', r)"
proof -
  have still: thesis if "guarded v s scope c handler st = (st', r)" "\<And>p. untouched (as_db st) (fst (handler p (as_db st)))"
    for scope handler
    using that(1)
  proof (cases rule: guarded_cases)
    case (granted p)
    with that(2) [of p] show ?thesis by (intro kept) simp
  qed (rule kept)
  have body: thesis if "with_body b (\<lambda>x. guarded v s scope c (f x)) st = (st', r)"
      "\<And>x p. untouched (as_db st) (fst (f x p (as_db st)))" for b scope f
  proof (cases b)
    case None
    with that(1) show ?thesis by (intro kept) (simp add: with_body_def)
  next
    case (Some x)
    with that(1) have "guarded v s scope c (f x) st = (st', r)" by (simp add: with_body_def)
    then show ?thesis using that(2) by (rule still)
  qed
  show ?thesis
  proof (cases req)
    case Livez
    with assms show ?thesis by (intro kept) simp
  next
    case Readyz
    from assms [unfolded Readyz serve.simps] show ?thesis by (rule still) (simp add: reading_def)
  next
    case (Get_job i)
    from assms [unfolded Get_job serve.simps] show ?thesis by (rule still) (simp add: reading_def)
  next
    case List_installations
    from assms [unfolded List_installations serve.simps] show ?thesis by (rule still) (simp add: reading_def)
  next
    case (Splunk_search b)
    from assms [unfolded Splunk_search serve.simps] show ?thesis by (rule body) (rule routes_untouched)
  next
    case (Adx_query b)
    from assms [unfolded Adx_query serve.simps] show ?thesis by (rule body) (rule routes_untouched)
  next
    case (Confluence_search b)
    from assms [unfolded Confluence_search serve.simps] show ?thesis by (rule body) (rule routes_untouched)
  next
    case (Sigma_convert b)
    from assms [unfolded Sigma_convert serve.simps] show ?thesis by (rule body) (rule routes_untouched)
  next
    case (Teams_events a b)
    with assms show ?thesis by (intro notified) (auto split: prod.splits)
  next
    case (Create_review_job b key)
    show ?thesis
    proof (cases b)
      case None
      with assms Create_review_job show ?thesis by (intro kept) (simp add: with_body_def)
    next
      case (Some x)
      with assms Create_review_job have "guarded v s ''reviews:write'' c (create_review_job v s x key) st = (st', r)"
        by (simp add: with_body_def)
      then show ?thesis using Create_review_job Some kept submitted by (cases rule: guarded_cases) auto
    qed
  next
    case (Update_installation i b)
    show ?thesis
    proof (cases b)
      case None
      with assms Update_installation show ?thesis by (intro kept) (simp add: with_body_def)
    next
      case (Some x)
      with assms Update_installation have "guarded v s ''teams:admin'' c (update_installation v s i x) st = (st', r)"
        by (simp add: with_body_def)
      then show ?thesis using Update_installation Some kept updated by (cases rule: guarded_cases) auto
    qed
  qed
qed

lemma untouched_trans: "untouched a b \<Longrightarrow> untouched b c \<Longrightarrow> untouched a c"
  by (simp add: untouched_def)

text \<open>The outcomes of a submission.\<close>

lemma create_review_job_cases:
  assumes "create_review_job v s b header p db = (db', r)"
  obtains (refused) "db' = db" "(\<exists>f. r = rejected f) \<or> (\<exists>e. r = Inl e)"
  | (accepted) key rq db1 j created where "header = Some key" "8 \<le> length key" "length key \<le> 128"
      "validate_review_request b = Inr rq"
      "create_job s (ae_now v) (ae_hex v) (ae_seen v) key (selector_type (rr_selector rq))
         (JObj (dump_selector (rr_selector rq))) (rr_source rq) (redact (redaction_keys s) (JObj (rr_summary rq)))
         (min (rr_limit rq) (prompt_max_rows s)) db = (db1, Inr (j, created))"
      "untouched db1 db'" "r = Inr (202, accepted_job j created)"
proof (cases "bind_result (valid_key header) (\<lambda>key. bind_result (validate_review_request b) (\<lambda>r. Inr (key, r)))")
  case (Inl e)
  with assms show ?thesis by (intro refused) (auto simp: create_review_job_def validated_def)
next
  case (Inr kr)
  obtain key rq where kr: "kr = (key, rq)" by (cases kr)
  from Inr kr have k: "header = Some key" "8 \<le> length key" "length key \<le> 128" "validate_review_request b = Inr rq"
    by (auto simp: bind_result_Inr_iff valid_key_def invalid_def split: option.splits if_splits)
  obtain db1 x where c: "create_job s (ae_now v) (ae_hex v) (ae_seen v) key (selector_type (rr_selector rq))
      (JObj (dump_selector (rr_selector rq))) (rr_source rq) (redact (redaction_keys s) (JObj (rr_summary rq)))
      (min (rr_limit rq) (prompt_max_rows s)) db = (db1, x)" by fastforce
  have route: "create_review_job v s b header p db =
      (case submit_review s (ae_now v) (ae_hex v) (ae_audit v) (ae_seen v) rq key (p_name p) db of
         (db', Inl e) \<Rightarrow> (db', Inl e) | (db', Inr (j, created)) \<Rightarrow> (db', Inr (202, accepted_job j created)))"
    by (simp add: create_review_job_def validated_def Inr kr)
  show ?thesis
  proof (cases x)
    case (Inl e)
    then have "db1 = db" using c by (auto simp: create_job_def Let_def split: option.splits if_splits)
    with Inl c route assms show ?thesis by (intro refused) (auto simp: submit_review_def Let_def)
  next
    case (Inr jc)
    with c route assms k show ?thesis
      by (cases jc) (auto simp: submit_review_def Let_def untouched_def intro!: accepted)
  qed
qed

lemma teams_events_tables: "job_tables (fst (teams_events v s a body db)) = job_tables db"
proof -
  have h: "job_tables (fst (handle_lifecycle s now hex ahex x db)) = job_tables db" for now hex ahex x
  proof -
    obtain db' y where q: "handle_lifecycle s now hex ahex x db = (db', y)" by fastforce
    then have "job_tables db' = job_tables db"
      by (cases rule: handle_lifecycle_cases)
         (simp_all add: job_tables_def audit_def deactivate_installation_def upsert_installation_def Let_def split: option.split)
    with q show ?thesis by simp
  qed
  show ?thesis
    using h by (auto simp: teams_events_def env_audit_to_def case_prod_unfold split: option.split sum.split)
qed

lemma update_installation_tables: "job_tables (fst (update_installation v s i b p db)) = job_tables db"
proof -
  have "job_tables (fst (set_installation_enabled now i e db)) = job_tables db" for now e
    by (simp add: set_installation_enabled_def job_tables_def split: option.split)
  then show ?thesis
    by (auto simp: update_installation_def validated_def env_audit_to_def case_prod_unfold split: sum.split option.split)
qed

section \<open>Requests are steps of the life cycle\<close>

lemma api_run:
  assumes "serve v s c req st = (st', r)" and "store sys = as_db st"
  shows "steps_star (lifecycle s before) sys (sys\<lparr>store := as_db st'\<rparr>)"
proof -
  have unrelated: ?thesis if "job_tables (as_db st') = job_tables (as_db st)"
    using lifecycle.unrelated [of "as_db st'" sys s before] that assms(2) by (simp add: run_one)
  from assms(1) show ?thesis
  proof (cases rule: serve_cases)
    case kept
    then show ?thesis by (intro unrelated) (simp add: untouched_def)
  next
    case (notified a body)
    with teams_events_tables [of v s a body "as_db st"] show ?thesis by (intro unrelated) simp
  next
    case (updated i b p)
    with update_installation_tables [of v s i b p "as_db st"] show ?thesis by (intro unrelated) simp
  next
    case (submitted b key p)
    from submitted(3) show ?thesis
    proof (cases rule: create_review_job_cases)
      case refused
      then show ?thesis by (intro unrelated) simp
    next
      case (accepted k rq db1 j created)
      have "lifecycle s before sys (sys\<lparr>store := db1\<rparr>)"
        by (rule lifecycle.submit) (use accepted(5) assms(2) in simp)
      moreover have "lifecycle s before (sys\<lparr>store := db1\<rparr>) (sys\<lparr>store := db1, store := as_db st'\<rparr>)"
        by (rule lifecycle.unrelated) (use accepted(6) in \<open>simp add: untouched_def\<close>)
      ultimately show ?thesis by (auto intro: steps_star_head run_one)
    qed
  qed
qed

text \<open>
  C3: Requests are runs of the job life cycle: whatever a caller sends, to whichever route, and
  whatever the services answer, a request does to the database what some steps of the life cycle
  do. Together with the same fact of the worker, every invariant of the life cycle is an
  invariant of the deployed program.
\<close>

theorem api_refines_lifecycle:
  assumes "serve v s c req st = (st', r)" and "store sys = as_db st"
  shows "steps_star (lifecycle s before) sys (sys\<lparr>store := as_db st'\<rparr>)"
  using assms by (rule api_run)

text \<open>
  C15: Only an authorised, valid submission creates work. If a request changes any of the job
  tables, it is a submission by a caller whose token grants \<^verbatim>\<open>reviews:write\<close> (or admin), with
  an idempotency key of 8 to 128 characters and a request within the schema; it adds exactly one
  pending job under that key, with a row limit within the configured maximum, and is answered
  with 202 and that job.
\<close>

theorem work_only_by_submission:
  assumes "serve v s c req st = (st', r)" and "job_tables (as_db st') \<noteq> job_tables (as_db st)"
  shows "authorised v s c ''reviews:write'' \<and>
    (\<exists>b key rq j. req = Create_review_job (Some b) (Some key) \<and> 8 \<le> length key \<and> length key \<le> 128 \<and>
      validate_review_request b = Inr rq \<and> valid_request rq \<and> r = Inr (202, accepted_job j True) \<and>
      job_tables (as_db st') = job_tables ((as_db st)\<lparr>jobs := jobs (as_db st) @ [j]\<rparr>) \<and>
      j_idempotency_key j = key \<and> j_status j = Pending \<and> j_attempts j = 0 \<and> j_row_limit j \<le> prompt_max_rows s)"
  using assms(1)
proof (cases rule: serve_cases)
  case kept
  with assms(2) show ?thesis by (simp add: untouched_def)
next
  case (notified a body)
  with assms(2) teams_events_tables [of v s a body "as_db st"] show ?thesis by simp
next
  case (updated i b p)
  with assms(2) update_installation_tables [of v s i b p "as_db st"] show ?thesis by simp
next
  case (submitted b key p)
  from submitted(3) show ?thesis
  proof (cases rule: create_review_job_cases)
    case refused
    with assms(2) show ?thesis by simp
  next
    case (accepted k rq db1 j created)
    from accepted(5) show ?thesis
    proof (cases rule: create_job_cases)
      case kept
      with accepted(6) assms(2) show ?thesis by (simp add: untouched_def)
    next
      case (added job)
      have "j_row_limit job = min (rr_limit rq) (prompt_max_rows s)" using added(1) by (simp add: new_job_def)
      with added accepted submitted validate_review_request_valid [OF accepted(4)] show ?thesis
        by (auto simp: untouched_def)
    qed
  qed
qed

text \<open>
  The statuses of a submission tell what happened. With a fresh job identifier and no other
  submission in between, an authorised submission is answered with 400 if the key or the body is
  invalid, with 409 if the key was used for a different request, and with 202 otherwise; only a
  202 changes the database.
\<close>

theorem submission_statuses:
  assumes "create_review_job v s b header p db = (db', r)" and "ae_seen v = db"
    and "\<forall>j \<in> set (jobs db). j_id j \<noteq> new_id ''job'' (ae_hex v)"
  shows "fst (respond r) =
    (case (valid_key header, validate_review_request b) of
       (Inr key, Inr rq) \<Rightarrow>
         (case get_by j_idempotency_key key (jobs db) of
            Some j \<Rightarrow>
              if request_tuple j = (selector_type (rr_selector rq), dumps (JObj (dump_selector (rr_selector rq))),
                   take 128 (rr_source rq), dumps (redact (redaction_keys s) (JObj (rr_summary rq))),
                   min (rr_limit rq) (prompt_max_rows s)) then 202 else 409
          | None \<Rightarrow> 202)
     | _ \<Rightarrow> 400) \<and> (fst (respond r) \<noteq> 202 \<longrightarrow> db' = db)"
proof (cases "valid_key header")
  case (Inl e)
  with assms(1) show ?thesis by (auto simp: create_review_job_def validated_def respond_def rejected_def)
next
  case key: (Inr key)
  show ?thesis
  proof (cases "validate_review_request b")
    case (Inl e)
    with assms(1) key show ?thesis by (auto simp: create_review_job_def validated_def respond_def rejected_def)
  next
    case (Inr rq)
    let ?tuple = "(selector_type (rr_selector rq), dumps (JObj (dump_selector (rr_selector rq))),
      take 128 (rr_source rq), dumps (redact (redaction_keys s) (JObj (rr_summary rq))),
      min (rr_limit rq) (prompt_max_rows s))"
    let ?create = "create_job s (ae_now v) (ae_hex v) db key (selector_type (rr_selector rq))
      (JObj (dump_selector (rr_selector rq))) (rr_source rq) (redact (redaction_keys s) (JObj (rr_summary rq)))
      (min (rr_limit rq) (prompt_max_rows s)) db"
    have route: "create_review_job v s b header p db =
        (case submit_review s (ae_now v) (ae_hex v) (ae_audit v) db rq key (p_name p) db of
           (db', Inl e) \<Rightarrow> (db', Inl e) | (db', Inr (j, created)) \<Rightarrow> (db', Inr (202, accepted_job j created)))"
      by (simp add: create_review_job_def validated_def Inr key assms(2))
    show ?thesis
    proof (cases "get_by j_idempotency_key key (jobs db)")
      case None
      then have "\<forall>j \<in> set (jobs db). j_idempotency_key j \<noteq> key" by (auto simp: get_by_None_iff)
      with None assms(3) have "\<exists>db1 j. ?create = (db1, Inr (j, True))"
        by (auto simp: create_job_def Let_def)
      with None key Inr route assms(1) show ?thesis by (auto simp: submit_review_def Let_def respond_def)
    next
      case (Some j)
      then have "?create = (if request_tuple j = ?tuple then (db, Inr (j, False))
          else (db, Inl (IdempotencyConflict, ''idempotency key was already used for a different request'')))"
        by (simp add: create_job_def)
      with Some key Inr route assms(1) show ?thesis
        by (auto simp: submit_review_def Let_def respond_def api_status_def split: if_splits)
    qed
  qed
qed

section \<open>Destinations\<close>

lemma set_installation_enabled_cases:
  assumes "installs_ok (installs db)" and "t \<in> set (installs (fst (set_installation_enabled now i e db)))" and "t_enabled t"
    and "\<forall>t0 \<in> set (installs db). t_id t0 = t_id t \<longrightarrow> \<not> t_enabled t0"
  shows "t_id t = i \<and> e \<and> t_active t"
proof (cases "get_by t_id i (installs db)")
  case None
  with assms show ?thesis by (auto simp: set_installation_enabled_def)
next
  case (Some t1)
  show ?thesis
  proof (cases "e \<and> \<not> t_active t1")
    case True
    with Some assms show ?thesis by (auto simp: set_installation_enabled_def)
  next
    case False
    with Some assms(2) have "t \<in> set (update_where (\<lambda>r. t_id r = i) (mark_enabled now e) (installs db))"
      by (auto simp: set_installation_enabled_def split: if_splits)
    then obtain u where u: "u \<in> set (installs db)" "t = (if t_id u = i then mark_enabled now e u else u)"
      by (auto simp: update_where_def)
    with assms(3,4) have i: "t_id u = i" "t = mark_enabled now e u" by (auto split: if_splits)
    with assms(3) have "e" by (simp add: mark_enabled_def)
    moreover have "u = t1"
      using assms(1) u(1) i(1) Some get_by_unique [of t_id "installs db" u] by (simp add: installs_ok_def)
    ultimately show ?thesis using False i by (simp add: mark_enabled_def)
  qed
qed

text \<open>
  C18: Only an administrator enables a destination. If a destination is enabled after a request
  and was not before, the request was the update of that destination, asking for just that, by a
  caller whose token grants \<^verbatim>\<open>teams:admin\<close> (or admin), and the destination is active; no other
  route, and no event from Teams, enables one.
\<close>

theorem enabling_needs_admin:
  assumes "serve v s c req st = (st', r)" and "installs_ok (installs (as_db st))"
    and "t \<in> set (installs (as_db st'))" and "t_enabled t"
    and "\<forall>t0 \<in> set (installs (as_db st)). t_id t0 = t_id t \<longrightarrow> \<not> t_enabled t0"
  shows "authorised v s c ''teams:admin'' \<and> t_active t \<and>
    (\<exists>b. req = Update_installation (t_id t) (Some b) \<and> validate_installation_update b = Inr True)"
  using assms(1)
proof (cases rule: serve_cases)
  case kept
  with assms(3-5) show ?thesis by (auto simp: untouched_def)
next
  case (submitted b key p)
  have "installs (as_db st') = installs (as_db st)"
    using submitted(3) 
  proof (cases rule: create_review_job_cases)
    case (accepted k rq db1 j created)
    from accepted(5) have "installs db1 = installs (as_db st)" by (cases rule: create_job_cases) simp_all
    with accepted(6) show ?thesis by (simp add: untouched_def)
  qed simp
  with assms(3-5) show ?thesis by auto
next
  case (notified a body)
  have "no_new_enabled (installs (as_db st)) (installs (fst (teams_events v s a body (as_db st))))"
    using handle_lifecycle_no_new_enabled
    by (auto simp: teams_events_def env_audit_to_def case_prod_unfold split: option.split sum.split)
  with notified(2) assms(3-5) show ?thesis by (auto simp: no_new_enabled_def)
next
  case (updated i b p)
  show ?thesis
  proof (cases "validate_installation_update b")
    case (Inl e)
    with updated(3) assms(3-5) show ?thesis by (auto simp: update_installation_def validated_def)
  next
    case (Inr e)
    have "installs (fst (update_installation v s i b p (as_db st))) =
        installs (fst (set_installation_enabled (ae_now v) i e (as_db st)))"
      by (simp add: update_installation_def validated_def Inr env_audit_to_def case_prod_unfold split: option.split)
    with updated(3) have "installs (as_db st') = installs (fst (set_installation_enabled (ae_now v) i e (as_db st)))"
      by simp
    with set_installation_enabled_cases [OF assms(2), of t "ae_now v" i e] assms(3-5) have "t_id t = i \<and> e \<and> t_active t"
      by simp
    with updated Inr show ?thesis by simp
  qed
qed

section \<open>Readiness over HTTP\<close>

text \<open>
  \<^verbatim>\<open>/readyz\<close> answers an administrator with 200 exactly if the worker has reported within
  the configured time, its last report found the model runtime ready, and, when Teams is on, at
  least one destination is enabled and active; otherwise with 503, and with 500 if the worker has
  reported but the driver loads naive timestamps.
\<close>

theorem readyz_exact:
  "fst (respond (readyz v s db)) =
    (case get_by h_role ''worker'' (health db) of
       None \<Rightarrow> 503
     | Some h \<Rightarrow>
         if ae_aware v
         then if ae_now v - seconds (worker_stale_seconds s) \<le> h_heartbeat_at h \<and> h_pi_ready h \<and>
                (teams_enabled s = False \<or> (\<exists>t \<in> set (installs db). t_enabled t \<and> t_active t))
              then 200 else 503
         else 500)"
proof -
  have "0 < rowcount p ts \<longleftrightarrow> (\<exists>t \<in> set ts. p t)" for p and ts :: "installation list"
    using rowcount_zero_iff [of p ts] by (metis gr0I less_numeral_extra(3))
  then show ?thesis
    by (auto simp: readyz_def readiness_def fresh_def respond_def api_status_def is_instance_def Let_def split: option.split)
qed

section \<open>Witnesses\<close>

definition sample_api :: api_env where
  "sample_api = \<lparr>ae_now = 5, ae_monotonic = 5, ae_hex = ''a'', ae_audit = (''x'', ''y''), ae_seen = empty_database,
     ae_aware = True, ae_isoformat = (\<lambda>_. []), ae_verify = (\<lambda>t _. Inr (t = ''good'')), ae_fs = sample_files,
     ae_splunk = (\<lambda>_. Inr []), ae_adx = (\<lambda>_ _. Inr JNull), ae_confluence = (\<lambda>_ _ _. Inr JNull),
     ae_sigma = (\<lambda>_. Inr []), ae_teams = False, ae_validate_token = (\<lambda>_. Inr False),
     ae_model_validate = (\<lambda>_. Inl (ValidationError, []))\<rparr>"

definition sample_caller :: caller where
  "sample_caller = \<lparr>ca_credentials = Some (''Bearer'', ''good''), ca_host = None\<rparr>"

definition sample_body :: json where
  "sample_body = JObj [(''selector'', JObj [(''type'', JStr ''latest'')])]"

definition sample_state :: "database \<Rightarrow> api_state" where
  "sample_state db = \<lparr>as_limiter = new_limiter 5, as_db = db\<rparr>"

definition sample_submission :: request where
  "sample_submission = Create_review_job (Some sample_body) (Some ''key-0001'')"

lemma sample_valid_request:
  "validate_review_request sample_body = Inr \<lparr>rr_selector = LatestSelector ''-24h'', rr_source = ''api'',
     rr_summary = [], rr_limit = 20\<rparr>"
proof -
  have "relative_time ''-24h''" by code_simp
  then show ?thesis
    by (simp add: sample_body_def validate_review_request_def validate_selector_def required_def optional_def
        check_literal_def check_str_def check_nat_def)
qed

lemma sample_configured:
  "configured_records sample_settings =
    [\<lparr>tr_name = ''op'', tr_verifier = sample_verifier, tr_scopes = {''jobs:read'', ''admin''}\<rparr>]"
  unfolding configured_records_def token_records_def sample_settings_sel sample_records by simp

lemma sample_granted:
  "require_scope (env_audit_to sample_api sample_settings) (ae_verify sample_api) (configured_records sample_settings)
     scope (ca_credentials sample_caller) (ca_host sample_caller) (ae_monotonic sample_api) (sample_state db) =
   (\<lparr>as_limiter = snd (check ''op:unknown'' 5 (new_limiter 5)), as_db = db\<rparr>,
    Inr \<lparr>p_name = ''op'', p_scopes = {''jobs:read'', ''admin''}\<rparr>)"
proof -
  have "lower ''Bearer'' = ''bearer''" by code_simp
  moreover obtain l where "check ''op:unknown'' 5 (new_limiter 5) = (True, l)"
    by (simp add: check_def new_limiter_def Let_def)
  ultimately show ?thesis
    by (simp add: require_scope_def sample_configured sample_api_def sample_caller_def sample_state_def
        authenticate_def permits_def)
qed

lemma sample_guarded:
  "guarded sample_api sample_settings scope sample_caller handler (sample_state db) =
    (case handler \<lparr>p_name = ''op'', p_scopes = {''jobs:read'', ''admin''}\<rparr> db of (db', r) \<Rightarrow>
       (\<lparr>as_limiter = snd (check ''op:unknown'' 5 (new_limiter 5)), as_db = db'\<rparr>, r))"
  by (simp add: guarded_def sample_granted split: prod.split)

lemma sample_state_db [simp]: "as_db (sample_state db) = db"
  by (simp add: sample_state_def)

lemma api_refines_lifecycle_witness:
  "\<exists>st' r. serve sample_api sample_settings sample_caller sample_submission (sample_state submitted_db) = (st', r) \<and>
     steps_star (lifecycle sample_settings (<)) idle_state (idle_state\<lparr>store := as_db st'\<rparr>)"
proof -
  obtain st' r where q: "serve sample_api sample_settings sample_caller sample_submission (sample_state submitted_db) = (st', r)"
    by fastforce
  moreover have "store idle_state = as_db (sample_state submitted_db)" by (simp add: idle_state_def sample_state_def)
  ultimately show ?thesis using api_refines_lifecycle [OF q] by blast
qed

lemma sample_created:
  "\<exists>db'. create_review_job sample_api sample_settings sample_body (Some ''key-0001'') p empty_database =
      (db', Inr (202, accepted_job (new_job sample_settings 5 ''a'' ''key-0001'' ''latest''
         (JObj [(''type'', JStr ''latest''), (''earliest'', JStr ''-24h'')]) ''api'' (JObj [])
         (min 20 (prompt_max_rows sample_settings))) True)) \<and> jobs db' \<noteq> []"
proof -
  have "jobs (fst (container_audit s now hexes t a x db)) = jobs db" for s now hexes t a x db
    using container_audit_tables(1) [of s now hexes t a x db] by (simp add: job_tables_def)
  then show ?thesis
    by (simp add: create_review_job_def validated_def valid_key_def sample_valid_request submit_review_def
        create_job_def sample_api_def empty_database_def Let_def)
qed

lemma sample_served:
  "\<exists>st' r. serve sample_api sample_settings sample_caller sample_submission (sample_state empty_database) = (st', r) \<and>
     job_tables (as_db st') \<noteq> job_tables (as_db (sample_state empty_database))"
  using sample_created [of "\<lparr>p_name = ''op'', p_scopes = {''jobs:read'', ''admin''}\<rparr>"]
  by (auto simp: sample_submission_def with_body_def sample_guarded job_tables_def)
    (simp add: empty_database_def)

lemma work_only_by_submission_witness:
  "authorised sample_api sample_settings sample_caller ''reviews:write'' \<and>
   (\<exists>st' j. serve sample_api sample_settings sample_caller sample_submission (sample_state empty_database) =
      (st', Inr (202, accepted_job j True)))"
proof -
  obtain st' r where "serve sample_api sample_settings sample_caller sample_submission (sample_state empty_database) = (st', r)"
      "job_tables (as_db st') \<noteq> job_tables (as_db (sample_state empty_database))"
    using sample_served by blast
  from work_only_by_submission [OF this] this(1) show ?thesis by auto
qed

lemma submission_statuses_witness:
  "\<exists>db' r. create_review_job sample_api sample_settings sample_body (Some ''short'') \<lparr>p_name = ''op'', p_scopes = {}\<rparr>
      empty_database = (db', r) \<and> fst (respond r) = 400 \<and> db' = empty_database"
proof -
  obtain db' r where c: "create_review_job sample_api sample_settings sample_body (Some ''short'')
      \<lparr>p_name = ''op'', p_scopes = {}\<rparr> empty_database = (db', r)" by fastforce
  have "ae_seen sample_api = empty_database" by (simp add: sample_api_def)
  with submission_statuses [OF c] c show ?thesis by (simp add: valid_key_def invalid_def empty_database_def)
qed

definition waiting_destination :: installation where
  "waiting_destination = \<lparr>t_id = ''t'', t_tenant_id = ''T'', t_conversation_id = ''c'', t_service_url = [], t_scope = [],
     t_reference_json = [], t_enabled = False, t_active = True, t_discovered_at = 0, t_last_seen_at = 0\<rparr>"

lemma enabling_needs_admin_witness:
  "\<exists>st' r. serve sample_api sample_settings sample_caller (Update_installation ''t'' (Some (JObj [(''enabled'', JBool True)])))
      (sample_state (empty_database\<lparr>installs := [waiting_destination]\<rparr>)) = (st', r) \<and>
    installs (as_db st') = [mark_enabled 5 True waiting_destination] \<and>
    authorised sample_api sample_settings sample_caller ''teams:admin''"
proof -
  let ?db = "empty_database\<lparr>installs := [waiting_destination]\<rparr>"
  have ae_now: "ae_now sample_api = 5" by (simp add: sample_api_def)
  have row: "t_id waiting_destination = ''t''" "t_active waiting_destination"
    by (simp_all add: waiting_destination_def)
  let ?req = "Update_installation ''t'' (Some (JObj [(''enabled'', JBool True)]))"
  obtain st' r where q: "serve sample_api sample_settings sample_caller ?req (sample_state ?db) = (st', r)" by fastforce
  then have i: "installs (as_db st') = [mark_enabled 5 True waiting_destination]"
    by (auto simp: with_body_def sample_guarded update_installation_def validated_def ae_now
        validate_installation_update_def set_installation_enabled_def env_audit_to_def update_where_def row)
  have "installs_ok (installs (as_db (sample_state ?db)))"
    by (simp add: installs_ok_def waiting_destination_def)
  from enabling_needs_admin [OF q this, of "mark_enabled 5 True waiting_destination"] i q show ?thesis
    by (simp add: waiting_destination_def mark_enabled_def)
qed

end
