(* ===== verification/Responses.thy ===== *)
theory Responses
  imports ApiProperties
begin

text \<open>
  The response schemas of \<^verbatim>\<open>src/sprinter/schemas.py\<close> and what the framework does with
  them: a route declared with a \<^verbatim>\<open>response_model\<close> has its answer validated against the
  schema, its declared fields kept in order and any other field dropped; an answer that does not
  fit is an internal error. A schema is data, and validation a function of schema and value.

  The lemmas show that every text column the answers are read from holds what its reader
  expects, whatever requests and workers have done to the database, and hence that no answer is
  ever rejected or cut.
\<close>

section \<open>Schemas as data\<close>

datatype field_type =
    T_str
  | T_int
  | T_bool
  | T_dict
  | T_literal string
  | T_optional field_type
  | T_list field_type
  | T_model "(string \<times> field_type) list"

fun conforms :: "field_type \<Rightarrow> json \<Rightarrow> bool" where
  "conforms T_str v = (case v of JStr _ \<Rightarrow> True | _ \<Rightarrow> False)"
| "conforms T_int v = (case v of JInt _ \<Rightarrow> True | _ \<Rightarrow> False)"
| "conforms T_bool v = (case v of JBool _ \<Rightarrow> True | _ \<Rightarrow> False)"
| "conforms T_dict v = (case v of JObj _ \<Rightarrow> True | _ \<Rightarrow> False)"
| "conforms (T_literal s) v = (v = JStr s)"
| "conforms (T_optional t) v = (v = JNull \<or> conforms t v)"
| "conforms (T_list t) v = (case v of JArr vs \<Rightarrow> \<forall>x \<in> set vs. conforms t x | _ \<Rightarrow> False)"
| "conforms (T_model fs) v =
     (case v of
        JObj d \<Rightarrow> \<forall>(k, t) \<in> set fs. (case dict_get d k of None \<Rightarrow> False | Some x \<Rightarrow> conforms t x)
      | _ \<Rightarrow> False)"

text \<open>The value as it is sent: of an object only the declared fields, in their order.\<close>

fun serialise :: "field_type \<Rightarrow> json \<Rightarrow> json" where
  "serialise (T_optional t) v = (if v = JNull then JNull else serialise t v)"
| "serialise (T_list t) v = (case v of JArr vs \<Rightarrow> JArr (map (serialise t) vs) | _ \<Rightarrow> v)"
| "serialise (T_model fs) v =
     (case v of JObj d \<Rightarrow> JObj (map (\<lambda>(k, t). (k, serialise t (get_or_none d k))) fs) | _ \<Rightarrow> v)"
| "serialise t v = v"

definition review_job_accepted :: field_type where
  "review_job_accepted = T_model [(''job_id'', T_str), (''status'', T_str), (''created'', T_bool), (''url'', T_str)]"

definition evidence_schema :: field_type where
  "evidence_schema = T_model [(''id'', T_str), (''kind'', T_str), (''title'', T_str), (''uri'', T_str)]"

definition job_schema :: field_type where
  "job_schema = T_model [(''job_id'', T_str), (''status'', T_str), (''attempts'', T_int), (''max_attempts'', T_int),
     (''selector'', T_dict), (''source'', T_str), (''result'', T_optional T_dict), (''error'', T_optional T_dict),
     (''evidence'', T_list evidence_schema), (''created_at'', T_str), (''updated_at'', T_str)]"

definition installation_schema :: field_type where
  "installation_schema = T_model [(''id'', T_str), (''tenant_id'', T_str), (''conversation_id'', T_str),
     (''service_url'', T_str), (''scope'', T_str), (''enabled'', T_bool), (''active'', T_bool),
     (''discovered_at'', T_str), (''last_seen_at'', T_str)]"

definition health_schema :: field_type where
  "health_schema = T_model [(''ok'', T_bool), (''service'', T_literal ''sprinter''), (''version'', T_str)]"

definition ready_schema :: field_type where
  "ready_schema = T_model [(''ok'', T_bool), (''checks'', T_dict)]"

text \<open>
  The \<^verbatim>\<open>response_model\<close> of each route; the tools and the Teams events declare none, and the
  framework takes the annotation of what they return, \<^verbatim>\<open>dict[str, Any]\<close>.
\<close>

fun response_model :: "request \<Rightarrow> field_type" where
  "response_model Livez = health_schema"
| "response_model Readyz = ready_schema"
| "response_model (Create_review_job _ _) = review_job_accepted"
| "response_model (Get_job _) = job_schema"
| "response_model List_installations = T_list installation_schema"
| "response_model (Update_installation _ _) = installation_schema"
| "response_model _ = T_dict"

text \<open>
  What is sent for a route's answer. A request that failed validation is answered by the
  exception handler, which sets status 400 and bypasses the response model.
\<close>

definition send_reply :: "request \<Rightarrow> exc + reply \<Rightarrow> exc + reply" where
  "send_reply req r = bind_result r (\<lambda>(code, body).
     if code = 400 then Inr (code, body)
     else if conforms (response_model req) body then Inr (code, serialise (response_model req) body)
     else Inl (Foreign ''ResponseValidationError'', []))"

section \<open>The columns the answers are read from\<close>

definition holds_object :: "string \<Rightarrow> bool" where
  "holds_object t = (case json_loads t of Some (JObj _) \<Rightarrow> True | _ \<Rightarrow> False)"

definition columns_ok :: "database \<Rightarrow> bool" where
  "columns_ok db = (\<forall>j \<in> set (jobs db). holds_object (j_selector_json j) \<and>
     (\<forall>t \<in> set_option (j_result_json j). holds_object t) \<and> (\<forall>t \<in> set_option (j_error_json j). holds_object t))"

lemma holds_object_dumps: "wf_json (JObj d) \<Longrightarrow> holds_object (dumps (JObj d))"
  by (simp add: holds_object_def json_loads_dumps del: wf_json.simps)

lemma holds_object_loads:
  assumes "holds_object t"
  shows "\<exists>d. \<forall>v. loads (Some t) v = JObj d"
proof -
  have "t \<noteq> []"
    using assms by (auto simp: holds_object_def json_loads_def skip_ws_def parse_value.simps)
  with assms show ?thesis
    by (auto simp: holds_object_def loads_def split: option.splits json.splits)
qed

lemma columns_ok_tables: "job_tables db' = job_tables db \<Longrightarrow> columns_ok db' = columns_ok db"
  by (simp add: columns_ok_def job_tables_def)

lemma columns_ok_subset: "set (jobs db') \<subseteq> set (jobs db) \<Longrightarrow> columns_ok db \<Longrightarrow> columns_ok db'"
  by (auto simp: columns_ok_def)

lemma columns_ok_update:
  assumes "columns_ok db" and "jobs db' = update_where p f (jobs db)"
    and "\<And>j. j_selector_json (f j) = j_selector_json j"
    and "\<And>j t. j_result_json (f j) = Some t \<Longrightarrow> j_result_json j = Some t \<or> holds_object t"
    and "\<And>j t. j_error_json (f j) = Some t \<Longrightarrow> j_error_json j = Some t \<or> holds_object t"
  shows "columns_ok db'"
  using assms by (fastforce simp: columns_ok_def set_update_where elem_set)

lemma wf_strings [simp]: "wf_json (strings ss)"
  by (auto simp: strings_def)

lemma dump_selector_wf: "wf_json (JObj (dump_selector sel))"
  by (cases sel) (auto split: option.split)

lemma public_decision_wf: "wf_json (JObj (public_decision md key did))"
  by (auto simp: public_decision_def dump_decision_def)

lemma error_json_object: "\<exists>d. error_json e = JObj d \<and> wf_json (JObj d)"
  by (auto simp: error_json_def)

lemma create_job_columns:
  assumes "create_job s now hex seen key t (JObj (dump_selector sel)) src sm n db = (db', r)" and "columns_ok db"
  shows "columns_ok db'"
  using assms(1)
proof (cases rule: create_job_cases)
  case (added job)
  with assms(2) show ?thesis
    by (auto simp: columns_ok_def new_job_def holds_object_dumps dump_selector_wf simp del: wf_json.simps)
qed (simp add: assms(2))

lemma claim_job_columns:
  assumes "claim_job now seen db = (db', r)" and "columns_ok db"
  shows "columns_ok db'"
  using assms(1)
proof (cases rule: claim_job_cases)
  case (update c)
  show ?thesis
    by (rule columns_ok_update [OF assms(2), of _ "\<lambda>j. j_id j = j_id c \<and> claimable j" "mark_claimed now"])
       (simp_all add: update(4) mark_claimed_def)
qed (simp add: assms(2))

lemma recover_columns: "columns_ok db \<Longrightarrow> columns_ok (fst (recover_abandoned_jobs now n db))"
  unfolding recover_abandoned_jobs_def Let_def fst_conv
  by (erule columns_ok_update [of _ _ "abandoned (now - seconds n)" "mark_recovered now"]) (simp_all add: mark_recovered_def)

lemma retry_job_columns: "columns_ok db \<Longrightarrow> columns_ok (retry_job now j (error_json e) delay db)"
proof -
  assume ok: "columns_ok db"
  obtain d where d: "error_json e = JObj d" "wf_json (JObj d)" using error_json_object by blast
  show ?thesis
    by (rule columns_ok_update [OF ok, of _ "\<lambda>r. j_id r = j_id j" "mark_failed now (j_max_attempts j \<le> j_attempts j) (error_json e) delay"])
       (auto simp: retry_job_def mark_failed_def d(1) holds_object_dumps [OF d(2)])
qed

lemma handle_failure_columns:
  assumes "columns_ok db"
  shows "columns_ok (fst (handle_failure s env j e db))"
proof (cases "handled e")
  case True
  let ?db1 = "retry_job (env_settled env) j (error_json e) (retry_delay (j_attempts j)) db"
  have "job_tables (fst (handle_failure s env j e db)) = job_tables ?db1"
    using True by (simp add: handle_failure_def Let_def)
  with retry_job_columns [OF assms] show ?thesis using columns_ok_tables by blast
qed (simp add: handle_failure_def assms)

lemma complete_job_columns:
  assumes "columns_ok db"
  shows "columns_ok (fst (complete_job s now hx j md key ev m db))"
proof (cases "snd (complete_job s now hx j md key ev m db)")
  case (Inl e)
  then show ?thesis using assms by (auto simp: complete_job_def Let_def split: if_splits)
next
  case (Inr did)
  then have c: "complete_job s now hx j md key ev m db = (fst (complete_job s now hx j md key ev m db), Inr did)"
    by (metis prod.collapse)
  show ?thesis
    by (rule columns_ok_update [OF assms complete_job_Inr(1) [OF c]])
       (auto simp: mark_succeeded_def holds_object_dumps [OF public_decision_wf])
qed

lemma store_result_columns:
  assumes "columns_ok db"
  shows "columns_ok (fst (store_result sv s env j ev r db))"
proof -
  obtain db1 r1 where c: "complete_job s (env_settled env) (env_hexes env) j (pr_decision r)
      (finding_key (sv_sha256 sv) j ev) ev (model_of r) db = (db1, r1)" by fastforce
  with complete_job_columns [OF assms] have ok: "columns_ok db1" by (metis fst_conv)
  show ?thesis
  proof (cases r1)
    case (Inl e)
    with c ok show ?thesis by (simp add: store_result_def handle_failure_columns)
  next
    case (Inr did)
    obtain db2 r2 where n: "enqueue_notifications s (env_announced env) (env_notify env) j
        (public_decision (pr_decision r) (finding_key (sv_sha256 sv) j ev) did) ev (model_of r) db1 = (db2, r2)" by fastforce
    then have "job_tables db2 = job_tables db1"
      using enqueue_notifications_tables(1) by (metis fst_conv)
    with ok have ok2: "columns_ok db2" using columns_ok_tables by blast
    show ?thesis
      using c n Inr ok2 columns_ok_tables [OF container_audit_tables(1)]
      by (cases r2) (simp_all add: store_result_def handle_failure_columns)
  qed
qed

lemma process_next_job_columns:
  assumes "columns_ok db"
  shows "columns_ok (fst (process_next_job sv s env db))"
proof -
  obtain db1 r where c: "claim_job (env_now env) db db = (db1, r)" by fastforce
  from claim_job_columns [OF c assms] have "columns_ok db1" .
  then show ?thesis
    by (auto simp: process_next_job_def c handle_failure_columns store_result_columns split: option.split sum.split)
qed

text \<open>The worker, from its start to its end.\<close>

lemma flush_and_purge_columns:
  assumes "columns_ok db"
  shows "columns_ok (fst (flush_and_purge before s i w db))"
  using only_purged_flush_and_purge [of db before s i w] assms
  by (auto simp: only_purged_def intro: columns_ok_subset)

lemma worker_iteration_columns:
  assumes "columns_ok db" and "worker_iteration before s i w db = (db', r)"
  shows "columns_ok db'"
proof -
  have probed: "columns_ok db1" if "probe_or_beat s i w db = (db1, w1)" for db1 w1
    using that assms(1) probe_or_beat_tables [of s i w db] columns_ok_tables by (metis fst_conv)
  have worked: "columns_ok db2"
    if "columns_ok db1" "process_next_job (it_services i) s (it_env i) db1 = (db2, x)" for db1 db2 x
    using that process_next_job_columns by (metis fst_conv)
  from assms(2) show ?thesis
  proof (cases rule: worker_iteration_cases)
    case (died db1 w1 e)
    then show ?thesis using probed worked by blast
  next
    case (completed db1 w1 db2 w2)
    then have "columns_ok db2" using probed worked by (auto split: if_splits)
    with completed(3) flush_and_purge_columns show ?thesis by (metis fst_conv)
  qed
qed

lemma worker_loop_columns: "columns_ok db \<Longrightarrow> columns_ok (fst (worker_loop before s its w db))"
proof (induction its arbitrary: w db)
  case (Cons i its)
  obtain db1 r where it: "worker_iteration before s i w db = (db1, r)" by fastforce
  from worker_iteration_columns [OF Cons.prems it] have "columns_ok db1" .
  with Cons.IH it show ?case by (cases r) simp_all
qed simp

lemma run_worker_columns:
  assumes "columns_ok db"
  shows "columns_ok (fst (run_worker before fs writable s beat now found its db))"
proof -
  have "columns_ok (heartbeat beat x m d db)" for x m d
    using assms columns_ok_tables [OF heartbeat_tables] by blast
  then show ?thesis
    by (auto simp: run_worker_def assms intro!: worker_loop_columns recover_columns split: sum.split)
qed

text \<open>Requests.\<close>

lemma serve_columns:
  assumes "serve v s c req st = (st', r)" and "columns_ok (as_db st)"
  shows "columns_ok (as_db st')"
proof -
  have same: ?thesis if "job_tables (as_db st') = job_tables (as_db st)"
    using columns_ok_tables [OF that] assms(2) by simp
  from assms(1) show ?thesis
  proof (cases rule: serve_cases)
    case kept
    then show ?thesis by (intro same) (simp add: untouched_def)
  next
    case (notified a body)
    with teams_events_tables [of v s a body "as_db st"] show ?thesis by (intro same) simp
  next
    case (updated i b p)
    with update_installation_tables [of v s i b p "as_db st"] show ?thesis by (intro same) simp
  next
    case (submitted b key p)
    from submitted(3) show ?thesis
    proof (cases rule: create_review_job_cases)
      case (accepted k rq db1 j created)
      from create_job_columns [OF accepted(5) assms(2)] have "columns_ok db1" .
      moreover have "columns_ok (as_db st') = columns_ok db1"
        by (rule columns_ok_tables) (use accepted(6) in \<open>simp add: untouched_def\<close>)
      ultimately show ?thesis by simp
    qed (simp add: assms(2))
  qed
qed

section \<open>Answers fit their schemas\<close>

lemma accepted_job_fits:
  "conforms review_job_accepted (accepted_job j created)"
  "serialise review_job_accepted (accepted_job j created) = accepted_job j created"
  by (simp_all add: review_job_accepted_def accepted_job_def get_or_none_def)

lemma installation_fits:
  "conforms installation_schema (installation_view f t)"
  "serialise installation_schema (installation_view f t) = installation_view f t"
  by (simp_all add: installation_schema_def installation_view_def get_or_none_def)

lemma evidence_fits:
  "conforms evidence_schema (evidence_view e)" "serialise evidence_schema (evidence_view e) = evidence_view e"
  by (simp_all add: evidence_schema_def evidence_view_def get_or_none_def)

lemma optional_object:
  assumes "\<forall>t \<in> set_option c. holds_object t"
  shows "conforms (T_optional T_dict) (loads c JNull)" and "serialise (T_optional T_dict) (loads c JNull) = loads c JNull"
proof -
  have "loads c JNull = JNull \<or> (\<exists>d. loads c JNull = JObj d)"
    using assms using holds_object_loads by (cases c) (auto simp: loads_def [of None])
  then show "conforms (T_optional T_dict) (loads c JNull)" "serialise (T_optional T_dict) (loads c JNull) = loads c JNull"
    by auto
qed

lemma job_view_fits:
  assumes "columns_ok db" and "j \<in> set (jobs db)"
  shows "conforms job_schema (job_view f j db)" and "serialise job_schema (job_view f j db) = job_view f j db"
proof -
  from assms have c: "holds_object (j_selector_json j)" "\<forall>t \<in> set_option (j_result_json j). holds_object t"
    "\<forall>t \<in> set_option (j_error_json j). holds_object t" by (auto simp: columns_ok_def)
  from holds_object_loads [OF c(1)] obtain d where d: "\<And>v. loads (Some (j_selector_json j)) v = JObj d" by blast
  note fits = optional_object [OF c(2)] optional_object [OF c(3)]
  show "conforms job_schema (job_view f j db)" "serialise job_schema (job_view f j db) = job_view f j db"
    using fits by (auto simp: job_schema_def job_view_def d get_or_none_def evidence_fits comp_def simp del: conforms.simps(6) serialise.simps(1))
qed

text \<open>A reader's answer, behind the scope check; and a handler's, behind the body and the scope check.\<close>

lemma guarded_answer:
  assumes "guarded v s scope c handler st = (st', Inr x)"
  obtains p where "handler p (as_db st) = (as_db st', Inr x)"
  using assms by (cases rule: guarded_cases) auto

lemma with_body_answer:
  assumes "with_body b (\<lambda>x. guarded v s scope c (f x)) st = (st', Inr (code, body))" and "code \<noteq> 400"
  obtains x p where "b = Some x" "f x p (as_db st) = (as_db st', Inr (code, body))"
  using assms by (auto simp: with_body_def rejected_def split: option.splits elim: guarded_answer)

text \<open>The tools answer with objects, and so do the Teams events.\<close>

lemma validated_answer:
  assumes "validated x f db = (db', Inr (code, body))" and "code \<noteq> 400"
  obtains a where "x = Inr a" "f a = (db', Inr (code, body))"
  using assms by (auto simp: validated_def rejected_def split: sum.splits)

lemma tool_answer:
  "tool_reply v s t p result db = (db', Inr (code, body)) \<Longrightarrow> \<exists>logged. result = Inr (logged, body)"
  by (auto simp: tool_reply_def split: sum.splits prod.splits)

lemma teams_answer:
  assumes "teams_events v s authorization body db = (db', Inr (code, answer))"
  shows "\<exists>d. answer = JObj d"
proof -
  have "\<exists>d. x = JObj d" if "handle_lifecycle s now hex audit_hex a db = (db2, Inr x)" for now hex audit_hex a db2 x
    using that by (auto simp: handle_lifecycle_def accepted_ignored_def accepted_installation_def
        split: sum.splits if_splits prod.splits)
  then show ?thesis
    using assms by (fastforce simp: teams_events_def split: if_splits option.splits sum.splits prod.splits)
qed

lemma answer_fits:
  assumes "serve v s c req st = (st', Inr (code, body))" and "columns_ok (as_db st)" and "code \<noteq> 400"
  shows "conforms (response_model req) body \<and> serialise (response_model req) body = body"
proof (cases req)
  case Livez
  with assms show ?thesis by (auto simp: livez_def health_schema_def get_or_none_def)
next
  case Readyz
  from assms(1) [unfolded Readyz serve.simps] obtain p where "reading (readyz v s) p (as_db st) = (as_db st', Inr (code, body))"
    by (rule guarded_answer)
  with Readyz show ?thesis
    by (auto simp: reading_def readyz_def bind_result_Inr_iff Let_def ready_schema_def get_or_none_def)
next
  case (Create_review_job b key)
  from assms(1) [unfolded Create_review_job serve.simps] assms(3) obtain x p where
    "create_review_job v s x key p (as_db st) = (as_db st', Inr (code, body))" by (rule with_body_answer)
  then obtain j created where "body = accepted_job j created"
    using assms(3) by (cases rule: create_review_job_cases) (auto simp: rejected_def)
  with Create_review_job show ?thesis by (auto simp: accepted_job_fits)
next
  case (Get_job i)
  from assms(1) [unfolded Get_job serve.simps] obtain p where "reading (get_job_route v i) p (as_db st) = (as_db st', Inr (code, body))"
    by (rule guarded_answer)
  then obtain j where j: "get_job i (as_db st) = Some j" "body = job_view (ae_isoformat v) j (as_db st)"
    by (auto simp: reading_def get_job_route_def split: option.splits)
  then have "j \<in> set (jobs (as_db st))" using get_by_SomeD by (fastforce simp: get_job_def)
  from job_view_fits [OF assms(2) this] j Get_job show ?thesis by auto
next
  case List_installations
  from assms(1) [unfolded List_installations serve.simps] obtain p where
    "reading (list_installations v) p (as_db st) = (as_db st', Inr (code, body))" by (rule guarded_answer)
  then have "body = JArr (map (installation_view (ae_isoformat v)) (installations False (as_db st)))"
    by (auto simp: reading_def list_installations_def)
  with List_installations show ?thesis by (auto simp: installation_fits comp_def)
next
  case (Update_installation i b)
  from assms(1) [unfolded Update_installation serve.simps] assms(3) obtain x p where
    "update_installation v s i x p (as_db st) = (as_db st', Inr (code, body))" by (rule with_body_answer)
  then obtain t where "body = installation_view (ae_isoformat v) t"
    using assms(3) by (auto simp: update_installation_def validated_def rejected_def split: sum.splits prod.splits option.splits)
  with Update_installation show ?thesis by (auto simp: installation_fits)
next
  case (Splunk_search b)
  from assms(1) [unfolded Splunk_search serve.simps] assms(3) obtain x p where
    "splunk_route v s x p (as_db st) = (as_db st', Inr (code, body))" by (rule with_body_answer)
  with assms(3) Splunk_search show ?thesis
    by (auto simp: splunk_route_def splunk_json_def bind_result_Inr_iff elim!: validated_answer dest!: tool_answer)
next
  case (Adx_query b)
  from assms(1) [unfolded Adx_query serve.simps] assms(3) obtain x p where
    "adx_route v s x p (as_db st) = (as_db st', Inr (code, body))" by (rule with_body_answer)
  with assms(3) Adx_query show ?thesis
    by (auto simp: adx_route_def adx_json_def bind_result_Inr_iff elim!: validated_answer dest!: tool_answer)
next
  case (Confluence_search b)
  from assms(1) [unfolded Confluence_search serve.simps] assms(3) obtain x p where
    "confluence_route v s x p (as_db st) = (as_db st', Inr (code, body))" by (rule with_body_answer)
  with assms(3) Confluence_search show ?thesis
    by (auto simp: confluence_route_def bind_result_Inr_iff elim!: validated_answer dest!: tool_answer)
next
  case (Sigma_convert b)
  from assms(1) [unfolded Sigma_convert serve.simps] assms(3) obtain x p where
    "sigma_route v s x p (as_db st) = (as_db st', Inr (code, body))" by (rule with_body_answer)
  with assms(3) Sigma_convert show ?thesis
    by (auto simp: sigma_route_def sigma_convert_def bind_result_Inr_iff elim!: validated_answer dest!: tool_answer)
next
  case (Teams_events authorization b)
  from assms(1) have "teams_events v s authorization b (as_db st) = (as_db st', Inr (code, body))"
    by (auto simp: Teams_events split: prod.splits)
  with Teams_events show ?thesis by (auto dest!: teams_answer)
qed

lemma send_reply_fits:
  assumes "serve v s c req st = (st', r)" and "columns_ok (as_db st)"
  shows "send_reply req r = r"
proof (cases r)
  case (Inr x)
  obtain code body where x: "x = (code, body)" by (cases x)
  with Inr assms(1) have "serve v s c req st = (st', Inr (code, body))" by simp
  from answer_fits [OF this assms(2)] show ?thesis
    by (simp add: send_reply_def bind_result_def Inr x )
qed (simp add: send_reply_def bind_result_def)

end
