(* ===== verification/Deployment.thy ===== *)
theory Deployment
  imports Responses
begin

text \<open>
  The deployed program: the API and one worker process on one database, as an interleaving of
  their steps. A request is one step, and the worker's steps are the transactions of its loop
  (\<^verbatim>\<open>run_worker\<close> in \<^verbatim>\<open>src/sprinter/worker.py\<close>, \<^verbatim>\<open>process_next_job\<close>,
  \<^verbatim>\<open>_enqueue_notifications\<close>, \<^verbatim>\<open>audit\<close> and \<^verbatim>\<open>flush_outbox\<close> in
  \<^verbatim>\<open>src/sprinter/engine.py\<close>), so that requests come between the claim of a job, the end of
  its review, each of its notifications and audit events, and between the sending of a delivery and
  its settlement. The worker can be killed at every point.

  The lemmas show that every step is a run of the job life cycle (a simulation, the job in
  hand being the abstract \<open>holds\<close>), that the life of a worker that is not interrupted is the
  \<open>run_worker\<close> of theory \<open>Worker\<close>, that every step keeps the columns which answers are read
  from, and what a worker leaves undone that dies between two transactions.
\<close>

section \<open>A review in transactions\<close>

text \<open>What is written one transaction at a time, and when: audit events and deliveries.\<close>

datatype effect =
    Write_audit instant string string string json
  | Write_delivery instant string string json string

fun perform :: "settings \<Rightarrow> effect \<Rightarrow> database \<Rightarrow> database" where
  "perform s (Write_audit now hex event_type actor payload) db = fst (audit s now hex event_type actor payload db)"
| "perform s (Write_delivery now hex channel payload target) db = fst (enqueue now hex channel payload target db)"

definition audit_effects :: "settings \<Rightarrow> instant \<Rightarrow> string \<times> string \<Rightarrow> string \<Rightarrow> string \<Rightarrow> json \<Rightarrow> effect list" where
  "audit_effects s now hexes event_type actor payload =
     (let shown = redact (redaction_keys s) payload in
      Write_audit now (fst hexes) event_type actor shown #
      (if audit_configured s
       then [Write_delivery now (snd hexes) ''splunk_audit''
               (JObj [(''event_id'', JStr (new_id ''audit'' (fst hexes))), (''event_type'', JStr event_type),
                      (''actor'', JStr actor), (''payload'', shown)]) []]
       else []))"

definition card_effects :: "(nat \<Rightarrow> instant) \<Rightarrow> (nat \<Rightarrow> string) \<Rightarrow> nat \<Rightarrow> json \<Rightarrow> installation list \<Rightarrow> effect list" where
  "card_effects clock hexes n payload ts =
     map (\<lambda>(k, t). Write_delivery (clock k) (hexes k) ''teams'' payload (t_id t)) (enumerate n ts)"

text \<open>What a transaction of the review leads to: the announcement of a decision, or writes that end the review.\<close>

datatype progress =
    Announce string "evidence_item list" pi_result
  | Write "effect list"

definition give_up :: "settings \<Rightarrow> job_env \<Rightarrow> job \<Rightarrow> exc \<Rightarrow> database \<Rightarrow> database \<times> (exc + progress)" where
  "give_up s env j e db =
     (if \<not> handled e then (db, Inl e)
      else (retry_job (env_settled env) j (error_json e) (retry_delay (j_attempts j)) db,
            Inr (Write (audit_effects s (env_audited env) (env_audit env) ''review_job.retry'' ''worker''
              (JObj [(''job_id'', JStr (j_id j)), (''error'', error_json e)])))))"

definition review_step ::
  "services \<Rightarrow> settings \<Rightarrow> job_env \<Rightarrow> job \<Rightarrow> database \<Rightarrow> database \<times> (exc + progress)"
where
  "review_step sv s env j db =
     (case assess sv s j of
        Inl e \<Rightarrow> give_up s env j e db
      | Inr (evidence, r) \<Rightarrow>
          (case complete_job s (env_settled env) (env_hexes env) j (pr_decision r) (finding_key (sv_sha256 sv) j evidence)
                  evidence (model_of r) db of
             (db1, Inl e) \<Rightarrow> give_up s env j e db1
           | (db1, Inr did) \<Rightarrow> (db1, Inr (Announce did evidence r))))"

text \<open>The destinations are read in a transaction of their own; nothing is written yet.\<close>

definition announce_step ::
  "services \<Rightarrow> settings \<Rightarrow> job_env \<Rightarrow> job \<Rightarrow> string \<Rightarrow> evidence_item list \<Rightarrow> pi_result \<Rightarrow> database \<Rightarrow>
   database \<times> (exc + progress)"
where
  "announce_step sv s env j did evidence r db =
     (let m = model_of r;
          log = audit_effects s (env_audited env) (env_audit env) ''review_job.succeeded'' ''worker''
            (JObj [(''job_id'', JStr (j_id j)), (''decision_id'', JStr did), (''model'', model_json m)]);
          shown = public_decision (pr_decision r) (finding_key (sv_sha256 sv) j evidence) did in
      if \<not> teams_enabled s then (db, Inr (Write log))
      else case loads (Some (j_selector_json j)) (JObj []) of
        JObj sel \<Rightarrow>
          let card = build_review_card shown (run_details sel j evidence m) (evidence_links evidence) in
          (db, Inr (Write (card_effects (env_announced env) (env_notify env) 0 (JObj [(''card'', card)]) (installations True db) @ log)))
      | v \<Rightarrow> give_up s env j (TypeError, [CHR 0x27] @ python_type v @ [CHR 0x27] @ '' object is not a mapping'') db)"

lemma audit_effects_run:
  "fst (container_audit s now hexes event_type actor payload db) =
     fold (perform s) (audit_effects s now hexes event_type actor payload) db"
  by (simp add: container_audit_def audit_effects_def audit_def Let_def)

lemma card_effects_run: "enqueue_all clock hexes n payload ts db = fold (perform s) (card_effects clock hexes n payload ts) db"
  by (induction ts arbitrary: n db) (simp_all add: card_effects_def)

lemma perform_tables [simp]: "job_tables (perform s e db) = job_tables db"
  by (cases e) (simp_all add: audit_def enqueue_def job_tables_def Let_def)

text \<open>The transactions of a review, run one after the other, are \<open>finish_job\<close>.\<close>

definition reported :: "settings \<Rightarrow> job_env \<Rightarrow> outcome \<Rightarrow> database \<times> (exc + progress) \<Rightarrow> database \<times> (exc + outcome)" where
  "reported s env out x = (case x of
     (db, Inl e) \<Rightarrow> (db, Inl e)
   | (db, Inr (Write es)) \<Rightarrow> (fold (perform s) es db, Inr out)
   | (db, Inr (Announce _ _ _)) \<Rightarrow> (db, Inr out))"

lemma handle_failure_steps: "\<exists>out. handle_failure s env j e db = reported s env out (give_up s env j e db)"
  by (simp add: handle_failure_def give_up_def reported_def audit_effects_run Let_def)

lemma store_result_steps:
  assumes "complete_job s (env_settled env) (env_hexes env) j (pr_decision r) (finding_key (sv_sha256 sv) j evidence)
    evidence (model_of r) db = (db1, Inr did)"
  shows "\<exists>out. store_result sv s env j evidence r db = reported s env out (announce_step sv s env j did evidence r db1)"
proof (cases "teams_enabled s")
  case False
  with assms show ?thesis
    by (simp add: store_result_def enqueue_notifications_def announce_step_def reported_def audit_effects_run Let_def)
next
  case True
  show ?thesis
  proof (cases "loads (Some (j_selector_json j)) (JObj [])")
    case (JObj sel)
    with True assms show ?thesis
      by (simp add: store_result_def enqueue_notifications_def announce_step_def reported_def audit_effects_run
          card_effects_run [of _ _ _ _ _ _ s] Let_def)
  qed (use True assms handle_failure_steps in \<open>simp_all add: store_result_def enqueue_notifications_def announce_step_def Let_def\<close>)
qed

section \<open>Steps\<close>

text \<open>Where the worker is: not running, before its recovery, between two iterations, or in one.\<close>

datatype phase =
    Stopped
  | Starting
  | Looping worker_state
  | Probed iteration worker_state
  | Holding iteration worker_state job
  | Announcing iteration worker_state job string "evidence_item list" pi_result
  | Writing iteration worker_state "effect list"
  | Reviewed iteration worker_state
  | Flushing iteration worker_state "outbox list"
  | Settling iteration worker_state outbox "exc + unit" "outbox list"

text \<open>\<open>deaths\<close> counts the workers that were killed or ended by an error while they ran.\<close>

record deployed =
  base :: database
  phase :: phase
  deaths :: nat

abbreviation now_of :: "iteration \<Rightarrow> instant" where
  "now_of i \<equiv> env_now (it_env i)"

text \<open>A delivery is sent first and settled, in a transaction, afterwards.\<close>

definition send_one :: "settings \<Rightarrow> iteration \<Rightarrow> database \<Rightarrow> outbox \<Rightarrow> exc + unit" where
  "send_one s i = send_item (it_send_card i) (it_post i) (sv_fs (it_services i)) s"

definition settle_one :: "iteration \<Rightarrow> outbox \<Rightarrow> exc + unit \<Rightarrow> database \<Rightarrow> database" where
  "settle_one i item r db =
     (case r of Inr _ \<Rightarrow> delivery_succeeded (it_settled i (o_id item)) (o_id item) db
   | Inl e \<Rightarrow> delivery_failed (it_settled i (o_id item)) item (snd e) db)"

definition purge_when_due ::
  "(instant \<Rightarrow> instant \<Rightarrow> bool) \<Rightarrow> settings \<Rightarrow> iteration \<Rightarrow> worker_state \<Rightarrow> database \<Rightarrow> database \<times> worker_state"
where
  "purge_when_due before s i w db =
     (if next_purge w \<le> it_monotonic i
      then (fst (purge before s (it_purged i) db), w\<lparr>next_purge := it_monotonic i + seconds 86400\<rparr>)
      else (db, w))"

text \<open>What a claim leads to, and what a transaction of the review leads to.\<close>

definition after_claim :: "iteration \<Rightarrow> worker_state \<Rightarrow> job option \<Rightarrow> phase" where
  "after_claim i w r = (case r of None \<Rightarrow> Reviewed i w | Some j \<Rightarrow> Holding i w j)"

fun after_step :: "iteration \<Rightarrow> worker_state \<Rightarrow> job \<Rightarrow> exc + progress \<Rightarrow> phase" where
  "after_step i w j (Inl e) = Stopped"
| "after_step i w j (Inr (Announce did evidence r)) = Announcing i w j did evidence r"
| "after_step i w j (Inr (Write es)) = Writing i w es"

definition died :: "exc + 'a \<Rightarrow> nat" where
  "died r = (case r of Inl _ \<Rightarrow> 1 | Inr _ \<Rightarrow> 0)"

inductive deployment ::
  "settings \<Rightarrow> (instant \<Rightarrow> instant \<Rightarrow> bool) \<Rightarrow> deployed \<Rightarrow> deployed \<Rightarrow> bool" for s before
where
  request: "serve v s c req st = (st', r) \<Longrightarrow> as_db st = base d \<Longrightarrow>
    deployment s before d (d\<lparr>base := as_db st'\<rparr>)"
| probe_failed: "phase d = Stopped \<Longrightarrow> validate_runtime fs writable s Role_worker = Inr u \<Longrightarrow>
    deployment s before d (d\<lparr>base := heartbeat now False e JNull (base d)\<rparr>)"
| started: "phase d = Stopped \<Longrightarrow> validate_runtime fs writable s Role_worker = Inr u \<Longrightarrow>
    deployment s before d (d\<lparr>base := heartbeat now True [] (details_json pd) (base d), phase := Starting\<rparr>)"
| recovered: "phase d = Starting \<Longrightarrow>
    deployment s before d (d\<lparr>base := fst (recover_abandoned_jobs now 900 (base d)), phase := Looping started_worker\<rparr>)"
| probed: "phase d = Looping w \<Longrightarrow> probe_or_beat s i w (base d) = (db', w') \<Longrightarrow>
    deployment s before d (d\<lparr>base := db', phase := Probed i w'\<rparr>)"
| claimed: "phase d = Probed i w \<Longrightarrow> pi_ready w \<Longrightarrow> claim_job (now_of i) (base d) (base d) = (db', r) \<Longrightarrow>
    deployment s before d (d\<lparr>base := db', phase := after_claim i w r\<rparr>)"
| paused: "phase d = Probed i w \<Longrightarrow> \<not> pi_ready w \<Longrightarrow>
    deployment s before d (d\<lparr>phase := Reviewed i w\<rparr>)"
| reviewed: "phase d = Holding i w j \<Longrightarrow> review_step (it_services i) s (it_env i) j (base d) = (db', r) \<Longrightarrow>
    deployment s before d (d\<lparr>base := db', phase := after_step i w j r, deaths := deaths d + died r\<rparr>)"
| announced: "phase d = Announcing i w j did evidence p \<Longrightarrow>
    announce_step (it_services i) s (it_env i) j did evidence p (base d) = (db', r) \<Longrightarrow>
    deployment s before d (d\<lparr>base := db', phase := after_step i w j r, deaths := deaths d + died r\<rparr>)"
| written: "phase d = Writing i w (e # es) \<Longrightarrow>
    deployment s before d (d\<lparr>base := perform s e (base d), phase := Writing i w es\<rparr>)"
| finished: "phase d = Writing i w [] \<Longrightarrow> deployment s before d (d\<lparr>phase := Reviewed i w\<rparr>)"
| listed: "phase d = Reviewed i w \<Longrightarrow>
    deployment s before d (d\<lparr>phase := Flushing i w (pending_deliveries (it_listed i) 25 (base d))\<rparr>)"
| sent: "phase d = Flushing i w (item # items) \<Longrightarrow>
    deployment s before d (d\<lparr>phase := Settling i w item (send_one s i (base d) item) items\<rparr>)"
| settled: "phase d = Settling i w item r items \<Longrightarrow>
    deployment s before d (d\<lparr>base := settle_one i item r (base d), phase := Flushing i w items\<rparr>)"
| slept: "phase d = Flushing i w [] \<Longrightarrow> purge_when_due before s i w (base d) = (db', w') \<Longrightarrow>
    deployment s before d (d\<lparr>base := db', phase := Looping w'\<rparr>)"
| stopped: "phase d = Looping w \<Longrightarrow> deployment s before d (d\<lparr>phase := Stopped\<rparr>)"
| killed: "phase d \<noteq> Stopped \<Longrightarrow> deployment s before d (d\<lparr>phase := Stopped, deaths := deaths d + 1\<rparr>)"

definition initial_deployment :: deployed where
  "initial_deployment = \<lparr>base = empty_database, phase = Stopped, deaths = 0\<rparr>"

section \<open>Every step is a run of the life cycle\<close>

fun in_hand :: "phase \<Rightarrow> job option" where
  "in_hand (Holding i w j) = Some j"
| "in_hand _ = None"

definition abstract_system :: "deployed \<Rightarrow> string set \<Rightarrow> system" where
  "abstract_system d p = \<lparr>store = base d, holds = in_hand (phase d), crashes = deaths d, purged = p\<rparr>"

lemma abstract_system_sel [simp]:
  "store (abstract_system d p) = base d" "holds (abstract_system d p) = in_hand (phase d)"
  "crashes (abstract_system d p) = deaths d" "purged (abstract_system d p) = p"
  by (simp_all add: abstract_system_def)

lemma abstract_system_update [simp]:
  "abstract_system (d\<lparr>base := x, phase := y, deaths := n\<rparr>) p = \<lparr>store = x, holds = in_hand y, crashes = n, purged = p\<rparr>"
  by (simp add: abstract_system_def)

lemma in_hand_after [simp]:
  "in_hand (after_claim i w r) = r" "in_hand (after_step i w j x) = None"
  by (simp_all add: after_claim_def split: option.split) (cases "(i, w, j, x)" rule: after_step.cases; simp)

lemma settle_one_tables [simp]: "job_tables (settle_one i item r db) = job_tables db"
  by (simp add: settle_one_def delivery_succeeded_def delivery_failed_def job_tables_def split: sum.split)

lemma give_up_cases:
  assumes "give_up s env j e db = (db', r)"
  obtains (escaped) "\<not> handled e" "db' = db" "r = Inl e"
  | (retried) es where "handled e" "db' = retry_job (env_settled env) j (error_json e) (retry_delay (j_attempts j)) db"
      "r = Inr (Write es)"
  using assms by (auto simp: give_up_def split: if_splits)

text \<open>A review fails as its job or without touching it, or completes it.\<close>

lemma review_step_cases:
  assumes "review_step sv s env j db = (db', r)"
  obtains (escaped) e where "db' = db" "r = Inl e"
  | (retried) e es where "db' = retry_job (env_settled env) j (error_json e) (retry_delay (j_attempts j)) db"
      "r = Inr (Write es)"
  | (completed) did evidence p where
      "complete_job s (env_settled env) (env_hexes env) j (pr_decision p) (finding_key (sv_sha256 sv) j evidence)
         evidence (model_of p) db = (db', Inr did)" "r = Inr (Announce did evidence p)"
proof (cases "assess sv s j")
  case (Inl e)
  with assms have "give_up s env j e db = (db', r)" by (simp add: review_step_def)
  then show ?thesis by (cases rule: give_up_cases) (auto intro: escaped retried)
next
  case (Inr x)
  obtain evidence p where x: "x = (evidence, p)" by (cases x)
  obtain db1 c where c: "complete_job s (env_settled env) (env_hexes env) j (pr_decision p)
      (finding_key (sv_sha256 sv) j evidence) evidence (model_of p) db = (db1, c)" by fastforce
  show ?thesis
  proof (cases c)
    case (Inl e)
    with c have "db1 = db" by (auto simp: complete_job_def Let_def split: if_splits)
    with assms Inr x c Inl have "give_up s env j e db = (db', r)" by (simp add: review_step_def)
    then show ?thesis by (cases rule: give_up_cases) (auto intro: escaped retried)
  next
    case (Inr did)
    with assms \<open>assess sv s j = Inr x\<close> x c show ?thesis by (intro completed) (auto simp: review_step_def)
  qed
qed

lemma announce_step_base:
  assumes "announce_step sv s env j did evidence p db = (db', r)"
  shows "db' = db"
  using assms by (auto simp: announce_step_def give_up_def Let_def split: if_splits json.splits)

lemma step_unrelated:
  assumes "job_tables (base d') = job_tables (base d)" and "in_hand (phase d') = in_hand (phase d)" and "deaths d' = deaths d"
  shows "\<exists>p'. steps_star (lifecycle s before) (abstract_system d p) (abstract_system d' p')"
proof -
  have "(abstract_system d p)\<lparr>store := base d'\<rparr> = abstract_system d' p"
    using assms by (simp add: abstract_system_def)
  with lifecycle.unrelated [of "base d'" "abstract_system d p" s before] assms(1)
  show ?thesis by (auto intro: run_one)
qed

lemma step_simulates:
  assumes "deployment s before d d'"
  shows "\<exists>p'. steps_star (lifecycle s before) (abstract_system d p) (abstract_system d' p')"
  using assms
proof (cases rule: deployment.cases)
  case (request v c req st st' r)
  then have "(abstract_system d p)\<lparr>store := as_db st'\<rparr> = abstract_system d' p"
    by (simp add: abstract_system_def)
  with api_run [OF request(2), of "abstract_system d p" before] request(3) show ?thesis by auto
next
  case (recovered now)
  obtain db k where r: "recover_abandoned_jobs now 900 (base d) = (db, k)" by fastforce
  with lifecycle.recover [of "abstract_system d p" now 900 db k s before] recovered
  show ?thesis by (auto simp: abstract_system_def intro: run_one)
next
  case (claimed i w db r)
  with lifecycle.claim [of "abstract_system d p" "now_of i" db r s before]
  show ?thesis by (auto simp: abstract_system_def intro: run_one)
next
  case (reviewed i w j db r)
  from reviewed(3) show ?thesis
  proof (cases rule: review_step_cases)
    case (escaped e)
    with reviewed lifecycle.crash [of s before "abstract_system d p"]
    show ?thesis by (auto simp: abstract_system_def died_def intro: run_one)
  next
    case (retried e es)
    have "lifecycle s before (abstract_system d p) (abstract_system d' p)"
      using lifecycle.fail [of "abstract_system d p" j s before "env_settled (it_env i)" "error_json e" "retry_delay (j_attempts j)"]
        retried reviewed by (simp add: abstract_system_def died_def)
    then show ?thesis by (blast intro: run_one)
  next
    case (completed did evidence r)
    with reviewed lifecycle.succeed [of "abstract_system d p" j, OF _ _]
    show ?thesis by (fastforce simp: abstract_system_def died_def intro: run_one)
  qed
next
  case (announced i w j did evidence q db r)
  from announce_step_base [OF announced(3)] announced lifecycle.crash [of s before "abstract_system d p"]
  show ?thesis
    by (cases r) (auto simp: died_def abstract_system_def intro: run_one steps_star.steps_refl)
next
  case (slept i w db w')
  show ?thesis
  proof (cases "next_purge w \<le> it_monotonic i")
    case True
    obtain db1 c where "purge before s (it_purged i) (base d) = (db1, c)" by fastforce
    with True slept lifecycle.retain [of before s "it_purged i" "abstract_system d p" db1 c]
    show ?thesis by (auto simp: abstract_system_def purge_when_due_def intro: run_one)
  next
    case False
    with slept show ?thesis by (intro step_unrelated) (auto simp: purge_when_due_def)
  qed
next
  case (probed w i db w')
  with probe_or_beat_tables [of s i w "base d"] show ?thesis by (intro step_unrelated) auto
next
  case killed
  with lifecycle.crash [of s before "abstract_system d p"]
  show ?thesis by (auto simp: abstract_system_def intro: run_one)
qed (auto intro!: step_unrelated)

lemma deployment_run:
  assumes "steps_star (deployment s before) x y"
  shows "\<exists>p'. steps_star (lifecycle s before) (abstract_system x p) (abstract_system y p')"
  using assms
proof (induction rule: steps_star.induct)
  case (steps_refl x)
  show ?case by (blast intro: steps_star.steps_refl)
next
  case (steps_step x y z)
  then show ?case by (meson step_simulates steps_star_trans)
qed

section \<open>A worker that is not interrupted\<close>

lemma written_deployed:
  "steps_star (deployment s before) (d\<lparr>phase := Writing i w es\<rparr>)
     (d\<lparr>base := fold (perform s) es (base d), phase := Reviewed i w\<rparr>)"
proof (induction es arbitrary: d)
  case Nil
  from deployment.finished [of "d\<lparr>phase := Writing i w []\<rparr>" i w s before] show ?case by (simp add: run_one)
next
  case (Cons e es)
  from deployment.written [of "d\<lparr>phase := Writing i w (e # es)\<rparr>" i w e es s before]
    Cons.IH [of "d\<lparr>base := perform s e (base d)\<rparr>"]
  show ?case by (simp add: steps_star_head)
qed

lemma flush_items_settle:
  "fst (flush_items (send_one s i) (it_settled i) (item # items) db) =
     fst (flush_items (send_one s i) (it_settled i) items (settle_one i item (send_one s i db item) db))"
  by (simp add: settle_one_def case_prod_unfold split: sum.split)

lemma flushed_deployed:
  "steps_star (deployment s before) (d\<lparr>phase := Flushing i w items\<rparr>)
     (d\<lparr>base := fst (flush_items (send_one s i) (it_settled i) items (base d)), phase := Flushing i w []\<rparr>)"
proof (induction items arbitrary: d)
  case Nil
  then show ?case by (simp add: steps_star.steps_refl)
next
  case (Cons item items)
  let ?r = "send_one s i (base d) item"
  have "steps_star (deployment s before) (d\<lparr>phase := Flushing i w (item # items)\<rparr>)
      (d\<lparr>base := settle_one i item ?r (base d), phase := Flushing i w items\<rparr>)"
    using deployment.sent [of "d\<lparr>phase := Flushing i w (item # items)\<rparr>" i w item items s before]
      deployment.settled [of "d\<lparr>phase := Settling i w item ?r items\<rparr>" i w item ?r items s before]
    by (auto intro: steps_star_head [OF _ run_one])
  with Cons.IH [of "d\<lparr>base := settle_one i item ?r (base d)\<rparr>"] show ?case
    unfolding flush_items_settle by (auto intro: steps_star_trans)
qed

lemma flush_and_purge_eq:
  "flush_and_purge before s i w db =
     purge_when_due before s i w (fst (flush_outbox (it_send_card i) (it_post i) (sv_fs (it_services i)) s
       (it_listed i) (it_settled i) db))"
  by (simp add: flush_and_purge_def purge_when_due_def Let_def)

lemma flush_and_purge_deployed:
  assumes "flush_and_purge before s i w (base d) = (db', w')" and "phase d = Reviewed i w"
  shows "steps_star (deployment s before) d (d\<lparr>base := db', phase := Looping w'\<rparr>)"
proof -
  let ?items = "pending_deliveries (it_listed i) 25 (base d)"
  let ?db = "fst (flush_items (send_one s i) (it_settled i) ?items (base d))"
  have "deployment s before d (d\<lparr>phase := Flushing i w ?items\<rparr>)" by (rule deployment.listed [OF assms(2)])
  then have "steps_star (deployment s before) d (d\<lparr>base := ?db, phase := Flushing i w []\<rparr>)"
    using flushed_deployed by (rule steps_star_head)
  moreover have "deployment s before (d\<lparr>base := ?db, phase := Flushing i w []\<rparr>) (d\<lparr>base := db', phase := Looping w'\<rparr>)"
    using deployment.slept [of "d\<lparr>base := ?db, phase := Flushing i w []\<rparr>" i w before s db' w'] assms(1)
    by (simp add: flush_and_purge_eq flush_outbox_def send_one_def)
  ultimately show ?thesis by (rule steps_star.steps_step)
qed

text \<open>Where an iteration or a whole life leaves the worker.\<close>

definition ended :: "deployed \<Rightarrow> database \<Rightarrow> exc + worker_state \<Rightarrow> deployed" where
  "ended d db r = (case r of
     Inl _ \<Rightarrow> d\<lparr>base := db, phase := Stopped, deaths := deaths d + 1\<rparr>
   | Inr w \<Rightarrow> d\<lparr>base := db, phase := Looping w\<rparr>)"

definition after_review :: "iteration \<Rightarrow> worker_state \<Rightarrow> exc + outcome \<Rightarrow> phase" where
  "after_review i w r = (case r of Inl _ \<Rightarrow> Stopped | Inr _ \<Rightarrow> Reviewed i w)"

text \<open>From a step that ends in writes, or in an exception, to the end of the review.\<close>

lemma step_written:
  assumes "deployment s before d (d\<lparr>base := db1, phase := after_step i w j x, deaths := deaths d + died x\<rparr>)"
    and "reported s (it_env i) out (db1, x) = (db', r)" and "\<forall>did evidence p. x \<noteq> Inr (Announce did evidence p)"
  shows "steps_star (deployment s before) d (d\<lparr>base := db', phase := after_review i w r, deaths := deaths d + died r\<rparr>)"
proof (cases x)
  case (Inl e)
  with assms show ?thesis by (auto simp: reported_def after_review_def died_def intro: run_one)
next
  case (Inr y)
  with assms(3) obtain es where y: "y = Write es" by (cases y) auto
  from written_deployed [where d = "d\<lparr>base := db1\<rparr>" and i = i and w = w and es = es] assms Inr y show ?thesis
    by (auto simp: reported_def after_review_def died_def intro: steps_star_head)
qed

lemma give_up_no_announcement: "snd (give_up s env j e db) \<noteq> Inr (Announce did evidence p)"
  by (simp add: give_up_def)

lemma announce_step_no_announcement: "snd (announce_step sv s env j did evidence p db) \<noteq> Inr (Announce did' evidence' p')"
  by (simp add: announce_step_def give_up_def Let_def split: json.split)

lemma finish_deployed:
  assumes f: "finish_job (it_services i) s (it_env i) j (base d) = (db', r)" and ph: "phase d = Holding i w j"
  shows "steps_star (deployment s before) d (d\<lparr>base := db', phase := after_review i w r, deaths := deaths d + died r\<rparr>)"
proof -
  obtain db1 x where st: "review_step (it_services i) s (it_env i) j (base d) = (db1, x)" by fastforce
  note step = deployment.reviewed [OF ph st, of before]
  have given_up: ?thesis if "give_up s (it_env i) j e (base d) = (db1, x)" "handle_failure s (it_env i) j e (base d) = (db', r)" for e
  proof -
    from handle_failure_steps [of s "it_env i" j e "base d"] that obtain out where
      "reported s (it_env i) out (db1, x) = (db', r)" by auto
    from step_written [OF step this] give_up_no_announcement [of s "it_env i" j e "base d"] that show ?thesis by auto
  qed
  show ?thesis
  proof (cases "assess (it_services i) s j")
    case (Inl e)
    with f st show ?thesis by (intro given_up) (simp_all add: finish_job_def review_step_def)
  next
    case (Inr y)
    obtain evidence p where y: "y = (evidence, p)" by (cases y)
    obtain db2 c where c: "complete_job s (env_settled (it_env i)) (env_hexes (it_env i)) j (pr_decision p)
        (finding_key (sv_sha256 (it_services i)) j evidence) evidence (model_of p) (base d) = (db2, c)" by fastforce
    show ?thesis
    proof (cases c)
      case (Inl e)
      with c have "db2 = base d" by (auto simp: complete_job_def Let_def split: if_splits)
      with Inr y c Inl f st show ?thesis
        by (intro given_up [of e]) (simp_all add: finish_job_def review_step_def store_result_def)
    next
      case did: (Inr did)
      let ?d1 = "d\<lparr>base := db2, phase := Announcing i w j did evidence p\<rparr>"
      have x: "db1 = db2" "x = Inr (Announce did evidence p)"
        using st Inr y c did by (simp_all add: review_step_def)
      have "deployment s before d ?d1" using step by (simp add: x died_def)
      moreover obtain db3 z where z: "announce_step (it_services i) s (it_env i) j did evidence p (base ?d1) = (db3, z)"
        by fastforce
      moreover from store_result_steps [OF c [unfolded did]] f Inr y z obtain out where
        "reported s (it_env i) out (db3, z) = (db', r)" by (auto simp: finish_job_def)
      moreover have "\<forall>did evidence p. z \<noteq> Inr (Announce did evidence p)"
        using announce_step_no_announcement z by (metis snd_conv)
      ultimately show ?thesis
        using step_written [where d = ?d1 and ?db1.0 = db3 and i = i and w = w and j = j and x = z and out = out and db' = db' and r = r] deployment.announced [of ?d1 i w j did evidence p s db3 z before]
        by (auto intro: steps_star_head)
    qed
  qed
qed

lemma process_deployed:
  assumes "process_next_job (it_services i) s (it_env i) (base d) = (db', r)" and "phase d = Probed i w" "pi_ready w"
  shows "steps_star (deployment s before) d (d\<lparr>base := db', phase := after_review i w r, deaths := deaths d + died r\<rparr>)"
proof -
  obtain db1 c where cj: "claim_job (now_of i) (base d) (base d) = (db1, c)" by fastforce
  let ?d1 = "d\<lparr>base := db1, phase := after_claim i w c\<rparr>"
  have step: "deployment s before d ?d1" by (rule deployment.claimed [OF assms(2,3) cj])
  show ?thesis
  proof (cases c)
    case None
    with assms(1) cj have "db' = db1" "r = Inr Idle" by (simp_all add: process_next_job_finish)
    with None step show ?thesis by (auto simp: after_claim_def after_review_def died_def intro: run_one)
  next
    case (Some j)
    with assms(1) cj have f: "finish_job (it_services i) s (it_env i) j (base ?d1) = (db', r)"
      by (simp add: process_next_job_finish)
    from finish_deployed [OF f, of w before] step Some show ?thesis
      by (auto simp: after_claim_def intro: steps_star_head)
  qed
qed

lemma iteration_deployed:
  assumes "worker_iteration before s i w (base d) = (db', r)" and "phase d = Looping w"
  shows "steps_star (deployment s before) d (ended d db' r)"
proof -
  obtain db1 w1 where p: "probe_or_beat s i w (base d) = (db1, w1)" by fastforce
  let ?d1 = "d\<lparr>base := db1, phase := Probed i w1\<rparr>"
  have step: "deployment s before d ?d1" by (rule deployment.probed [OF assms(2) p])
  have worked: "steps_star (deployment s before) d (d\<lparr>base := db2, phase := after_review i w1 x,
      deaths := deaths d + died x\<rparr>)"
    if "process_next_job (it_services i) s (it_env i) db1 = (db2, x)" "pi_ready w1" for db2 x
    using process_deployed [of i s ?d1 db2 x w1 before] that step by (auto intro: steps_star_head)
  from assms(1) show ?thesis
  proof (cases rule: worker_iteration_cases)
    case (died db1' w1' e)
    with p worked [of db' "Inl e"] show ?thesis by (simp add: ended_def after_review_def died_def)
  next
    case (completed db1' w1' db2 w2)
    let ?d2 = "d\<lparr>base := db2, phase := Reviewed i w1\<rparr>"
    have "steps_star (deployment s before) d ?d2"
    proof (cases "pi_ready w1")
      case True
      with completed p worked [of db2 "Inr _"] show ?thesis by (auto simp: after_review_def died_def)
    next
      case False
      with completed p deployment.paused [of ?d1 i w1 s before] step show ?thesis
        by (auto intro: steps_star_head [OF _ run_one])
    qed
    moreover have "steps_star (deployment s before) ?d2 (?d2\<lparr>base := db', phase := Looping w2\<rparr>)"
      by (rule flush_and_purge_deployed) (use completed p in simp_all)
    ultimately show ?thesis using steps_star_trans completed(4) by (fastforce simp: ended_def)
  qed
qed

lemma loop_deployed:
  assumes "worker_loop before s its w (base d) = (db', r)" and "phase d = Looping w"
  shows "steps_star (deployment s before) d (ended d db' r)"
  using assms
proof (induction its arbitrary: w d)
  case Nil
  then have "ended d db' r = d" by (auto simp: ended_def)
  then show ?case by (simp add: steps_star.steps_refl)
next
  case (Cons i its)
  obtain db1 r1 where it: "worker_iteration before s i w (base d) = (db1, r1)" by fastforce
  note run = iteration_deployed [OF it Cons.prems(2)]
  show ?case
  proof (cases r1)
    case (Inl e)
    with Cons.prems it run show ?thesis by auto
  next
    case (Inr w1)
    with Cons.prems(1) it Cons.IH [of w1 "ended d db1 r1"] have
      "steps_star (deployment s before) (ended d db1 r1) (ended (ended d db1 r1) db' r)"
      by (simp add: ended_def)
    moreover have "ended (ended d db1 r1) db' r = ended d db' r"
      using Inr by (simp add: ended_def split: sum.split)
    ultimately show ?thesis using steps_star_trans run by metis
  qed
qed

text \<open>The whole life of a worker: \<open>run_worker\<close> of theory \<open>Worker\<close>, started where no worker runs.\<close>

lemma worker_deployed:
  assumes "run_worker before fs writable s beat now found its (base d) = (db', r)" and "phase d = Stopped"
  shows "\<exists>d'. steps_star (deployment s before) d d' \<and> base d' = db' \<and> deaths d' \<le> deaths d + 1"
proof (cases "validate_runtime fs writable s Role_worker")
  case (Inl e)
  with assms(1) have "base d = db'" by (simp add: run_worker_def)
  then show ?thesis using steps_star.steps_refl [of "deployment s before" d] by fastforce
next
  case valid: (Inr u)
  show ?thesis
  proof (cases found)
    case (Inl e)
    with valid assms(1) have "db' = heartbeat beat False (snd e) JNull (base d)" by (simp add: run_worker_def)
    with run_one [of "deployment s before", OF deployment.probe_failed [OF assms(2) valid, of before beat "snd e"]]
    show ?thesis by fastforce
  next
    case (Inr pd)
    let ?d1 = "d\<lparr>base := heartbeat beat True [] (details_json pd) (base d), phase := Starting\<rparr>"
    let ?d2 = "?d1\<lparr>base := fst (recover_abandoned_jobs now 900 (base ?d1)), phase := Looping started_worker\<rparr>"
    have "deployment s before d ?d1" by (rule deployment.started [OF assms(2) valid])
    moreover have "deployment s before ?d1 ?d2" by (rule deployment.recovered) simp
    moreover have "worker_loop before s its started_worker (base ?d2) = (db', r)"
      using assms(1) valid Inr by (simp add: run_worker_def)
    from loop_deployed [OF this] have "steps_star (deployment s before) ?d2 (ended ?d2 db' r)" by simp
    ultimately have "steps_star (deployment s before) d (ended ?d2 db' r)" by (blast intro: steps_star_head)
    moreover have "base (ended ?d2 db' r) = db'" "deaths (ended ?d2 db' r) \<le> deaths d + 1"
      by (simp_all add: ended_def split: sum.split)
    ultimately show ?thesis by blast
  qed
qed

section \<open>What a killed worker leaves undone\<close>

text \<open>
  The decision is stored before its announcement is: a worker killed in between leaves a job that
  succeeded and that no worker takes up again, with nothing in the outbox, so that no destination
  ever hears of it.
\<close>

lemma announcement_lost:
  assumes "phase d = Holding i w j" and "held j (base d)" and "jobs_ok (base d)"
    and "review_step (it_services i) s (it_env i) j (base d) = (db', Inr (Announce did evidence p))"
  shows "\<exists>d' r. steps_star (deployment s before) d d' \<and> phase d' = Stopped \<and>
    deliveries (base d') = deliveries (base d) \<and> audits (base d') = audits (base d) \<and>
    get_job (j_id j) (base d') = Some r \<and> j_status r = Succeeded \<and> \<not> claimable r \<and> \<not> abandoned t r"
  using assms(4)
proof (cases rule: review_step_cases)
  case (completed did' evidence' p')
  let ?d1 = "d\<lparr>base := db', phase := after_step i w j (Inr (Announce did evidence p))\<rparr>"
  let ?d2 = "?d1\<lparr>phase := Stopped, deaths := deaths d + 1\<rparr>"
  let ?row = "mark_succeeded (env_settled (it_env i)) (JObj (public_decision (pr_decision p') (finding_key (sv_sha256 (it_services i)) j evidence') did')) j"
  have "deployment s before d ?d1" using deployment.reviewed [OF assms(1,4), of before] by (simp add: died_def)
  moreover have "deployment s before ?d1 ?d2" using deployment.killed [of ?d1 s before] by simp
  ultimately have "steps_star (deployment s before) d ?d2" by (blast intro: steps_star_head run_one)
  moreover have "deliveries db' = deliveries (base d)" "audits db' = audits (base d)"
    using completed(1) by (auto simp: complete_job_def Let_def split: if_splits)
  moreover have "get_job (j_id j) db' = Some ?row"
    by (rule get_job_update [OF _ _ _ complete_job_Inr(1) [OF completed(1)]])
       (use assms(2,3) in \<open>simp_all add: held_def\<close>)
  moreover have "j_status ?row = Succeeded" "\<not> claimable ?row" "\<not> abandoned t ?row"
    by (simp_all add: mark_succeeded_def claimable_def abandoned_def)
  ultimately show ?thesis by (intro exI [of _ ?d2] exI [of _ ?row]) simp
qed simp_all

text \<open>
  A delivery is sent before it is settled: a worker killed in between leaves it as it was, so that
  the next worker sends it again. Deliveries are made at least once.
\<close>

lemma delivery_unsettled:
  assumes "phase d = Flushing i w (item # items)"
  shows "steps_star (deployment s before) d (d\<lparr>phase := Stopped, deaths := deaths d + 1\<rparr>)"
proof -
  let ?d1 = "d\<lparr>phase := Settling i w item (send_one s i (base d) item) items\<rparr>"
  have "deployment s before d ?d1" by (rule deployment.sent [OF assms])
  moreover have "deployment s before ?d1 (d\<lparr>phase := Stopped, deaths := deaths d + 1\<rparr>)"
    using deployment.killed [of ?d1 s before] by simp
  ultimately show ?thesis by (blast intro: steps_star_head run_one)
qed

section \<open>Every step keeps the columns\<close>

lemma review_step_columns:
  assumes "review_step sv s env j db = (db', r)" and "columns_ok db"
  shows "columns_ok db'"
  using assms(1)
proof (cases rule: review_step_cases)
  case (retried e es)
  with retry_job_columns [OF assms(2)] show ?thesis by simp
next
  case (completed did evidence p)
  with complete_job_columns [OF assms(2)] show ?thesis by (metis fst_conv)
qed (use assms(2) in simp)

lemma step_columns:
  assumes "deployment s before d d'" and "columns_ok (base d)"
  shows "columns_ok (base d')"
proof -
  have unrelated: ?thesis if "job_tables (base d') = job_tables (base d)"
    using that columns_ok_tables assms(2) by blast
  from assms(1) show ?thesis
  proof (cases rule: deployment.cases)
    case (request v c req st st' r)
    with serve_columns assms(2) show ?thesis by auto
  next
    case (recovered now)
    with assms(2) show ?thesis by (simp add: recover_columns)
  next
    case (probed w i db w')
    with probe_or_beat_tables [of s i w "base d"] show ?thesis by (intro unrelated) simp
  next
    case (claimed i w db r)
    with claim_job_columns assms(2) show ?thesis by simp
  next
    case (reviewed i w j db r)
    with review_step_columns assms(2) show ?thesis by simp
  next
    case (announced i w j did evidence p db r)
    with announce_step_base [OF announced(3)] assms(2) show ?thesis by simp
  next
    case (slept i w db w')
    then have "set (jobs db) \<subseteq> set (jobs (base d))"
      by (auto simp: purge_when_due_def delete_where_def split: if_splits)
    with columns_ok_subset assms(2) slept show ?thesis by simp
  qed (simp_all add: columns_ok_tables assms(2))
qed

interpretation columns: invariant_system "deployment s before" "\<lambda>d. columns_ok (base d)" for s before
  by unfold_locales (rule step_columns)

end
