(* ===== verification/Progress.thy ===== *)
theory Progress
  imports Worker
begin

text \<open>
  Progress of the worker: with the model runtime available and the process alive, every job ends.
  The measure is the number of attempts that are left to the jobs that have not ended. An iteration
  reads the clock when it claims a job and again, after the review, when it records the outcome. A
  round is an iteration that claims at least 512 seconds, the longest retry delay, after the previous
  round recorded its outcome; in every round, or since the last one, the worker has used up an
  attempt, unless all have ended.
\<close>

section \<open>The measure\<close>

definition attempts_left :: "job \<Rightarrow> nat" where
  "attempts_left j = (if terminal j then 0 else max 1 (j_max_attempts j - j_attempts j))"

definition pending_work :: "database \<Rightarrow> nat" where
  "pending_work db = sum_list (map attempts_left (jobs db))"

lemma attempts_left_zero_iff [simp]: "attempts_left j = 0 \<longleftrightarrow> terminal j"
  by (simp add: attempts_left_def)

lemma pending_work_zero_iff: "pending_work db = 0 \<longleftrightarrow> (\<forall>j \<in> set (jobs db). terminal j)"
  by (simp add: pending_work_def)

lemma sum_update_key:
  fixes h :: "'r \<Rightarrow> nat"
  assumes "distinct (map k rows)" and "r \<in> set rows"
  shows "sum_list (map h (update_where (\<lambda>x. k x = k r) f rows)) + h r = sum_list (map h rows) + h (f r)"
  using assms
proof (induction rows)
  case (Cons x rows)
  show ?case
  proof (cases "k x = k r")
    case True
    then have "x = r" using Cons.prems by (auto simp: image_iff)
    moreover have "update_where (\<lambda>x. k x = k r) f rows = rows"
      by (rule update_where_none) (use Cons.prems True in \<open>auto simp: image_iff\<close>)
    ultimately show ?thesis by (simp add: table_simps)
  next
    case False
    with Cons show ?thesis by (auto simp: table_simps)
  qed
qed simp

lemma sum_delete_where: "sum_list (map (h :: 'r \<Rightarrow> nat) (delete_where p rows)) \<le> sum_list (map h rows)"
  by (induction rows) (auto simp: table_simps)

section \<open>One round of processing\<close>

lemma unique_row: "distinct (map j_id rows) \<Longrightarrow> r \<in> set rows \<Longrightarrow> c \<in> set rows \<Longrightarrow> j_id r = j_id c \<Longrightarrow> r = c"
  by (metis get_by_unique option.inject)

lemma claim_update:
  assumes "claim_job now db db = (db', r)" and d: "distinct (map j_id (jobs db))"
  obtains (none) "r = None" "jobs db' = jobs db" "\<forall>j \<in> set (jobs db). \<not> due now j"
  | (row) c where "c \<in> set (jobs db)" "due now c" "r = Some (mark_claimed now c)"
      "jobs db' = update_where (\<lambda>x. j_id x = j_id c) (mark_claimed now) (jobs db)"
  using assms(1)
proof (cases rule: claim_job_cases)
  case none
  then show ?thesis by (intro that(1)) (auto simp: filter_empty_conv)
next
  case (update c)
  let ?p = "\<lambda>j. j_id j = j_id c \<and> claimable j"
  have c: "claimable c" using update(2) by (simp add: due_def)
  have jobs': "jobs db' = update_where (\<lambda>x. j_id x = j_id c) (mark_claimed now) (jobs db)"
    unfolding update(4) using c unique_row [OF d _ update(1)] by (auto simp: update_where_def)
  have "rowcount ?p (jobs db) = 1"
    by (rule rowcount_key [OF d update(1)]) (simp_all add: c)
  moreover have "get_by j_id (j_id (mark_claimed now c)) (jobs db') = Some (mark_claimed now c)"
  proof (rule get_by_unique)
    show "distinct (map j_id (jobs db'))" unfolding jobs' using d by (simp add: claim_upd.keys)
    show "mark_claimed now c \<in> set (jobs db')"
      unfolding jobs' set_update_where using update(1) by auto
  qed
  ultimately have "r = Some (mark_claimed now c)" using update(5) by simp
  with update(1,2) jobs' show ?thesis by (intro that(2))
qed

lemma handle_failure_jobs:
  assumes "handle_failure s env j e db = (db', Inr out)"
  shows "\<exists>err. jobs db' = jobs (retry_job (env_settled env) j err (retry_delay (j_attempts j)) db)"
proof -
  let ?db1 = "retry_job (env_settled env) j (error_json e) (retry_delay (j_attempts j)) db"
  from assms have "job_tables db' = job_tables ?db1"
    by (auto simp: handle_failure_def Let_def split: if_splits)
  then show ?thesis using job_tables_eqD(1) by blast
qed

lemma store_result_jobs:
  assumes "store_result sv s env j ev r db = (db', Inr out)"
  shows "(\<exists>err. jobs db' = jobs (retry_job (env_settled env) j err (retry_delay (j_attempts j)) db)) \<or>
    (\<exists>res. jobs db' = update_where (\<lambda>x. j_id x = j_id j) (mark_succeeded (env_settled env) res) (jobs db))"
proof -
  obtain db1 r1 where c: "complete_job s (env_settled env) (env_hexes env) j (pr_decision r)
      (finding_key (sv_sha256 sv) j ev) ev (model_of r) db = (db1, r1)" by fastforce
  show ?thesis
  proof (cases r1)
    case (Inl e)
    then have "db1 = db" using c by (auto simp: complete_job_def Let_def split: if_splits)
    with assms c Inl have "handle_failure s env j e db = (db', Inr out)" by (simp add: store_result_def)
    from handle_failure_jobs [OF this] show ?thesis ..
  next
    case (Inr did)
    obtain db2 r2 where n: "enqueue_notifications s (env_announced env) (env_notify env) j
        (public_decision (pr_decision r) (finding_key (sv_sha256 sv) j ev) did) ev (model_of r) db1 = (db2, r2)" by fastforce
    then have t2: "job_tables db2 = job_tables db1"
      using enqueue_notifications_tables(1) by (metis fst_conv)
    have "r2 = Inr ()"
    proof (cases r2)
      case (Inl e)
      then have "\<not> handled e"
        using n by (auto simp: enqueue_notifications_def Let_def split: if_split_asm json.split_asm)
      with assms c Inr n Inl show ?thesis by (simp add: store_result_def handle_failure_def)
    qed simp
    with assms c Inr n have "job_tables db' = job_tables db2" by (auto simp: store_result_def)
    with t2 complete_job_Inr(1) [OF c [unfolded Inr]] show ?thesis by (auto dest!: job_tables_eqD(1))
  qed
qed

lemma update_twice:
  "(\<And>x. k (f x) = k x) \<Longrightarrow>
    update_where (\<lambda>x. k x = i) g (update_where (\<lambda>x. k x = i) f rows) = update_where (\<lambda>x. k x = i) (g \<circ> f) rows"
  by (simp add: update_where_def)

lemma mark_claimed_fields [simp]:
  "j_attempts (mark_claimed now j) = j_attempts j + 1" "j_max_attempts (mark_claimed now j) = j_max_attempts j"
  by (simp_all add: mark_claimed_def)

text \<open>A round either finds nothing due, or takes one job a step further.\<close>

lemma process_progress:
  assumes "process_next_job sv s env db = (db', Inr out)" and d: "distinct (map j_id (jobs db))"
  obtains (idle) "jobs db' = jobs db" "\<forall>j \<in> set (jobs db). \<not> due (env_now env) j"
  | (worked) c f where "c \<in> set (jobs db)" "jobs db' = update_where (\<lambda>x. j_id x = j_id c) f (jobs db)"
      "\<And>x. j_id (f x) = j_id x" "attempts_left (f c) < attempts_left c" "j_status (f c) \<noteq> Running"
      "\<not> terminal (f c) \<longrightarrow> j_available_at (f c) \<le> env_settled env + seconds 512"
proof -
  obtain db1 r where c: "claim_job (env_now env) db db = (db1, r)" by fastforce
  from c d show ?thesis
  proof (cases rule: claim_update)
    case none
    with c assms(1) show ?thesis by (intro idle) (simp_all add: process_next_job_def)
  next
    case (row k)
    let ?j = "mark_claimed (env_now env) k"
    have left: "attempts_left k = max 1 (j_max_attempts k - j_attempts k)"
      using row(2) by (auto simp: attempts_left_def due_def claimable_def terminal_def)
    have out: "(case assess sv s ?j of Inl e \<Rightarrow> handle_failure s env ?j e db1
        | Inr (ev, r) \<Rightarrow> store_result sv s env ?j ev r db1) = (db', Inr out)"
      using assms(1) c row(3) by (simp add: process_next_job_def)
    have "(\<exists>err. jobs db' = jobs (retry_job (env_settled env) ?j err (retry_delay (j_attempts ?j)) db1)) \<or>
        (\<exists>res. jobs db' = update_where (\<lambda>x. j_id x = j_id ?j) (mark_succeeded (env_settled env) res) (jobs db1))"
    proof (cases "assess sv s ?j")
      case (Inl e)
      with out have "handle_failure s env ?j e db1 = (db', Inr out)" by simp
      from handle_failure_jobs [OF this] show ?thesis by (rule disjI1)
    next
      case (Inr a)
      with out have "store_result sv s env ?j (fst a) (snd a) db1 = (db', Inr out)" by (simp add: case_prod_unfold)
      then show ?thesis by (rule store_result_jobs)
    qed
    then show ?thesis
    proof (elim disjE exE)
      fix err assume e: "jobs db' = jobs (retry_job (env_settled env) ?j err (retry_delay (j_attempts ?j)) db1)"
      let ?f = "mark_failed (env_settled env) (j_max_attempts ?j \<le> j_attempts ?j) err (retry_delay (j_attempts ?j))"
      have "jobs db' = update_where (\<lambda>x. j_id x = j_id k) (?f \<circ> mark_claimed (env_now env)) (jobs db)"
        unfolding e by (simp add: retry_job_def Let_def row(4) update_twice)
      moreover have "retry_delay (j_attempts k + 1) \<le> 512" using retry_delay_bounds by simp
      then have "j_available_at (?f ?j) \<le> env_settled env + seconds 512" by (simp add: mark_failed_def seconds_def)
      moreover have "attempts_left (?f ?j) < attempts_left k"
        unfolding left by (auto simp: attempts_left_def mark_failed_def terminal_def)
      ultimately show ?thesis
        using row(1) by (intro worked [of k "?f \<circ> mark_claimed (env_now env)"]) (simp_all add: mark_failed_def)
    next
      fix res assume e: "jobs db' = update_where (\<lambda>x. j_id x = j_id ?j) (mark_succeeded (env_settled env) res) (jobs db1)"
      let ?f = "mark_succeeded (env_settled env) res \<circ> mark_claimed (env_now env)"
      have rows: "jobs db' = update_where (\<lambda>x. j_id x = j_id k) ?f (jobs db)"
        unfolding e by (simp add: row(4) update_twice)
      have ended: "terminal (?f k)" by (simp add: mark_succeeded_def terminal_def)
      then have "attempts_left (?f k) = 0" by simp
      moreover have "0 < attempts_left k" unfolding left by simp
      ultimately have less: "attempts_left (?f k) < attempts_left k" by metis
      show ?thesis
        by (intro worked [of k ?f] row(1) rows less) (use ended in \<open>simp_all add: mark_succeeded_def\<close>)
    qed
  qed
qed

section \<open>One iteration\<close>

text \<open>No job is left running, and every job that has not ended is due 512 seconds after \<open>t\<close> at the latest.\<close>

definition due_by :: "instant \<Rightarrow> database \<Rightarrow> bool" where
  "due_by t db = (distinct (map j_id (jobs db)) \<and>
     (\<forall>j \<in> set (jobs db). j_status j \<noteq> Running \<and> (\<not> terminal j \<longrightarrow> j_available_at j \<le> t + seconds 512)))"

lemma due_by_mono: "due_by t db \<Longrightarrow> t \<le> t' \<Longrightarrow> due_by t' db"
  by (fastforce simp: due_by_def)

lemma due_by_delete:
  "due_by t db \<Longrightarrow> jobs db' = delete_where p (jobs db) \<Longrightarrow> due_by t db' \<and> pending_work db' \<le> pending_work db"
  by (auto simp: due_by_def pending_work_def distinct_map_delete_where sum_delete_where)

lemma flush_and_purge_jobs: "\<exists>p. jobs (fst (flush_and_purge before s i w db)) = delete_where p (jobs db)"
proof -
  define db1 where "db1 = fst (flush_outbox (it_send_card i) (it_post i) (sv_fs (it_services i)) s
    (it_listed i) (it_settled i) db)"
  have j: "jobs db1 = jobs db" unfolding db1_def by (rule job_tables_eqD(1)) simp
  show ?thesis
  proof (cases "next_purge w \<le> it_monotonic i")
    case True
    then show ?thesis using j by (auto simp: flush_and_purge_def Let_def db1_def [symmetric])
  next
    case False
    then have "jobs (fst (flush_and_purge before s i w db)) = delete_where (\<lambda>_. False) (jobs db)"
      using j by (simp add: flush_and_purge_def Let_def db1_def delete_where_def)
    then show ?thesis by blast
  qed
qed

lemma iteration_progress:
  assumes it: "worker_iteration before s i w db = (db', Inr w')"
    and ready: "pi_ready w" "it_probe i = Inr d"
    and db: "due_by t db" "t \<le> env_now (it_env i)" "env_now (it_env i) \<le> env_settled (it_env i)"
  shows "pi_ready w' \<and>
    (due_by t db' \<and> pending_work db' \<le> pending_work db \<and>
       (t + seconds 512 \<le> env_now (it_env i) \<longrightarrow> pending_work db' = 0) \<or>
     due_by (env_settled (it_env i)) db' \<and> pending_work db' < pending_work db)"
  using it
proof (cases rule: worker_iteration_cases)
  case (completed db1 w1 db2 w2)
  let ?now = "env_now (it_env i)" and ?then = "env_settled (it_env i)"
  have w1: "pi_ready w1" using completed(1) ready by (auto simp: probe_or_beat_def Let_def split: if_splits)
  then have "pi_ready w'"
    using completed(3,4) by (auto simp: flush_and_purge_def Let_def split: if_splits)
  have "job_tables db1 = job_tables db" using probe_or_beat_tables [of s i w db] completed(1) by simp
  then have j1: "jobs db1 = jobs db" by (rule job_tables_eqD(1))
  obtain p where p: "jobs db' = delete_where p (jobs db2)"
    using flush_and_purge_jobs [of before s i w1 db2] completed(3) by auto
  from completed(2) w1 obtain out where q: "process_next_job (it_services i) s (it_env i) db1 = (db2, Inr out)" by auto
  have "distinct (map j_id (jobs db1))" using db(1) j1 by (simp add: due_by_def)
  from q this show ?thesis
  proof (cases rule: process_progress)
    case idle
    with j1 db(1) have d2: "due_by t db2" "pending_work db2 = pending_work db"
      by (simp_all add: due_by_def pending_work_def)
    have "pending_work db2 = 0" if "t + seconds 512 \<le> ?now"
      unfolding pending_work_zero_iff
    proof
      fix j assume j: "j \<in> set (jobs db2)"
      then have "\<not> due ?now j" using idle by simp
      moreover have "\<not> terminal j \<longrightarrow> j_available_at j \<le> ?now \<and> claimable j"
        using d2(1) j that by (cases "j_status j") (auto simp: due_by_def terminal_def claimable_def)
      ultimately show "terminal j" by (auto simp: due_def)
    qed
    with due_by_delete [OF d2(1) p] d2(2) \<open>pi_ready w'\<close> show ?thesis by auto
  next
    case (worked c f)
    from worked(1) j1 have c: "c \<in> set (jobs db)" by simp
    have "pending_work db2 + attempts_left c = pending_work db + attempts_left (f c)"
      unfolding pending_work_def worked(2) j1
      by (rule sum_update_key) (use db(1) c in \<open>simp_all add: due_by_def\<close>)
    moreover have "due_by ?then db2"
      unfolding due_by_def
    proof (intro conjI ballI)
      show "distinct (map j_id (jobs db2))"
        unfolding worked(2) j1 using db(1) worked(3) by (simp add: due_by_def update_where_cong_frame)
      fix j assume "j \<in> set (jobs db2)"
      then consider "j \<in> set (jobs db)" | "j = f c"
        using unique_row [of "jobs db" _ c] db(1) c by (auto simp: worked(2) j1 set_update_where due_by_def)
      then show "j_status j \<noteq> Running" "\<not> terminal j \<longrightarrow> j_available_at j \<le> ?then + seconds 512"
        using due_by_mono [OF db(1) order_trans [OF db(2,3)]] worked(5,6) by (cases; auto simp: due_by_def)+
    qed
    ultimately show ?thesis using due_by_delete [OF _ p, of ?then] worked(4) \<open>pi_ready w'\<close> by auto
  qed
qed simp

section \<open>Every job ends\<close>

text \<open>
  The rounds in a list of pairs of clock readings, at the claim and at the outcome: each claims at
  least 512 seconds after the one before recorded its outcome, and \<open>t\<close> is when the last one did.
\<close>

fun rounds :: "instant \<Rightarrow> (instant \<times> instant) list \<Rightarrow> nat" where
  "rounds t [] = 0"
| "rounds t ((c, e) # ps) = (if t + seconds 512 \<le> c then Suc (rounds e ps) else rounds t ps)"

abbreviation clocks :: "iteration list \<Rightarrow> (instant \<times> instant) list" where
  "clocks its \<equiv> map (\<lambda>i. (env_now (it_env i), env_settled (it_env i))) its"

text \<open>The clock does not run backwards from the reading \<open>t\<close> on.\<close>

fun forwards :: "instant \<Rightarrow> (instant \<times> instant) list \<Rightarrow> bool" where
  "forwards t [] = True"
| "forwards t ((c, e) # ps) = (t \<le> c \<and> c \<le> e \<and> forwards e ps)"

lemma forwards_earlier: "forwards t ps \<Longrightarrow> u \<le> t \<Longrightarrow> forwards u ps"
  by (cases ps) auto

text \<open>
  From the last round, which ended at \<open>t\<close>: either nothing was done since, and every job is due 512
  seconds after \<open>t\<close>; or an attempt was used up, which leaves one round to spare.
\<close>

lemma loop_progress:
  assumes "worker_loop before s its w db = (db', Inr w')" and "pi_ready w" and "\<forall>i \<in> set its. \<exists>d. it_probe i = Inr d"
    and "due_by u db" and "forwards u (clocks its)" and "t \<le> u"
    and "u = t \<and> pending_work db \<le> rounds t (clocks its) \<or> pending_work db < rounds t (clocks its) \<or> pending_work db = 0"
  shows "pending_work db' = 0"
  using assms
proof (induction its arbitrary: w db t u)
  case (Cons i its)
  let ?c = "env_now (it_env i)" and ?e = "env_settled (it_env i)"
  from Cons.prems(1) obtain db1 w1 where it: "worker_iteration before s i w db = (db1, Inr w1)"
    and rest: "worker_loop before s its w1 db1 = (db', Inr w')"
    by (auto split: prod.splits sum.splits)
  from Cons.prems(3) obtain d where d: "it_probe i = Inr d" by auto
  from Cons.prems(5) have n: "u \<le> ?c" "?c \<le> ?e" "forwards ?e (clocks its)" by auto
  then have later: "u \<le> ?e" "forwards u (clocks its)" by (auto intro: forwards_earlier)
  note step = iteration_progress [OF it Cons.prems(2) d Cons.prems(4) n(1,2)]
  note IH = Cons.IH [OF rest conjunct1 [OF step]]
  have probes: "\<forall>i \<in> set its. \<exists>d. it_probe i = Inr d" using Cons.prems(3) by simp
  from step consider (same) "due_by u db1" "pending_work db1 \<le> pending_work db"
      "u + seconds 512 \<le> ?c \<longrightarrow> pending_work db1 = 0"
    | (less) "due_by ?e db1" "pending_work db1 < pending_work db" by blast
  then show ?case
  proof cases
    case same
    show ?thesis
    proof (cases "t + seconds 512 \<le> ?c")
      case True
      have "pending_work db1 \<le> rounds ?e (clocks its) \<or> pending_work db1 = 0"
        using Cons.prems(7) same True by auto
      then show ?thesis
        using IH [OF probes due_by_mono [OF same(1) later(1)] n(3), of ?e] by auto
    next
      case False
      then have "rounds t (clocks (i # its)) = rounds t (clocks its)" by simp
      then show ?thesis
        using IH [OF probes same(1) later(2) Cons.prems(6)] Cons.prems(7) same(2) by auto
    qed
  next
    case less
    show ?thesis
    proof (cases "t + seconds 512 \<le> ?c")
      case True
      with Cons.prems(7) less(2) have "pending_work db1 \<le> rounds ?e (clocks its)" by auto
      then show ?thesis using IH [OF probes less(1) n(3), of ?e] by auto
    next
      case False
      then have "rounds t (clocks (i # its)) = rounds t (clocks its)" by simp
      with Cons.prems(7) less(2) have "pending_work db1 < rounds t (clocks its)" by auto
      then show ?thesis using IH [OF probes less(1) n(3), of t] later(1) Cons.prems(6) by auto
    qed
  qed
qed auto

lemma recovered_due_by:
  assumes "distinct (map j_id (jobs db))"
    and "\<And>j. j \<in> set (jobs db) \<Longrightarrow> j_status j = Running \<Longrightarrow> abandoned (now - seconds n) j"
    and "\<And>j. j \<in> set (jobs db) \<Longrightarrow> claimable j \<Longrightarrow> j_available_at j \<le> now + seconds 512"
  shows "due_by now (fst (recover_abandoned_jobs now n db)) \<and>
    pending_work (fst (recover_abandoned_jobs now n db)) = pending_work db"
proof -
  have left: "attempts_left (mark_recovered now j) = attempts_left j" if "abandoned (now - seconds n) j" for j
    using that by (simp add: abandoned_def mark_recovered_def attempts_left_def terminal_def)
  have "map attempts_left (update_where (abandoned (now - seconds n)) (mark_recovered now) (jobs db)) =
      map attempts_left (jobs db)"
    by (simp add: update_where_def left)
  moreover have "j_status j \<noteq> Running \<and> (\<not> terminal j \<longrightarrow> j_available_at j \<le> now + seconds 512)"
    if "j \<in> set (update_where (abandoned (now - seconds n)) (mark_recovered now) (jobs db))" for j
  proof -
    from that obtain r where r: "r \<in> set (jobs db)"
      "j = (if abandoned (now - seconds n) r then mark_recovered now r else r)"
      by (auto simp: set_update_where)
    show ?thesis
    proof (cases "abandoned (now - seconds n) r")
      case False
      with r assms(2,3) show ?thesis by (cases "j_status r") (auto simp: terminal_def claimable_def)
    qed (simp add: r(2) mark_recovered_def seconds_def)
  qed
  ultimately show ?thesis
    using assms(1) by (auto simp: due_by_def pending_work_def recover_abandoned_jobs_def Let_def recover_upd.keys)
qed

text \<open>
  C5: Every job ends. Let a worker start, and run while no request arrives, on a store in which any
  job still running was claimed more than 900 seconds ago (its worker died), and every waiting job
  is due within the longest retry delay. Let the model runtime answer the probes, no error end the
  process, and the clock not run backwards; reviews may take as long as they like. A round is an
  iteration that looks for a job at least 512 seconds after the previous round recorded its outcome.
  Then after as many rounds as attempts are left in all, however the reviews themselves turn out,
  every job in the store has succeeded or failed for good.
\<close>

theorem worker_drains_queue:
  assumes "store_ok db"
    and "\<And>j. j \<in> set (jobs db) \<Longrightarrow> j_status j = Running \<Longrightarrow> abandoned (now - seconds 900) j"
    and "\<And>j. j \<in> set (jobs db) \<Longrightarrow> claimable j \<Longrightarrow> j_available_at j \<le> now + seconds 512"
    and "run_worker before fs writable s beat now (Inr d0) its db = (db', Inr w')"
    and "\<And>i. i \<in> set its \<Longrightarrow> \<exists>d. it_probe i = Inr d"
    and "forwards now (clocks its)" and "pending_work db \<le> rounds now (clocks its)"
  shows "\<forall>j \<in> set (jobs db'). j_status j = Succeeded \<or> j_status j = Failed"
proof -
  define db1 where "db1 = heartbeat beat True [] (details_json d0) db"
  define db2 where "db2 = fst (recover_abandoned_jobs now 900 db1)"
  have j1: "jobs db1 = jobs db" unfolding db1_def by (rule job_tables_eqD(1)) simp
  have "due_by now db2 \<and> pending_work db2 = pending_work db1"
    unfolding db2_def by (rule recovered_due_by) (use assms(1-3) in \<open>simp_all add: j1 store_ok_def jobs_ok_def\<close>)
  moreover have "pending_work db1 = pending_work db" by (simp add: pending_work_def j1)
  moreover have "worker_loop before s its started_worker db2 = (db', Inr w')"
    using assms(4) by (simp add: run_worker_def db1_def db2_def split: sum.splits)
  ultimately have "pending_work db' = 0"
    using loop_progress [of before s its started_worker db2 db' w' now now] assms(5-7)
    by (simp add: started_worker_def)
  then show ?thesis by (simp add: pending_work_zero_iff terminal_def)
qed

section \<open>Witness\<close>

text \<open>A job on its last attempt, for which no evidence can be had, and a worker without Splunk.\<close>

definition last_try_job :: job where
  "last_try_job = sample_job\<lparr>j_max_attempts := 1\<rparr>"

definition last_try_db :: database where
  "last_try_db = empty_database\<lparr>jobs := [last_try_job]\<rparr>"

definition lean_settings :: settings where
  "lean_settings = sample_settings\<lparr>splunk_base_url := []\<rparr>"

definition sample_pi :: pi_details where
  "sample_pi = \<lparr>pd_version = ''0.83.0'', pd_provider = ''p'', pd_model = ''m''\<rparr>"

lemma lean_settings_ok: "validate_runtime sample_files True lean_settings Role_worker = Inr ()"
proof -
  have "token_records lean_settings = token_records sample_settings"
    "\<And>rs. core_errors rs lean_settings = core_errors rs sample_settings"
    by (simp_all add: lean_settings_def token_records_def core_errors_def)
  moreover have "path_errors fs lean_settings = path_errors fs sample_settings"
    "hec_errors fs lean_settings = hec_errors fs sample_settings"
    "adx_errors fs lean_settings = adx_errors fs sample_settings"
    "confluence_errors fs lean_settings = confluence_errors fs sample_settings"
    "teams_errors fs lean_settings = teams_errors fs sample_settings"
    "host_errors True lean_settings Role_worker = host_errors True sample_settings Role_worker" for fs
    by (simp_all add: lean_settings_def path_errors_def secret_paths_def hec_errors_def adx_errors_def
        confluence_errors_def teams_errors_def allowed_teams_tenants_def host_errors_def Let_def)
  moreover have "splunk_errors sample_files lean_settings = Inr []"
    by (simp add: splunk_errors_def lean_settings_def)
  ultimately show ?thesis
    using sample_settings_ok unfolding validate_runtime_ok_iff by (simp only:)
qed

lemma last_try_job_fields [simp]:
  "j_status last_try_job = Pending" "j_attempts last_try_job = 0" "j_max_attempts last_try_job = 1"
  "j_available_at last_try_job = 0" "j_summary_json last_try_job = dumps (JObj [])" "job_ok last_try_job"
  by (simp_all add: last_try_job_def sample_job_def new_job_def job_ok_def)

lemma lean_process:
  assumes "\<forall>j \<in> set (jobs db). j_summary_json j = dumps (JObj [])" and "distinct (map j_id (jobs db))"
  shows "\<exists>db' out. process_next_job sv lean_settings env db = (db', Inr out)"
proof -
  obtain db1 r where c: "claim_job (env_now env) db db = (db1, r)" by fastforce
  have no: "assess sv lean_settings j = Inl (RuntimeError, ''Splunk is not configured and no evidence was supplied'')"
    if "j_summary_json j = dumps (JObj [])" for j
    by (simp add: assess_def fetch_evidence_def splunk_configured_def lean_settings_def that supplied_loads
        get_or_none_def bind_result_def Let_def)
  from c assms(2) show ?thesis
  proof (cases rule: claim_update)
    case none
    with c show ?thesis by (simp add: process_next_job_def)
  next
    case (row k)
    then have "assess sv lean_settings (mark_claimed (env_now env) k) =
        Inl (RuntimeError, ''Splunk is not configured and no evidence was supplied'')"
      using assms(1) by (intro no) (simp add: mark_claimed_def)
    with c row show ?thesis by (simp add: process_next_job_def handle_failure_def Let_def)
  qed
qed

text \<open>The review of the job takes two hours.\<close>

definition late_iteration :: iteration where
  "late_iteration = \<lparr>it_monotonic = 0, it_beat = seconds 500,
     it_env = sample_env\<lparr>env_now := seconds 512, env_settled := seconds 7712\<rparr>, it_probe = Inr sample_pi,
     it_services = failing_services, it_send_card = None, it_post = (\<lambda>_ _. Inr ()),
     it_listed = seconds 7713, it_settled = (\<lambda>_. seconds 7713), it_purged = seconds 7714\<rparr>"

lemma worker_drains_queue_witness:
  "\<exists>db' w'. run_worker (<) sample_files True lean_settings 0 0 (Inr sample_pi) [late_iteration] last_try_db = (db', Inr w') \<and>
    (\<forall>j \<in> set (jobs db'). j_status j = Succeeded \<or> j_status j = Failed)"
proof -
  let ?i = late_iteration
  define db1 where "db1 = heartbeat 0 True [] (details_json sample_pi) last_try_db"
  define db2 where "db2 = fst (recover_abandoned_jobs 0 900 db1)"
  define db3 where "db3 = fst (probe_or_beat lean_settings ?i started_worker db2)"
  have "jobs db1 = jobs last_try_db" unfolding db1_def by (rule job_tables_eqD(1)) simp
  then have "jobs db2 = [last_try_job]"
    by (simp add: db2_def last_try_db_def recover_abandoned_jobs_def Let_def abandoned_def update_where_def)
  moreover have "jobs db3 = jobs db2" unfolding db3_def by (rule job_tables_eqD(1)) simp
  ultimately obtain db4 out where
    "process_next_job (it_services ?i) lean_settings (it_env ?i) db3 = (db4, Inr out)"
    using lean_process [of db3] by fastforce
  moreover have "pi_ready (snd (probe_or_beat lean_settings ?i started_worker db2))"
    by (simp add: probe_or_beat_def started_worker_def late_iteration_def)
  ultimately have "\<exists>db' w'. run_worker (<) sample_files True lean_settings 0 0 (Inr sample_pi) [?i] last_try_db = (db', Inr w')"
    by (simp add: run_worker_def lean_settings_ok worker_iteration_def case_prod_unfold
        flip: db1_def db2_def db3_def)
  then obtain db' w' where
    run: "run_worker (<) sample_files True lean_settings 0 0 (Inr sample_pi) [?i] last_try_db = (db', Inr w')" by blast
  have "store_ok last_try_db"
    by (simp add: last_try_db_def store_ok_def jobs_ok_def references_ok_def verdicts_ok_def findings_ok_def
        empty_database_def decisions_of_def)
  moreover have "pending_work last_try_db = 1"
    by (simp add: pending_work_def last_try_db_def attempts_left_def terminal_def)
  ultimately have "\<forall>j \<in> set (jobs db'). j_status j = Succeeded \<or> j_status j = Failed"
    using worker_drains_queue [OF _ _ _ run]
    by (simp add: last_try_db_def late_iteration_def seconds_def)
  with run show ?thesis by blast
qed

end
