(* ===== verification/Transactions.thy ===== *)
theory Transactions
  imports JobStore
begin

text \<open>
  Transactions (\<^verbatim>\<open>Database.session\<close> in \<^verbatim>\<open>src/sprinter/db.py\<close>). A body is a sequence of
  statements on the database, each of which may raise; the session commits what the body has done
  if it returns, and rolls back to what was there before if it raises.

  A connection is set up by the pragmas of \<^verbatim>\<open>_create_engine\<close>, among them the one that
  makes SQLite enforce foreign keys.

  \<open>JobStore\<close> models \<^verbatim>\<open>complete_job\<close> as one step. Here its body is written as the statements
  the session sends, each checking the primary and the foreign key it must satisfy, and the
  session over them is shown to be that step: completing a job is all or nothing.
\<close>

section \<open>Statements and sessions\<close>

type_synonym 'a statement = "database \<Rightarrow> database \<times> (exc + 'a)"

definition in_session :: "'a statement \<Rightarrow> 'a statement" where
  "in_session body db = (case body db of (db', Inr x) \<Rightarrow> (db', Inr x) | (_, Inl e) \<Rightarrow> (db, Inl e))"

definition and_then :: "'a statement \<Rightarrow> ('a \<Rightarrow> 'b statement) \<Rightarrow> 'b statement" where
  "and_then m f db = (case m db of (db', Inr x) \<Rightarrow> f x db' | (db', Inl e) \<Rightarrow> (db', Inl e))"

definition returns :: "'a \<Rightarrow> 'a statement" where
  "returns x db = (db, Inr x)"

lemma and_then_simps [simp]:
  "m db = (db', Inr x) \<Longrightarrow> and_then m f db = f x db'"
  "m db = (db', Inl e) \<Longrightarrow> and_then m f db = (db', Inl e)"
  by (simp_all add: and_then_def)

lemma in_session_simps [simp]:
  "body db = (db', Inr x) \<Longrightarrow> in_session body db = (db', Inr x)"
  "body db = (db', Inl e) \<Longrightarrow> in_session body db = (db, Inl e)"
  by (simp_all add: in_session_def)

lemma and_then_assoc: "and_then (and_then m f) g = and_then m (\<lambda>x. and_then (f x) g)"
  by (rule ext) (simp add: and_then_def case_prod_unfold split: sum.split)

section \<open>The connection\<close>

text \<open>
  What the pragmas set, with SQLite's defaults and the time limit of \<^verbatim>\<open>connect_args\<close>.
  Foreign keys are enforced only on a connection that asks for it.
\<close>

record connection =
  cn_journal_mode :: string
  cn_foreign_keys :: bool
  cn_synchronous :: string
  cn_busy_timeout :: nat

definition new_connection :: connection where
  "new_connection = \<lparr>cn_journal_mode = ''DELETE'', cn_foreign_keys = False, cn_synchronous = ''FULL'', cn_busy_timeout = 30000\<rparr>"

definition pragma :: "string \<Rightarrow> string \<Rightarrow> connection \<Rightarrow> connection" where
  "pragma name value cn =
     (if name = ''journal_mode'' then cn\<lparr>cn_journal_mode := value\<rparr>
      else if name = ''foreign_keys'' then cn\<lparr>cn_foreign_keys := (value = ''ON'')\<rparr>
      else if name = ''synchronous'' then cn\<lparr>cn_synchronous := value\<rparr>
      else if name = ''busy_timeout'' then cn\<lparr>cn_busy_timeout := nat_of_digits value\<rparr>
      else cn)"

definition configure_sqlite :: "connection \<Rightarrow> connection" where
  "configure_sqlite cn =
     fold (\<lambda>(name, value). pragma name value)
       [(''journal_mode'', ''WAL''), (''foreign_keys'', ''ON''), (''synchronous'', ''FULL''), (''busy_timeout'', ''30000'')] cn"

lemma configured_foreign_keys [simp]: "cn_foreign_keys (configure_sqlite cn)"
  by (simp add: configure_sqlite_def pragma_def)

lemma new_connection_foreign_keys [simp]: "\<not> cn_foreign_keys new_connection"
  by (simp add: new_connection_def)

section \<open>The statements of a completion\<close>

text \<open>
  An insert is refused when its primary key is taken, or when the row it refers to is missing and
  the connection enforces foreign keys.
\<close>

definition integrity_error :: "string \<Rightarrow> exc" where
  "integrity_error m = (Foreign ''IntegrityError'', m)"

abbreviation missing_reference :: exc where
  "missing_reference \<equiv> integrity_error ''FOREIGN KEY constraint failed''"

abbreviation taken :: "string \<Rightarrow> exc" where
  "taken column \<equiv> integrity_error (''UNIQUE constraint failed: '' @ column)"

definition insert_evidence :: "connection \<Rightarrow> evidence \<Rightarrow> unit statement" where
  "insert_evidence cn e db =
     (if e_id e \<in> e_id ` set (evidences db) then (db, Inl (taken ''evidence.id''))
      else if cn_foreign_keys cn \<and> get_by j_id (e_job_id e) (jobs db) = None then (db, Inl missing_reference)
      else (db\<lparr>evidences := evidences db @ [e]\<rparr>, Inr ()))"

fun insert_all :: "connection \<Rightarrow> evidence list \<Rightarrow> unit statement" where
  "insert_all cn [] = returns ()"
| "insert_all cn (e # es) = and_then (insert_evidence cn e) (\<lambda>_. insert_all cn es)"

definition insert_decision :: "connection \<Rightarrow> decision \<Rightarrow> unit statement" where
  "insert_decision cn d db =
     (if d_id d \<in> d_id ` set (decisions db) then (db, Inl (taken ''decisions.id''))
      else if cn_foreign_keys cn \<and> get_by j_id (d_job_id d) (jobs db) = None then (db, Inl missing_reference)
      else (db\<lparr>decisions := decisions db @ [d]\<rparr>, Inr ()))"

definition upsert_finding :: "connection \<Rightarrow> instant \<Rightarrow> string \<Rightarrow> string \<Rightarrow> string \<Rightarrow> unit statement" where
  "upsert_finding cn now hex key did db =
     (if get_by f_dedupe_key key (findings db) = None \<and> new_id ''finding'' hex \<in> f_id ` set (findings db)
      then (db, Inl (taken ''findings.id''))
      else if cn_foreign_keys cn \<and> get_by d_id did (decisions db) = None then (db, Inl missing_reference)
      else (db\<lparr>findings := note_finding now hex key did (findings db)\<rparr>, Inr ()))"

definition update_job :: "string \<Rightarrow> (job \<Rightarrow> job) \<Rightarrow> unit statement" where
  "update_job i f db = (db\<lparr>jobs := update_where (\<lambda>r. j_id r = i) f (jobs db)\<rparr>, Inr ())"

definition complete_body ::
  "connection \<Rightarrow> settings \<Rightarrow> instant \<Rightarrow> complete_hexes \<Rightarrow> job \<Rightarrow> model_decision \<Rightarrow> string \<Rightarrow> evidence_item list \<Rightarrow> model_info \<Rightarrow>
   string statement"
where
  "complete_body cn s now hx job md key evidence m =
     (let did = new_id ''decision'' (hx_decision hx) in
      and_then (insert_all cn (map (\<lambda>(i, item). evidence_row s now (j_id job) item (hx_evidence hx i)) (enumerate 0 evidence)))
        (\<lambda>_. and_then (insert_decision cn (decision_row now did (j_id job) md m))
        (\<lambda>_. and_then (upsert_finding cn now (hx_finding hx) key did)
        (\<lambda>_. and_then (update_job (j_id job) (mark_succeeded now (JObj (public_decision md key did))))
        (\<lambda>_. returns did)))))"

section \<open>All or nothing\<close>

text \<open>The generated identifiers are new: no two are equal and none is in its table.\<close>

definition fresh_ids :: "complete_hexes \<Rightarrow> string \<Rightarrow> nat \<Rightarrow> database \<Rightarrow> bool" where
  "fresh_ids hx key n db =
     (let ids = map (\<lambda>i. new_id ''evidence'' (hx_evidence hx i)) [0..<n] in
      distinct ids \<and> set ids \<inter> e_id ` set (evidences db) = {} \<and>
      new_id ''decision'' (hx_decision hx) \<notin> d_id ` set (decisions db) \<and>
      (key \<in> f_dedupe_key ` set (findings db) \<or> new_id ''finding'' (hx_finding hx) \<notin> f_id ` set (findings db)))"

definition refused :: "database \<times> (exc + 'a) \<Rightarrow> bool" where
  "refused x = (\<exists>m. snd x = Inl (integrity_error m))"

lemma refused_simps [simp]: "refused (db, Inl (integrity_error m))" "\<not> refused (db, Inr x)"
  by (auto simp: refused_def)

lemma and_then_refused: "refused (m db) \<Longrightarrow> refused (and_then m f db)"
  by (auto simp: refused_def and_then_def case_prod_unfold)

lemma in_session_refused: "refused (body db) \<Longrightarrow> \<exists>m. in_session body db = (db, Inl (integrity_error m))"
  by (auto simp: refused_def in_session_def case_prod_unfold)

lemma insert_all_result:
  "insert_all cn es db = (db\<lparr>evidences := evidences db @ es\<rparr>, Inr ()) \<and>
     distinct (map e_id es) \<and> e_id ` set es \<inter> e_id ` set (evidences db) = {} \<or>
   refused (insert_all cn es db)"
proof (induction es arbitrary: db)
  case (Cons e es)
  let ?db1 = "db\<lparr>evidences := evidences db @ [e]\<rparr>"
  have "insert_evidence cn e db = (?db1, Inr ()) \<and> e_id e \<notin> e_id ` set (evidences db) \<or> refused (insert_evidence cn e db)"
    by (auto simp: insert_evidence_def)
  then show ?case
  proof
    assume "insert_evidence cn e db = (?db1, Inr ()) \<and> e_id e \<notin> e_id ` set (evidences db)"
    with Cons.IH [of ?db1] show ?thesis by auto
  qed (simp add: and_then_refused)
qed (simp add: returns_def)

lemma insert_all_present:
  assumes "get_by j_id i (jobs db) \<noteq> None" and "\<forall>e \<in> set es. e_job_id e = i"
    and "distinct (map e_id es)" and "e_id ` set es \<inter> e_id ` set (evidences db) = {}"
  shows "insert_all cn es db = (db\<lparr>evidences := evidences db @ es\<rparr>, Inr ())"
  using assms
proof (induction es arbitrary: db)
  case (Cons e es)
  let ?db1 = "db\<lparr>evidences := evidences db @ [e]\<rparr>"
  have "insert_evidence cn e db = (?db1, Inr ())" using Cons.prems by (auto simp: insert_evidence_def)
  with Cons.IH [of ?db1] Cons.prems show ?case by auto
qed (simp add: returns_def)

lemma insert_all_absent:
  assumes "get_by j_id i (jobs db) = None" and "\<forall>e \<in> set es. e_job_id e = i"
    and "e_id ` set es \<inter> e_id ` set (evidences db) = {}" and "cn_foreign_keys cn"
  shows "insert_all cn es db = (db, if es = [] then Inr () else Inl missing_reference)"
  using assms by (cases es) (simp_all add: insert_evidence_def returns_def)

abbreviation evidence_rows ::
  "settings \<Rightarrow> instant \<Rightarrow> complete_hexes \<Rightarrow> job \<Rightarrow> evidence_item list \<Rightarrow> evidence list"
where
  "evidence_rows s now hx job evidence \<equiv>
     map (\<lambda>(i, item). evidence_row s now (j_id job) item (hx_evidence hx i)) (enumerate 0 evidence)"

lemma evidence_rows_ids:
  "map e_id (evidence_rows s now hx job evidence) = map (\<lambda>i. new_id ''evidence'' (hx_evidence hx i)) [0..<length evidence]"
  by (rule nth_equalityI) (simp_all add: evidence_row_def nth_enumerate_eq)

lemma evidence_rows_id_set:
  "e_id ` set (evidence_rows s now hx job evidence) = set (map (\<lambda>i. new_id ''evidence'' (hx_evidence hx i)) [0..<length evidence])"
  by (subst evidence_rows_ids [symmetric, of hx evidence s now job]) (simp only: list.set_map)

lemma decision_row_keys [simp]: "d_id (decision_row now i jid md m) = i" "d_job_id (decision_row now i jid md m) = jid"
  by (simp_all add: decision_row_def)

lemma fresh_completion:
  assumes "fresh_ids hx key (length evidence) db" and "cn_foreign_keys cn"
  shows "in_session (complete_body cn s now hx job md key evidence m) db = complete_job s now hx job md key evidence m db"
proof -
  let ?rows = "evidence_rows s now hx job evidence"
  have rows: "\<forall>e \<in> set ?rows. e_job_id e = j_id job" by (auto simp: evidence_row_def)
  have ids: "distinct (map e_id ?rows)" "e_id ` set ?rows \<inter> e_id ` set (evidences db) = {}"
    using assms unfolding evidence_rows_ids evidence_rows_id_set by (auto simp: fresh_ids_def Let_def)
  show ?thesis
  proof (cases "get_by j_id (j_id job) (jobs db) = None")
    case True
    have "complete_body cn s now hx job md key evidence m db = (db, Inl missing_reference)"
      using insert_all_absent [OF True rows ids(2) assms(2)] True assms
      by (cases "?rows = []") (simp_all add: complete_body_def Let_def insert_decision_def fresh_ids_def)
    with True show ?thesis by (simp add: complete_job_def Let_def integrity_error_def)
  next
    case False
    have "get_by d_id i (ds @ [decision_row now i jid md m]) \<noteq> None" for i jid ds
      by (auto simp: get_by_None_iff)
    with insert_all_present [OF False rows ids] False assms show ?thesis
      by (simp add: fresh_ids_def Let_def get_by_None_iff complete_body_def complete_job_def insert_decision_def
          upsert_finding_def update_job_def returns_def)
  qed
qed

lemma taken_completion:
  assumes "\<not> fresh_ids hx key (length evidence) db"
  shows "refused (complete_body cn s now hx job md key evidence m db)"
proof -
  let ?rows = "evidence_rows s now hx job evidence"
  let ?db1 = "db\<lparr>evidences := evidences db @ ?rows\<rparr>"
  let ?d = "decision_row now (new_id ''decision'' (hx_decision hx)) (j_id job) md m"
  from insert_all_result [of cn ?rows db] show ?thesis
  proof
    assume ok: "insert_all cn ?rows db = (?db1, Inr ()) \<and> distinct (map e_id ?rows) \<and>
      e_id ` set ?rows \<inter> e_id ` set (evidences db) = {}"
    show ?thesis
    proof (cases "refused (insert_decision cn ?d ?db1)")
      case True
      with ok show ?thesis by (simp add: complete_body_def Let_def and_then_refused)
    next
      case False
      then have d: "insert_decision cn ?d ?db1 = (?db1\<lparr>decisions := decisions db @ [?d]\<rparr>, Inr ())"
        and "d_id ?d \<notin> d_id ` set (decisions db)"
        by (auto simp: insert_decision_def split: if_splits)
      with assms ok have "get_by f_dedupe_key key (findings db) = None"
        "new_id ''finding'' (hx_finding hx) \<in> f_id ` set (findings db)"
        unfolding evidence_rows_ids evidence_rows_id_set by (auto simp: fresh_ids_def Let_def get_by_None_iff)
      with ok d show ?thesis
        by (simp add: complete_body_def Let_def upsert_finding_def)
    qed
  qed (simp add: complete_body_def Let_def and_then_refused)
qed

text \<open>
  C11: Completing a job is all or nothing. The statements that store its evidence, its decision,
  its finding and its result, run one after another on a connection that the program configured, in
  a session that rolls back when one of them is refused, do exactly what the single step
  \<open>complete_job\<close> does if the generated identifiers are new; in particular a job that is
  gone is refused. If an identifier is taken, whichever statement is refused and whatever the
  statements before it have written, the error is raised and the database is as before.
\<close>

theorem complete_job_transactional:
  "if fresh_ids hx key (length evidence) db
   then in_session (complete_body (configure_sqlite new_connection) s now hx job md key evidence m) db =
     complete_job s now hx job md key evidence m db
   else \<exists>e. in_session (complete_body (configure_sqlite new_connection) s now hx job md key evidence m) db = (db, Inl (Foreign ''IntegrityError'', e))"
proof (cases "fresh_ids hx key (length evidence) db")
  case True
  then show ?thesis by (simp add: fresh_completion)
next
  case False
  then show ?thesis
    using in_session_refused [of "complete_body (configure_sqlite new_connection) s now hx job md key evidence m" db] taken_completion
    by (simp add: integrity_error_def)
qed

text \<open>
  The pragma is what refuses a job that is gone: on a connection that is not configured, the same
  session commits a decision that belongs to no job.
\<close>

lemma orphan_without_pragma:
  assumes "fresh_ids hx key 0 db" and "get_by j_id (j_id job) (jobs db) = None"
  shows "\<exists>db'. in_session (complete_body new_connection s now hx job md key [] m) db =
      (db', Inr (new_id ''decision'' (hx_decision hx))) \<and>
    decisions db' = decisions db @ [decision_row now (new_id ''decision'' (hx_decision hx)) (j_id job) md m] \<and>
    jobs db' = jobs db"
proof -
  have "j_id r \<noteq> j_id job" if "r \<in> set (jobs db)" for r
    using assms(2) imageI [OF that, of j_id] by (auto simp: get_by_None_iff)
  then have "update_where (\<lambda>r. j_id r = j_id job) f (jobs db) = jobs db" for f
    by (auto simp: update_where_def intro!: map_idI)
  with assms(1) show ?thesis
    by (simp add: complete_body_def Let_def returns_def insert_decision_def upsert_finding_def update_job_def
        fresh_ids_def get_by_None_iff)
qed

end
