(* ===== verification/Logging.thy ===== *)
theory Logging
  imports Worker
begin

text \<open>
  The log of the worker (\<^verbatim>\<open>src/sprinter/logging.py\<close> and the calls of its logger in
  \<^verbatim>\<open>src/sprinter/worker.py\<close>). A record is the dictionary of a \<^verbatim>\<open>LogRecord\<close> of Python
  3.12: the standard attributes, then what the call gives as \<^verbatim>\<open>extra\<close>. The values of the
  standard attributes the formatter does not read are an argument, and so are the time and the
  text of a traceback. A handler ends every record by a newline; the level threshold is not
  modelled.

  The lemmas show that no record is refused, that a record is one line of printable ASCII
  characters whatever the texts in it, and that the line reads back as the event that was logged.
\<close>

section \<open>Records\<close>

definition record_attributes :: "string list" where
  "record_attributes = [''name'', ''msg'', ''args'', ''levelname'', ''levelno'', ''pathname'', ''filename'',
     ''module'', ''exc_info'', ''exc_text'', ''stack_info'', ''lineno'', ''funcName'', ''created'', ''msecs'',
     ''relativeCreated'', ''thread'', ''threadName'', ''processName'', ''process'', ''taskName'']"

text \<open>\<^verbatim>\<open>Logger.makeRecord\<close>: an extra that would overwrite an attribute raises.\<close>

definition make_record ::
  "(string \<Rightarrow> json) \<Rightarrow> string \<Rightarrow> string \<Rightarrow> string \<Rightarrow> json dict \<Rightarrow> exc + json dict"
where
  "make_record std level logger message extra =
     (case find (\<lambda>(k, _). k \<in> set ([''message'', ''asctime''] @ record_attributes)) extra of
        Some (k, _) \<Rightarrow> Inl (KeyError, repr_str (''Attempt to overwrite '' @ repr_str k @ '' in LogRecord''))
      | None \<Rightarrow>
          Inr (map (\<lambda>k. (k, if k = ''name'' then JStr logger else if k = ''levelname'' then JStr level
                 else if k = ''msg'' then JStr message else std k)) record_attributes @ extra))"

section \<open>The formatter\<close>

definition hidden_attributes :: "string list" where
  "hidden_attributes = [''args'', ''asctime'', ''created'', ''exc_info'', ''exc_text'', ''filename'', ''funcName'',
     ''levelname'', ''levelno'', ''lineno'', ''module'', ''msecs'', ''message'', ''msg'', ''name'', ''pathname'',
     ''process'', ''processName'', ''relativeCreated'', ''stack_info'', ''taskName'', ''thread'', ''threadName'']"

fun add_attributes :: "json dict \<Rightarrow> json dict \<Rightarrow> json dict" where
  "add_attributes [] payload = payload"
| "add_attributes ((k, v) # attributes) payload =
     add_attributes attributes (if k \<notin> set hidden_attributes then dict_set k v payload else payload)"

definition log_payload :: "string \<Rightarrow> string option \<Rightarrow> json dict \<Rightarrow> json dict" where
  "log_payload now traceback attributes =
     (let payload = add_attributes attributes
            [(''time'', JStr now), (''level'', get_or_none attributes ''levelname''),
             (''logger'', get_or_none attributes ''name''), (''message'', get_or_none attributes ''msg'')] in
      case traceback of None \<Rightarrow> payload | Some t \<Rightarrow> dict_set ''exception'' (JStr t) payload)"

definition format_record :: "string \<Rightarrow> string option \<Rightarrow> json dict \<Rightarrow> string" where
  "format_record now traceback attributes = dumps_spaced (JObj (log_payload now traceback attributes))"

section \<open>What the worker logs\<close>

datatype worker_event =
    Pi_startup_probe_failed string
  | Worker_started nat
  | Pi_probe_failed string
  | Job_processed outcome
  | Outbox_flushed nat nat
  | Retention_purged purge_counts
  | Worker_stopped

fun event_level :: "worker_event \<Rightarrow> string" where
  "event_level (Pi_startup_probe_failed _) = ''CRITICAL''"
| "event_level (Pi_probe_failed _) = ''ERROR''"
| "event_level _ = ''INFO''"

fun event_message :: "worker_event \<Rightarrow> string" where
  "event_message (Pi_startup_probe_failed _) = ''pi_startup_probe_failed''"
| "event_message (Worker_started _) = ''worker_started''"
| "event_message (Pi_probe_failed _) = ''pi_probe_failed''"
| "event_message (Job_processed _) = ''job_processed''"
| "event_message (Outbox_flushed _ _) = ''outbox_flushed''"
| "event_message (Retention_purged _) = ''retention_purged''"
| "event_message Worker_stopped = ''worker_stopped''"

text \<open>The dictionary \<^verbatim>\<open>process_next_job\<close> returns.\<close>

fun outcome_dict :: "outcome \<Rightarrow> json dict" where
  "outcome_dict Idle = [(''processed'', JBool False)]"
| "outcome_dict (Processed_succeeded i) =
     [(''processed'', JBool True), (''job_id'', JStr i), (''status'', JStr ''succeeded'')]"
| "outcome_dict (Processed_error i status e) =
     [(''processed'', JBool True), (''job_id'', JStr i), (''status'', JStr status), (''error'', error_json e)]"

fun event_extra :: "worker_event \<Rightarrow> json dict" where
  "event_extra (Pi_startup_probe_failed e) = [(''error'', JStr e)]"
| "event_extra (Worker_started n) = [(''recovered_jobs'', JInt (int n))]"
| "event_extra (Pi_probe_failed e) = [(''error'', JStr e)]"
| "event_extra (Job_processed r) = outcome_dict r"
| "event_extra (Outbox_flushed sent failed) = [(''sent'', JInt (int sent)), (''failed'', JInt (int failed))]"
| "event_extra (Retention_purged c) = (case counts_json c of JObj d \<Rightarrow> d | _ \<Rightarrow> [])"
| "event_extra Worker_stopped = []"

definition log_event :: "(string \<Rightarrow> json) \<Rightarrow> string \<Rightarrow> worker_event \<Rightarrow> exc + string" where
  "log_event std now e =
     bind_result (make_record std (event_level e) ''sprinter.worker'' (event_message e) (event_extra e))
       (\<lambda>r. Inr (format_record now None r))"

text \<open>The events of one pass of the loop; a pass that ends by an exception logs what came before it.\<close>

definition iteration_events ::
  "(instant \<Rightarrow> instant \<Rightarrow> bool) \<Rightarrow> settings \<Rightarrow> iteration \<Rightarrow> worker_state \<Rightarrow> database \<Rightarrow> worker_event list"
where
  "iteration_events before s i w db =
     (case probe_or_beat s i w db of (db1, w1) \<Rightarrow>
        (case it_probe i of
           Inl e \<Rightarrow> if next_probe w \<le> it_monotonic i then [Pi_probe_failed (snd e)] else []
         | Inr _ \<Rightarrow> []) @
        (case (if pi_ready w1 then process_next_job (it_services i) s (it_env i) db1 else (db1, Inr Idle)) of
           (db2, Inl e) \<Rightarrow> []
         | (db2, Inr r) \<Rightarrow>
             (if r = Idle then [] else [Job_processed r]) @
             (case flush_outbox (it_send_card i) (it_post i) (sv_fs (it_services i)) s
                     (it_listed i) (it_settled i) db2 of
                (db3, sent, failed) \<Rightarrow>
                  (if sent \<noteq> 0 \<or> failed \<noteq> 0 then [Outbox_flushed sent failed] else []) @
                  (if next_purge w1 \<le> it_monotonic i
                   then [Retention_purged (snd (purge before s (it_purged i) db3))] else []))))"

text \<open>What the handler writes: every line ended by a newline.\<close>

definition log_stream :: "string list \<Rightarrow> string" where
  "log_stream lines = concat (map (\<lambda>l. l @ [CHR 0x0A]) lines)"

section \<open>Written values are printable\<close>

definition printable :: "string \<Rightarrow> bool" where
  "printable s = (\<forall>c \<in> set s. 32 \<le> code_of c \<and> code_of c \<le> 126)"

lemma printable_simps [simp]:
  "printable []"
  "printable (c # s) \<longleftrightarrow> 32 \<le> code_of c \<and> code_of c \<le> 126 \<and> printable s"
  "printable (s @ t) \<longleftrightarrow> printable s \<and> printable t"
  by (auto simp: printable_def)

lemma printable_join:
  "printable d \<Longrightarrow> \<forall>s \<in> set ss. printable s \<Longrightarrow> printable (join d ss)"
  by (induction d ss rule: join.induct) auto

lemma hex_digit_printable [simp]: "n < 16 \<Longrightarrow> printable [hex_digit n]"
  by (auto simp: hex_digit_def code_of_def)

lemma esc_char_printable: "printable (esc_char c)"
proof -
  have "code_of c div 16 < 16" using code_of_less [of c] by linarith
  then show ?thesis
    using hex_digit_printable [of "code_of c div 16"] hex_digit_printable [of "code_of c mod 16"]
    by (auto simp: esc_char_def Let_def code_of_def)
qed

lemma quote_json_printable: "printable (quote_json s)"
  using esc_char_printable by (auto simp: quote_json_def printable_def code_of_def)

lemma digits_printable: "\<forall>c \<in> set s. is_digit c \<Longrightarrow> printable s"
  by (auto simp: printable_def is_digit_def)

lemma takeWhile_digits_printable [simp]: "printable (takeWhile is_digit s)"
  by (rule digits_printable) (auto dest: set_takeWhileD)

lemma str_of_int_printable: "printable (str_of_int i)"
  using digits_printable [OF digits_of_all] by (auto simp: str_of_int_def code_of_def)

lemma read_parts_printable:
  "read_sign s = (g, t) \<Longrightarrow> printable g"
  "read_natural s = Some (ip, t) \<Longrightarrow> printable ip"
  "read_fraction s = (fr, t) \<Longrightarrow> printable fr"
  "read_exponent s = (ex, t) \<Longrightarrow> printable ex"
  by (auto simp: read_sign_def read_natural_def read_fraction_def read_exponent_def code_of_def is_digit_def
      split: list.splits if_splits)

lemma float_printable: "read_number l = Some (JFloat l, []) \<Longrightarrow> printable l"
  by (auto simp: read_number_def split: option.splits prod.splits if_splits dest: read_parts_printable)

lemma render_printable:
  assumes "printable si" and "printable sk"
  shows "wf_json v \<Longrightarrow> printable (render si sk v)"
proof (induction v)
  case (JFloat l)
  then show ?case by (simp add: float_printable)
next
  case (JArr xs)
  then show ?case using assms by (auto simp: code_of_def intro!: printable_join)
next
  case (JObj kvs)
  then show ?case using assms by (fastforce simp: code_of_def quote_json_printable intro!: printable_join)
qed (simp_all add: str_of_int_printable quote_json_printable code_of_def)

lemma dumps_spaced_printable: "wf_json v \<Longrightarrow> printable (dumps_spaced v)"
  unfolding dumps_spaced_def by (rule render_printable) (simp_all add: wf_sort_keys code_of_def)

section \<open>What a line says\<close>

lemma hidden_attributes_exact: "set hidden_attributes = set ([''message'', ''asctime''] @ record_attributes)"
  by (auto simp: hidden_attributes_def record_attributes_def)

lemma add_hidden: "fst ` set ps \<subseteq> set hidden_attributes \<Longrightarrow> add_attributes (ps @ qs) d = add_attributes qs d"
  by (induction ps) auto

lemma add_fresh:
  "fst ` set ps \<inter> set hidden_attributes = {} \<Longrightarrow> distinct (map fst (d @ ps)) \<Longrightarrow> add_attributes ps d = d @ ps"
  by (induction ps d rule: add_attributes.induct) (auto simp: dict_set_fresh image_iff)

text \<open>What a record without a traceback says, if its extras do not hide one another.\<close>

definition base_fields :: "string \<Rightarrow> string \<Rightarrow> string \<Rightarrow> string \<Rightarrow> json dict" where
  "base_fields now level logger message =
     [(''time'', JStr now), (''level'', JStr level), (''logger'', JStr logger), (''message'', JStr message)]"

lemma standard_fields:
  "get_or_none (map (\<lambda>k. (k, if k = ''name'' then JStr logger else if k = ''levelname'' then JStr level
     else if k = ''msg'' then JStr message else std k)) record_attributes @ extra) k =
   (if k = ''name'' then JStr logger else if k = ''levelname'' then JStr level
    else if k = ''msg'' then JStr message else get_or_none (map (\<lambda>k. (k, std k)) record_attributes @ extra) k)"
  by (simp add: get_or_none_def record_attributes_def)

lemma log_payload_fresh:
  assumes "make_record std level logger message extra = Inr r"
    and "distinct (map fst (base_fields now level logger message @ extra))"
  shows "log_payload now None r = base_fields now level logger message @ extra"
proof -
  let ?std = "map (\<lambda>k. (k, if k = ''name'' then JStr logger else if k = ''levelname'' then JStr level
     else if k = ''msg'' then JStr message else std k)) record_attributes"
  from assms(1) have r: "r = ?std @ extra" and no: "fst ` set extra \<inter> set hidden_attributes = {}"
    unfolding hidden_attributes_exact
    by (auto simp: make_record_def find_None_iff split: option.splits)
  have "fst ` set ?std \<subseteq> set hidden_attributes" by (force simp: hidden_attributes_exact)
  then show ?thesis
    using add_fresh [OF no assms(2)]
    by (simp add: log_payload_def r standard_fields add_hidden base_fields_def)
qed

lemma event_extra_fields:
  "distinct (map fst (base_fields now level logger message @ event_extra e))"
  "find (\<lambda>(k, _). k \<in> set ([''message'', ''asctime''] @ record_attributes)) (event_extra e) = None"
  "\<forall>p \<in> set (event_extra e). wf_json (snd p)"
proof -
  have *: "distinct (map fst (base_fields now level logger message @ outcome_dict r))"
    "find (\<lambda>(k, _). k \<in> set ([''message'', ''asctime''] @ record_attributes)) (outcome_dict r) = None"
    "\<forall>p \<in> set (outcome_dict r). wf_json (snd p)" for r
    by (cases r; simp add: base_fields_def record_attributes_def error_json_def)+
  show "distinct (map fst (base_fields now level logger message @ event_extra e))"
    using * by (cases e) (simp_all add: base_fields_def counts_json_def)
  show "find (\<lambda>(k, _). k \<in> set ([''message'', ''asctime''] @ record_attributes)) (event_extra e) = None"
    using * by (cases e) (simp_all add: record_attributes_def counts_json_def)
  show "\<forall>p \<in> set (event_extra e). wf_json (snd p)"
    using * by (cases e) (simp_all add: counts_json_def)
qed

text \<open>The object the line of an event has to say: the four fields of every line and the event's own.\<close>

definition event_object :: "string \<Rightarrow> worker_event \<Rightarrow> json" where
  "event_object now e =
     JObj (base_fields now (event_level e) ''sprinter.worker'' (event_message e) @ event_extra e)"

lemma event_object_wf: "wf_json (event_object now e)"
  unfolding event_object_def wf_json.simps
proof (intro conjI ballI)
  show "distinct (map fst (base_fields now (event_level e) ''sprinter.worker'' (event_message e) @ event_extra e))"
    by (rule event_extra_fields)
  fix p assume "p \<in> set (base_fields now (event_level e) ''sprinter.worker'' (event_message e) @ event_extra e)"
  then show "wf_json (snd p)" using event_extra_fields(3) [of e] by (auto simp: base_fields_def)
qed

lemma log_event_exact: "log_event std now e = Inr (dumps_spaced (event_object now e))"
proof -
  obtain r where r: "make_record std (event_level e) ''sprinter.worker'' (event_message e) (event_extra e) = Inr r"
    unfolding make_record_def event_extra_fields(2) by auto
  from log_payload_fresh [OF this event_extra_fields(1), of now] r show ?thesis
    by (simp add: log_event_def bind_result_def format_record_def event_object_def)
qed

lemma printable_no_newline: "printable l \<Longrightarrow> CHR 0x0A \<notin> set l"
  by (auto simp: printable_def code_of_def)

lemma split_line: "c \<notin> set l \<Longrightarrow> split_on c (l @ c # s) = l # split_on c s"
  by (induction l) auto

lemma split_log_stream:
  "\<forall>l \<in> set lines. printable l \<Longrightarrow> split_on (CHR 0x0A) (log_stream lines) = lines @ [[]]"
  by (induction lines) (auto simp: log_stream_def split_line printable_no_newline)

lemma json_loads_empty: "json_loads [] = None"
  by (simp add: json_loads_def skip_ws_def parse_value.simps)

text \<open>
  C37: The log cannot be forged. Whatever texts the worker logs (messages of exceptions, answers of
  services, identifiers), no call of the logger raises, and the written stream, cut at its newlines
  and read as JSON, is exactly the sequence of the logged events: one line for each, with its time,
  its level, its message and its details.
\<close>

theorem worker_log_exact:
  "\<exists>lines. map (\<lambda>(now, e). log_event std now e) es = map Inr lines \<and>
    map json_loads (split_on (CHR 0x0A) (log_stream lines)) =
      map (\<lambda>(now, e). Some (sort_keys (event_object now e))) es @ [None]"
proof (intro exI conjI)
  let ?lines = "map (\<lambda>(now, e). dumps_spaced (event_object now e)) es"
  show "map (\<lambda>(now, e). log_event std now e) es = map Inr ?lines"
    by (simp add: log_event_exact split_def)
  have "split_on (CHR 0x0A) (log_stream ?lines) = ?lines @ [[]]"
    by (rule split_log_stream) (auto simp: dumps_spaced_printable event_object_wf)
  then show "map json_loads (split_on (CHR 0x0A) (log_stream ?lines)) =
      map (\<lambda>(now, e). Some (sort_keys (event_object now e))) es @ [None]"
    by (simp add: json_loads_dumps_spaced event_object_wf split_def json_loads_empty)
qed

end
