(* ===== verification/Operations.thy ===== *)
theory Operations
  imports Integrations Models
begin

text \<open>
  Backup and restore of the database (\<^verbatim>\<open>src/sprinter/backup.py\<close>,
  \<^verbatim>\<open>src/sprinter/restore.py\<close>) on a file system that maps a path to the contents and
  permission bits of a regular file. What SQLite and hashlib do is given by arguments: the page
  copy of the online backup, the first rows of the integrity check and of the schema revision
  as functions of a database file's contents, and the SHA-256 hex digest. Directories are not
  modelled; the source database exists.

  The lemmas show that a restored backup has the contents that were backed up, and that restore
  never replaces a database, installs nothing unverified, and changes nothing when it fails.
\<close>

section \<open>Files\<close>

definition file_name :: "string \<Rightarrow> string" where
  "file_name path = rev (takeWhile (\<lambda>c. c \<noteq> CHR ''/'') (rev path))"

text \<open>Opening for writing keeps the mode of an existing file; \<open>umask_mode\<close> is that of a new one.\<close>

definition write_file :: "nat \<Rightarrow> string \<Rightarrow> string \<Rightarrow> file_system \<Rightarrow> file_system" where
  "write_file umask_mode path content fs =
     fs(path \<mapsto> \<lparr>file_content = content,
          file_mode = (case fs path of None \<Rightarrow> umask_mode | Some f \<Rightarrow> file_mode f)\<rparr>)"

definition chmod :: "string \<Rightarrow> nat \<Rightarrow> file_system \<Rightarrow> file_system" where
  "chmod path mode fs = (case fs path of None \<Rightarrow> fs | Some f \<Rightarrow> fs(path \<mapsto> f\<lparr>file_mode := mode\<rparr>))"

definition read_file :: "string \<Rightarrow> file_system \<Rightarrow> exc + string" where
  "read_file path fs = (case fs path of None \<Rightarrow> Inl (FileNotFoundError, path) | Some f \<Rightarrow> Inr (file_content f))"

definition is_ascii :: "string \<Rightarrow> bool" where
  "is_ascii s = (\<forall>c \<in> set s. code_of c < 128)"

text \<open>\<open>sq_copy\<close> gives what the online backup leaves in the new file, and the error if it fails.\<close>

record sqlite =
  sq_copy :: "string \<Rightarrow> string \<times> exc option"
  sq_integrity :: "string \<Rightarrow> exc + string option"
  sq_revision :: "string \<Rightarrow> exc + string option"
  sq_sha256 :: "string \<Rightarrow> string"

section \<open>Backup\<close>

definition checksum_line :: "string \<Rightarrow> string \<Rightarrow> string" where
  "checksum_line digest name = digest @ ''  '' @ name @ [CHR 0x0A]"

definition verified_copy :: "sqlite \<Rightarrow> string \<Rightarrow> exc + unit" where
  "verified_copy q copied =
     bind_result (sq_integrity q copied) (\<lambda>result.
       if result \<noteq> Some ''ok'' then Inl (RuntimeError, ''backup failed SQLite integrity check'')
       else bind_result (sq_revision q copied) (\<lambda>revision.
         if revision = None then Inl (RuntimeError, ''backup is not a Sprinter v1 database'') else Inr ()))"

definition backup_database ::
  "sqlite \<Rightarrow> nat \<Rightarrow> string \<Rightarrow> string \<Rightarrow> file_system \<Rightarrow> file_system \<times> (exc + string)"
where
  "backup_database q umask_mode source destination fs =
     (if fs destination \<noteq> None
      then (fs, Inl (FileExistsError, ''refusing to replace existing backup: '' @ destination))
      else case read_file source fs of
        Inl e \<Rightarrow> (fs, Inl e)
      | Inr database \<Rightarrow>
          (let (copied, failure) = sq_copy q database;
               fs1 = write_file umask_mode destination copied fs in
           case (case failure of Some e \<Rightarrow> Inl e | None \<Rightarrow> verified_copy q copied) of
             Inl e \<Rightarrow> (fs1, Inl e)
           | Inr _ \<Rightarrow>
               (let fs2 = chmod destination 384 fs1;
                    digest = sq_sha256 q copied;
                    checksum = destination @ ''.sha256'';
                    line = checksum_line digest (file_name destination) in
                if \<not> is_ascii line then (write_file umask_mode checksum [] fs2, Inl (ValueError, ''ordinal not in range(128)''))
                else (chmod checksum 384 (write_file umask_mode checksum line fs2), Inr digest))))"

section \<open>Restore\<close>

definition SUPPORTED_REVISION :: string where "SUPPORTED_REVISION = ''0001_clean_v1''"

definition read_ascii :: "string \<Rightarrow> file_system \<Rightarrow> exc + string" where
  "read_ascii path fs = bind_result (read_file path fs) (\<lambda>t.
     if is_ascii t then Inr t else Inl (ValueError, ''ordinal not in range(128)''))"

definition expected_digest :: "string \<Rightarrow> file_system \<Rightarrow> exc + string" where
  "expected_digest checksum fs = bind_result (read_ascii checksum fs) (\<lambda>t.
     case split_words t of [] \<Rightarrow> Inl (IndexError, ''list index out of range'') | w # _ \<Rightarrow> Inr w)"

definition verified_backup :: "sqlite \<Rightarrow> string \<Rightarrow> exc + unit" where
  "verified_backup q content =
     bind_result (sq_integrity q content) (\<lambda>integrity.
     bind_result (sq_revision q content) (\<lambda>revision.
       if integrity \<noteq> Some ''ok'' then Inl (ValueError, ''backup failed SQLite integrity check'')
       else if revision \<noteq> Some SUPPORTED_REVISION
       then Inl (ValueError, ''backup is not a supported Sprinter v1 database'') else Inr ()))"

definition replace_file :: "string \<Rightarrow> string \<Rightarrow> file_system \<Rightarrow> file_system" where
  "replace_file from to fs = (fs(to := fs from))(from := None)"

definition checked_backup :: "sqlite \<Rightarrow> string \<Rightarrow> string \<Rightarrow> file_system \<Rightarrow> exc + string" where
  "checked_backup q backup checksum fs =
     bind_result (expected_digest checksum fs) (\<lambda>expected.
     bind_result (read_file backup fs) (\<lambda>content.
       if expected = [] \<or> expected \<noteq> sq_sha256 q content
       then Inl (ValueError, ''backup checksum does not match'')
       else bind_result (verified_backup q content) (\<lambda>_. Inr content)))"

definition restore_database ::
  "sqlite \<Rightarrow> nat \<Rightarrow> string \<Rightarrow> string \<Rightarrow> string \<Rightarrow> file_system \<Rightarrow> file_system \<times> (exc + unit)"
where
  "restore_database q umask_mode backup checksum destination fs =
     (if fs destination \<noteq> None
      then (fs, Inl (FileExistsError, ''refusing to replace existing database: '' @ destination))
      else case checked_backup q backup checksum fs of
        Inl e \<Rightarrow> (fs, Inl e)
      | Inr content \<Rightarrow>
          (let temporary = destination @ ''.restoring'' in
           if temporary = backup then (fs, Inl (OSError, ''SameFileError''))
           else (replace_file temporary destination
                   (chmod temporary 384 (write_file umask_mode temporary content fs)), Inr ())))"

section \<open>What they guarantee\<close>

lemma write_file_at [simp]:
  "write_file m p t fs p = Some \<lparr>file_content = t, file_mode = (case fs p of None \<Rightarrow> m | Some f \<Rightarrow> file_mode f)\<rparr>"
  "p' \<noteq> p \<Longrightarrow> write_file m p t fs p' = fs p'"
  by (simp_all add: write_file_def)

lemma chmod_at [simp]:
  "chmod p m fs p = map_option (\<lambda>f. f\<lparr>file_mode := m\<rparr>) (fs p)"
  "p' \<noteq> p \<Longrightarrow> chmod p m fs p' = fs p'"
  by (simp_all add: chmod_def split: option.split)

lemma suffix_neq [simp]: "p @ c # s \<noteq> p" "p \<noteq> p @ c # s"
  by simp_all

text \<open>A digest in front of the separator is what \<^verbatim>\<open>split()[0]\<close> reads back.\<close>

lemma split_words_checksum:
  assumes "digest \<noteq> []" and "\<forall>c \<in> set digest. \<not> is_space c"
  shows "\<exists>ws. split_words (checksum_line digest name) = digest # ws"
proof -
  have "split_words (digest @ '' '' @ '' '' @ name @ [CHR 0x0A]) = digest # words_from [] ('' '' @ name @ [CHR 0x0A])"
    using words_from_word [of digest "[]"] assms by (simp add: split_words_def)
  then show ?thesis by (simp add: checksum_line_def)
qed

lemma installed_file:
  "replace_file (d @ ''.restoring'') d (chmod (d @ ''.restoring'') mode (write_file m (d @ ''.restoring'') c fs)) =
    fs(d \<mapsto> \<lparr>file_content = c, file_mode = mode\<rparr>, d @ ''.restoring'' := None)"
  by (rule ext) (auto simp: replace_file_def)

lemma checked_backup_Inr:
  assumes "checked_backup q backup checksum fs = Inr content"
  shows "read_file backup fs = Inr content" and "expected_digest checksum fs = Inr (sq_sha256 q content)"
    and "sq_integrity q content = Inr (Some ''ok'')" and "sq_revision q content = Inr (Some SUPPORTED_REVISION)"
  using assms by (auto simp: checked_backup_def verified_backup_def bind_result_Inr_iff split: if_splits)

text \<open>
  C38: Restore is guarded. It succeeds only if there was no database at the destination, the
  backup has exactly the recorded checksum, passes the integrity check and has the supported
  revision; then the destination holds the backup's contents, private to its owner, and no other
  file has changed but the temporary one, which is gone. If it fails it has changed nothing.
\<close>

theorem restore_guarded:
  assumes "restore_database q m backup checksum destination fs = (fs', r)"
  shows "case r of
      Inl e \<Rightarrow> fs' = fs
    | Inr _ \<Rightarrow> \<exists>content.
        fs destination = None \<and> read_file backup fs = Inr content \<and>
        expected_digest checksum fs = Inr (sq_sha256 q content) \<and>
        sq_integrity q content = Inr (Some ''ok'') \<and> sq_revision q content = Inr (Some SUPPORTED_REVISION) \<and>
        fs' = fs(destination \<mapsto> \<lparr>file_content = content, file_mode = 384\<rparr>, destination @ ''.restoring'' := None)"
proof (cases "fs destination = None")
  case False
  with assms show ?thesis by (auto simp: restore_database_def)
next
  case None: True
  show ?thesis
  proof (cases "checked_backup q backup checksum fs")
    case (Inl e)
    with None assms show ?thesis by (auto simp: restore_database_def)
  next
    case (Inr content)
    show ?thesis
    proof (cases "destination @ ''.restoring'' = backup")
      case True
      with None Inr assms show ?thesis by (auto simp: restore_database_def)
    next
      case False
      with None Inr assms have "r = Inr ()"
        "fs' = fs(destination \<mapsto> \<lparr>file_content = content, file_mode = 384\<rparr>, destination @ ''.restoring'' := None)"
        by (simp_all add: restore_database_def installed_file)
      with None checked_backup_Inr [OF Inr] show ?thesis by auto
    qed
  qed
qed

text \<open>
  C36: What was backed up can be restored. After a successful backup, and whatever happens to
  other files, restoring it to a place without a database succeeds and puts there exactly the
  contents of the copy, provided the copy has the supported revision; both the backup and the
  restored database are private to their owner. Two facts of hashlib are used: a digest is not
  empty and has no white space.
\<close>

theorem backup_restore_roundtrip:
  assumes "\<And>t. sq_sha256 q t \<noteq> []" and "\<And>t. \<forall>c \<in> set (sq_sha256 q t). \<not> is_space c"
    and backup: "backup_database q m source b fs = (fs1, Inr digest)"
    and same: "fs2 b = fs1 b" "fs2 (b @ ''.sha256'') = fs1 (b @ ''.sha256'')"
    and dest: "fs2 destination = None" "b \<noteq> destination @ ''.restoring''"
    and rev: "sq_revision q (fst (sq_copy q (file_content (the (fs source))))) = Inr (Some SUPPORTED_REVISION)"
  shows "\<exists>fs3. restore_database q m b (b @ ''.sha256'') destination fs2 = (fs3, Inr ()) \<and>
    fs3 destination = Some \<lparr>file_content = fst (sq_copy q (file_content (the (fs source)))), file_mode = 384\<rparr> \<and>
    map_option file_mode (fs1 b) = Some 384"
proof -
  define copied where "copied = fst (sq_copy q (file_content (the (fs source))))"
  have b: "fs1 b = Some \<lparr>file_content = copied, file_mode = 384\<rparr>" "sq_integrity q copied = Inr (Some ''ok'')"
      "is_ascii (checksum_line (sq_sha256 q copied) (file_name b))"
      "map_option file_content (fs1 (b @ ''.sha256'')) = Some (checksum_line (sq_sha256 q copied) (file_name b))"
    using backup
    by (auto simp: backup_database_def read_file_def verified_copy_def Let_def bind_result_Inr_iff copied_def
        split: if_splits sum.splits option.splits prod.splits)
  obtain ws where ws: "split_words (checksum_line (sq_sha256 q copied) (file_name b)) = sq_sha256 q copied # ws"
    using split_words_checksum assms(1,2) by blast
  have "expected_digest (b @ ''.sha256'') fs2 = Inr (sq_sha256 q copied)"
    using b(3,4) ws same(2) by (auto simp: expected_digest_def read_ascii_def read_file_def)
  moreover have "read_file b fs2 = Inr copied" using b(1) same(1) by (simp add: read_file_def)
  moreover have "verified_backup q copied = Inr ()" using b(2) rev by (simp add: verified_backup_def copied_def)
  ultimately show ?thesis
    using dest assms(1) b(1) by (auto simp: restore_database_def checked_backup_def Let_def replace_file_def copied_def [symmetric])
qed

section \<open>Witnesses\<close>

definition sample_sqlite :: sqlite where
  "sample_sqlite = \<lparr>sq_copy = (\<lambda>t. (t, None)), sq_integrity = (\<lambda>_. Inr (Some ''ok'')),
     sq_revision = (\<lambda>_. Inr (Some SUPPORTED_REVISION)), sq_sha256 = (\<lambda>t. ''d'')\<rparr>"

definition one_database :: file_system where
  "one_database = [''/db'' \<mapsto> \<lparr>file_content = ''rows'', file_mode = 384\<rparr>]"

lemma sample_backup:
  "\<exists>fs1. backup_database sample_sqlite 420 ''/db'' ''/b'' one_database = (fs1, Inr ''d'') \<and> fs1 ''/new'' = None"
proof -
  have "is_ascii (checksum_line ''d'' (file_name ''/b''))" by code_simp
  then show ?thesis
    by (simp add: backup_database_def sample_sqlite_def one_database_def read_file_def verified_copy_def Let_def)
qed

lemma backup_restore_roundtrip_witness:
  "\<exists>fs1 fs3. backup_database sample_sqlite 420 ''/db'' ''/b'' one_database = (fs1, Inr ''d'') \<and>
     restore_database sample_sqlite 420 ''/b'' ''/b.sha256'' ''/new'' fs1 = (fs3, Inr ()) \<and>
     fs3 ''/new'' = Some \<lparr>file_content = ''rows'', file_mode = 384\<rparr>"
proof -
  obtain fs1 where b: "backup_database sample_sqlite 420 ''/db'' ''/b'' one_database = (fs1, Inr ''d'')" "fs1 ''/new'' = None"
    using sample_backup by blast
  have "\<not> is_space (CHR ''d'')" by code_simp
  with backup_restore_roundtrip [of sample_sqlite 420 "''/db''" "''/b''" one_database fs1 "''d''" fs1 "''/new''"] b
  show ?thesis by (auto simp: sample_sqlite_def one_database_def)
qed

lemma restore_guarded_witness:
  "\<exists>fs' e. restore_database sample_sqlite 420 ''/b'' ''/b.sha256'' ''/db'' one_database = (fs', Inl e) \<and> fs' = one_database"
proof -
  obtain fs' r where q: "restore_database sample_sqlite 420 ''/b'' ''/b.sha256'' ''/db'' one_database = (fs', r)" by fastforce
  then have "\<exists>e. r = Inl e" by (auto simp: restore_database_def one_database_def)
  with restore_guarded [OF q] q show ?thesis by auto
qed

end
