(* ===== verification/DatabaseFile.thy ===== *)
theory DatabaseFile
  imports Operations
begin

text \<open>
  Opening the database (\<^verbatim>\<open>Database.__init__\<close>, \<^verbatim>\<open>_reject_legacy_database\<close>,
  \<^verbatim>\<open>_migrate\<close> and \<^verbatim>\<open>schema_revision\<close> in \<^verbatim>\<open>src/sprinter/db.py\<close>) on the file
  system of \<open>Operations\<close>, and the environment of the migrations
  (\<^verbatim>\<open>src/sprinter/migrations/env.py\<close>). SQLite and Alembic are arguments: the tables of a
  database file, and what an upgrade leaves in the file, with the error if it fails. The pragmas of
  a connection are in \<open>Transactions\<close>; the columns of the tables and the creation of the directory
  are not modelled.

  The lemmas show that a file of another program is refused and left as it is, and that a
  database that was backed up and restored opens with its contents.
\<close>

text \<open>\<^verbatim>\<open>sqlite3.DatabaseError\<close> and its subclasses.\<close>

definition database_errors :: "exc_type list" where
  "database_errors = map Foreign [''DatabaseError'', ''OperationalError'', ''IntegrityError'', ''DataError'',
     ''InternalError'', ''ProgrammingError'', ''NotSupportedError'']"

record schema_tool =
  st_tables :: "string \<Rightarrow> exc + string list"
  st_upgrade :: "string \<Rightarrow> string \<times> exc option"

definition reject_legacy :: "schema_tool \<Rightarrow> string \<Rightarrow> file_system \<Rightarrow> exc + unit" where
  "reject_legacy t path fs =
     (case fs path of
        None \<Rightarrow> Inr ()
      | Some f \<Rightarrow>
          if file_content f = [] then Inr ()
          else (case st_tables t (file_content f) of
             Inl e \<Rightarrow>
               if caught database_errors e
               then Inl (LegacyDatabaseError, ''database is not a valid Sprinter v1 SQLite file'') else Inl e
           | Inr tables \<Rightarrow>
               if tables \<noteq> [] \<and> ''alembic_version'' \<notin> set tables
               then Inl (LegacyDatabaseError, ''legacy database detected; Sprinter v1 requires a fresh data volume'')
               else Inr ()))"

text \<open>A file that does not exist is created empty by the connection of the upgrade.\<close>

definition migrate :: "schema_tool \<Rightarrow> nat \<Rightarrow> string \<Rightarrow> file_system \<Rightarrow> file_system \<times> (exc + unit)" where
  "migrate t umask_mode path fs =
     (let old = (case fs path of None \<Rightarrow> [] | Some f \<Rightarrow> file_content f);
          (content, failure) = st_upgrade t old;
          fs1 = write_file umask_mode path content fs in
      case failure of Some e \<Rightarrow> (fs1, Inl e) | None \<Rightarrow> (chmod path 384 fs1, Inr ()))"

definition open_database :: "schema_tool \<Rightarrow> nat \<Rightarrow> string \<Rightarrow> file_system \<Rightarrow> file_system \<times> (exc + unit)" where
  "open_database t umask_mode path fs =
     (case reject_legacy t path fs of Inl e \<Rightarrow> (fs, Inl e) | Inr _ \<Rightarrow> migrate t umask_mode path fs)"

definition schema_revision :: "sqlite \<Rightarrow> schema_tool \<Rightarrow> string \<Rightarrow> exc + string" where
  "schema_revision q t content =
     bind_result (st_tables t content) (\<lambda>tables.
       if tables = [] then Inr []
       else bind_result (sq_revision q content) (\<lambda>revision.
         case revision of None \<Rightarrow> Inl (Foreign ''NoResultFound'', ''No row was found when one was required'')
         | Some r \<Rightarrow> Inr r))"

section \<open>The migration\<close>

text \<open>
  The tables \<^verbatim>\<open>models.py\<close> declares, and the one migration: it creates those that are missing
  and its reversal drops them. Alembic's own table, which records the revision, is not touched.
\<close>

definition declared_tables :: "string list" where
  "declared_tables = [''jobs'', ''evidence'', ''decisions'', ''findings'', ''audit_events'', ''delivery_outbox'',
     ''teams_installations'', ''worker_health'', ''retention_metadata'']"

definition upgrade :: "string list \<Rightarrow> string list" where
  "upgrade tables = tables @ filter (\<lambda>t. t \<notin> set tables) declared_tables"

definition downgrade :: "string list \<Rightarrow> string list" where
  "downgrade tables = filter (\<lambda>t. t \<notin> set declared_tables) tables"

lemma upgrade_tables: "set (upgrade tables) = set tables \<union> set declared_tables"
  by (auto simp: upgrade_def)

lemma upgrade_idem: "upgrade (upgrade tables) = upgrade tables"
  by (auto simp: upgrade_def filter_empty_conv)

lemma downgrade_upgrade: "downgrade (upgrade tables) = downgrade tables"
  by (simp add: upgrade_def downgrade_def filter_empty_conv)

text \<open>
  How Alembic is told to run the migration (\<^verbatim>\<open>env.py\<close>): offline from the URL alone, which
  only writes the statements out, or online on a connection, which executes them.
\<close>

record migration_context =
  mc_url :: "string option"
  mc_connection :: "string option"
  mc_literal_binds :: bool
  mc_render_as_batch :: bool

definition run_migrations_offline :: "string \<Rightarrow> migration_context" where
  "run_migrations_offline url =
     \<lparr>mc_url = Some url, mc_connection = None, mc_literal_binds = True, mc_render_as_batch = True\<rparr>"

definition run_migrations_online :: "string \<Rightarrow> migration_context" where
  "run_migrations_online url =
     \<lparr>mc_url = None, mc_connection = Some url, mc_literal_binds = False, mc_render_as_batch = True\<rparr>"

definition migration_env :: "bool \<Rightarrow> string \<Rightarrow> migration_context" where
  "migration_env offline url = (if offline then run_migrations_offline url else run_migrations_online url)"

definition run_migrations :: "migration_context \<Rightarrow> string list \<Rightarrow> string list" where
  "run_migrations c tables = (case mc_connection c of None \<Rightarrow> tables | Some _ \<Rightarrow> upgrade tables)"

lemma run_migrations_simps [simp]:
  "run_migrations (migration_env True url) tables = tables"
  "run_migrations (migration_env False url) tables = upgrade tables"
  by (simp_all add: run_migrations_def migration_env_def run_migrations_offline_def run_migrations_online_def)

text \<open>Opening runs it online: afterwards every table of the program is there, and twice is once.\<close>

lemma migrated_tables:
  "set declared_tables \<subseteq> set (run_migrations (migration_env False url) tables)"
  "run_migrations (migration_env False url) (run_migrations (migration_env False url) tables) =
     run_migrations (migration_env False url) tables"
  by (simp_all add: upgrade_tables upgrade_idem)

section \<open>What opening guarantees\<close>

text \<open>A file with contents that SQLite cannot read, or with tables but no record of a revision.\<close>

definition foreign_content :: "schema_tool \<Rightarrow> string \<Rightarrow> bool" where
  "foreign_content t content =
     (content \<noteq> [] \<and>
      (case st_tables t content of
         Inl e \<Rightarrow> caught database_errors e
       | Inr tables \<Rightarrow> tables \<noteq> [] \<and> ''alembic_version'' \<notin> set tables))"

lemma reject_legacy_foreign:
  "fs path = Some f \<Longrightarrow> foreign_content t (file_content f) \<Longrightarrow>
    \<exists>m. reject_legacy t path fs = Inl (LegacyDatabaseError, m)"
  by (auto simp: reject_legacy_def foreign_content_def split: sum.splits)

lemma reject_legacy_Inr:
  "reject_legacy t path fs = Inr u \<Longrightarrow> fs path = Some f \<Longrightarrow> \<not> foreign_content t (file_content f)"
  by (auto simp: reject_legacy_def foreign_content_def split: sum.splits if_splits)

lemma migrate_result:
  assumes "migrate t umask_mode path fs = (fs', r)" and "p \<noteq> path"
  shows "fs' p = fs p"
  using assms by (auto simp: migrate_def Let_def split: prod.splits option.splits)

text \<open>
  Opening never touches a file that is not Sprinter's. If the file at the path has contents
  that are no database, or tables without a schema revision, opening fails with
  \<^verbatim>\<open>LegacyDatabaseError\<close> and changes nothing. In any case no other file changes; and when
  opening succeeds, the file holds the upgraded contents of the old one, an absent file counting
  as empty, and is private to its owner.
\<close>

theorem open_database_guarded:
  assumes "open_database t umask_mode path fs = (fs', r)"
  shows "((\<exists>f. fs path = Some f \<and> foreign_content t (file_content f)) \<longrightarrow>
      fs' = fs \<and> (\<exists>m. r = Inl (LegacyDatabaseError, m))) \<and>
    (\<forall>p. p \<noteq> path \<longrightarrow> fs' p = fs p) \<and>
    (r = Inr () \<longrightarrow>
      (\<exists>content. st_upgrade t (case fs path of None \<Rightarrow> [] | Some f \<Rightarrow> file_content f) = (content, None) \<and>
        fs' path = Some \<lparr>file_content = content, file_mode = 384\<rparr>))"
proof (cases "reject_legacy t path fs")
  case (Inl e)
  with assms have "fs' = fs" "r = Inl e" by (simp_all add: open_database_def)
  with Inl reject_legacy_foreign [of fs path _ t] show ?thesis by auto
next
  case (Inr u)
  with assms have m: "migrate t umask_mode path fs = (fs', r)" by (simp add: open_database_def)
  with Inr reject_legacy_Inr [OF Inr] migrate_result [OF m] show ?thesis
    by (auto simp: migrate_def Let_def split: prod.splits option.splits)
qed

lemma open_current:
  assumes "fs path = Some \<lparr>file_content = content, file_mode = 384\<rparr>" and "st_tables t content = Inr ts"
    and "''alembic_version'' \<in> set ts" and "st_upgrade t content = (content, None)"
  shows "open_database t umask_mode path fs = (fs, Inr ())"
proof -
  from assms(1-3) have "reject_legacy t path fs = Inr ()" by (auto simp: reject_legacy_def)
  with assms show ?thesis
    by (simp add: open_database_def migrate_def write_file_def chmod_def fun_upd_idem)
qed

text \<open>
  A database that restore installed opens unchanged, if the schema tool finds a revision's table
  in every file that has a revision, and leaves a file of the current revision as it is.
\<close>

lemma restored_database_opens:
  assumes "restore_database q m backup checksum path fs = (fs', Inr ())" and "path @ ''.restoring'' \<noteq> backup"
    and "\<And>c r. sq_revision q c = Inr (Some r) \<Longrightarrow> \<exists>ts. st_tables t c = Inr ts \<and> ''alembic_version'' \<in> set ts"
    and "\<And>c. sq_revision q c = Inr (Some SUPPORTED_REVISION) \<Longrightarrow> st_upgrade t c = (c, None)"
  shows "\<exists>f. fs' path = Some f \<and> open_database t umask_mode path fs' = (fs', Inr ()) \<and>
    schema_revision q t (file_content f) = Inr SUPPORTED_REVISION"
proof -
  from assms(1,2) obtain content where
    c: "checked_backup q backup checksum fs = Inr content" and
    fs': "fs' = fs(path \<mapsto> \<lparr>file_content = content, file_mode = 384\<rparr>, path @ ''.restoring'' := None)"
    by (auto simp: restore_database_def installed_file Let_def split: if_splits sum.splits)
  from assms(3,4) checked_backup_Inr(4) [OF c] obtain ts where
    ts: "st_tables t content = Inr ts" "''alembic_version'' \<in> set ts" "st_upgrade t content = (content, None)"
    by blast
  have f: "fs' path = Some \<lparr>file_content = content, file_mode = 384\<rparr>" by (simp add: fs')
  moreover from f ts have "open_database t umask_mode path fs' = (fs', Inr ())" by (auto intro: open_current)
  moreover from ts have "ts \<noteq> []" by auto
  ultimately show ?thesis
    using ts checked_backup_Inr(4) [OF c] by (auto simp: schema_revision_def bind_result_def)
qed

section \<open>Witness\<close>

definition sample_tool :: schema_tool where
  "sample_tool = \<lparr>st_tables = (\<lambda>c. if c = ''sprinter'' then Inr [''jobs'', ''alembic_version''] else Inr [''jobs'']),
     st_upgrade = (\<lambda>c. (''sprinter'', None))\<rparr>"

lemma open_database_guarded_witness:
  "fst (open_database sample_tool 420 ''/data/db'' [''/data/db'' \<mapsto> \<lparr>file_content = ''old'', file_mode = 420\<rparr>]) =
      [''/data/db'' \<mapsto> \<lparr>file_content = ''old'', file_mode = 420\<rparr>] \<and>
    fst (open_database sample_tool 420 ''/data/db'' Map.empty) ''/data/db'' =
      Some \<lparr>file_content = ''sprinter'', file_mode = 384\<rparr>"
proof
  let ?fs = "[''/data/db'' \<mapsto> \<lparr>file_content = ''old'', file_mode = 420\<rparr>]"
  have "foreign_content sample_tool ''old''" by (simp add: foreign_content_def sample_tool_def)
  then show "fst (open_database sample_tool 420 ''/data/db'' ?fs) = ?fs"
    using open_database_guarded [of sample_tool 420 "''/data/db''" ?fs] by (cases "open_database sample_tool 420 ''/data/db'' ?fs") auto
  have "snd (open_database sample_tool 420 ''/data/db'' Map.empty) = Inr ()"
    by (simp add: open_database_def reject_legacy_def migrate_def sample_tool_def)
  then show "fst (open_database sample_tool 420 ''/data/db'' Map.empty) ''/data/db'' =
      Some \<lparr>file_content = ''sprinter'', file_mode = 384\<rparr>"
    using open_database_guarded [of sample_tool 420 "''/data/db''" Map.empty]
    by (cases "open_database sample_tool 420 ''/data/db'' Map.empty") (auto simp: sample_tool_def)
qed

end
