(* ===== verification/Startup.thy ===== *)
theory Startup
  imports DatabaseFile Api
begin

text \<open>
  Starting the processes: the checks on the settings (\<^verbatim>\<open>config.py\<close>), the wiring of the
  container (\<^verbatim>\<open>Container.__init__\<close> in \<^verbatim>\<open>engine.py\<close>, \<^verbatim>\<open>TeamsGateway.__init__\<close>), and
  the start of the API (\<^verbatim>\<open>create_app\<close> and its lifespan in \<^verbatim>\<open>api.py\<close>) and of the worker
  (\<^verbatim>\<open>run_worker\<close>) on a file system; and the commands that back up and restore. The Teams SDK's objects are built from the three values
  the gateway passes to them.

  The lemmas show that an invalid configuration stops a process before it touches any file, and
  that with a valid one only the database can keep it from starting, which a restored one does not.
\<close>

section \<open>Loading the settings\<close>

definition ascii_upper :: "char \<Rightarrow> char" where
  "ascii_upper c = (if 97 \<le> code_of c \<and> code_of c \<le> 122 then char_of (code_of c - 32) else c)"

text \<open>
  The level names are ASCII letters, and no other character up to code point 255 has an upper case
  that occurs in one of them, so raising the case of ASCII letters decides membership as
  \<^verbatim>\<open>str.upper\<close> does.
\<close>

definition validate_log_level :: "string \<Rightarrow> exc + string" where
  "validate_log_level value =
     (let v = map ascii_upper value in
      if v \<in> set [''DEBUG'', ''INFO'', ''WARNING'', ''ERROR'', ''CRITICAL''] then Inr v
      else Inl (ValueError, ''invalid log level''))"

text \<open>
  \<open>variables\<close> are the names in the process's environment; \<open>raw\<close> the settings as read from it.
  Whatever a field or a validator refuses is raised as pydantic's \<^verbatim>\<open>ValidationError\<close>.
\<close>

definition load_settings :: "string list \<Rightarrow> settings \<Rightarrow> exc + settings" where
  "load_settings variables raw =
     (if \<not> settings_in_range raw then Inl (ValidationError, ''Settings'')
      else case bind_result (validate_log_level (log_level raw)) (\<lambda>level.
                  bind_result (reject_legacy_environment variables) (\<lambda>_. Inr (raw\<lparr>log_level := level\<rparr>))) of
        Inl e \<Rightarrow> Inl (ValidationError, snd e)
      | Inr s \<Rightarrow> Inr s)"

text \<open>\<^verbatim>\<open>get_settings\<close> is cached: settings that were loaded stay, an error is not remembered.\<close>

definition get_settings :: "settings option \<Rightarrow> string list \<Rightarrow> settings \<Rightarrow> settings option \<times> (exc + settings)" where
  "get_settings cache variables raw =
     (case cache of
        Some s \<Rightarrow> (cache, Inr s)
      | None \<Rightarrow> (case load_settings variables raw of Inl e \<Rightarrow> (None, Inl e) | Inr s \<Rightarrow> (Some s, Inr s)))"

lemma get_settings_first [simp]: "snd (get_settings None variables raw) = load_settings variables raw"
  by (simp add: get_settings_def split: sum.split)

lemma get_settings_stays:
  "get_settings cache variables raw = (cache', Inr s) \<Longrightarrow> get_settings cache' variables' raw' = (cache', Inr s)"
  by (auto simp: get_settings_def split: option.splits sum.splits)

section \<open>The container\<close>

record teams_client =
  tc_client_id :: string
  tc_tenant_id :: string
  tc_client_secret :: string

definition teams_gateway :: "file_system \<Rightarrow> settings \<Rightarrow> exc + teams_client" where
  "teams_gateway fs s = bind_result (secret_value fs s Secret_teams) (\<lambda>secret.
     Inr \<lparr>tc_client_id = teams_app_id s, tc_tenant_id = teams_tenant_id s, tc_client_secret = secret\<rparr>)"

record container =
  ct_records :: "token_record list"
  ct_rate_limiter :: limiter
  ct_teams :: "teams_client option"

definition make_container ::
  "schema_tool \<Rightarrow> nat \<Rightarrow> settings \<Rightarrow> bool \<Rightarrow> file_system \<Rightarrow> file_system \<times> (exc + container)"
where
  "make_container t umask_mode s initialize_teams fs =
     (case open_database t umask_mode (database_path s) fs of
        (fs', Inl e) \<Rightarrow> (fs', Inl e)
      | (fs', Inr _) \<Rightarrow>
          (fs', bind_result (token_records s) (\<lambda>records.
             bind_result (if teams_enabled s \<and> initialize_teams
                          then bind_result (teams_gateway fs' s) (\<lambda>g. Inr (Some g)) else Inr None) (\<lambda>teams.
               Inr \<lparr>ct_records = records, ct_rate_limiter = new_limiter (rate_limit_per_minute s),
                    ct_teams = teams\<rparr>))))"

section \<open>The processes\<close>

text \<open>What \<^verbatim>\<open>create_app\<close> fixes about the application.\<close>

record app_options =
  ao_docs_url :: "string option"
  ao_openapi_url :: "string option"
  ao_max_bytes :: int

definition create_app :: "settings \<Rightarrow> app_options" where
  "create_app s =
     \<lparr>ao_docs_url = if environment s = ''development'' then Some ''/api/docs'' else None,
      ao_openapi_url = if environment s = ''development'' then Some ''/api/openapi.json'' else None,
      ao_max_bytes = max_body_bytes s\<rparr>"

text \<open>\<open>writable\<close> tells whether the database's directory can be written.\<close>

definition start_process ::
  "schema_tool \<Rightarrow> nat \<Rightarrow> bool \<Rightarrow> settings \<Rightarrow> role \<Rightarrow> file_system \<Rightarrow> file_system \<times> (exc + container)"
where
  "start_process t umask_mode writable s r fs =
     (case validate_runtime fs writable s r of
        Inl e \<Rightarrow> (fs, Inl e)
      | Inr _ \<Rightarrow> make_container t umask_mode s True fs)"

definition start_api ::
  "schema_tool \<Rightarrow> nat \<Rightarrow> bool \<Rightarrow> string list \<Rightarrow> settings \<Rightarrow> file_system \<Rightarrow> file_system \<times> (exc + app_options \<times> container)"
where
  "start_api t umask_mode writable variables raw fs =
     (case snd (get_settings None variables raw) of
        Inl e \<Rightarrow> (fs, Inl e)
      | Inr s \<Rightarrow>
          (case start_process t umask_mode writable s Role_api fs of
             (fs', Inl e) \<Rightarrow> (fs', Inl e)
           | (fs', Inr c) \<Rightarrow> (fs', Inr (create_app s, c))))"

definition start_worker ::
  "schema_tool \<Rightarrow> nat \<Rightarrow> bool \<Rightarrow> string list \<Rightarrow> settings \<Rightarrow> file_system \<Rightarrow> file_system \<times> (exc + container)"
where
  "start_worker t umask_mode writable variables raw fs =
     (case load_settings variables raw of
        Inl e \<Rightarrow> (fs, Inl e)
      | Inr s \<Rightarrow> start_process t umask_mode writable s Role_worker fs)"

text \<open>The commands that back up and restore the configured database.\<close>

definition backup_main ::
  "sqlite \<Rightarrow> nat \<Rightarrow> string list \<Rightarrow> settings \<Rightarrow> string \<Rightarrow> file_system \<Rightarrow> file_system \<times> (exc + string)"
where
  "backup_main q umask_mode variables raw target fs =
     (case load_settings variables raw of
        Inl e \<Rightarrow> (fs, Inl e)
      | Inr s \<Rightarrow> backup_database q umask_mode (database_path s) target fs)"

definition restore_main ::
  "sqlite \<Rightarrow> nat \<Rightarrow> string list \<Rightarrow> settings \<Rightarrow> string \<Rightarrow> string \<Rightarrow> file_system \<Rightarrow> file_system \<times> (exc + unit)"
where
  "restore_main q umask_mode variables raw backup checksum fs =
     (case load_settings variables raw of
        Inl e \<Rightarrow> (fs, Inl e)
      | Inr s \<Rightarrow> restore_database q umask_mode backup checksum (database_path s) fs)"

section \<open>What starting guarantees\<close>

lemma sort_Nil_iff [simp]: "sort xs = [] \<longleftrightarrow> xs = []"
  by (metis set_empty set_sort)

lemma load_settings_Inr:
  assumes "load_settings variables raw = Inr s"
  shows "\<exists>level. s = raw\<lparr>log_level := level\<rparr>" and "settings_in_range raw"
    and "\<forall>v \<in> set variables. \<not> starts_with ''ANALYST_'' v"
  using assms
  by (auto simp: load_settings_def bind_result_Inr_iff reject_legacy_environment_def Let_def filter_empty_conv
      split: if_splits sum.splits)

lemma teams_gateway_ready:
  assumes "validate_runtime fs writable s r = Inr ()" and "teams_enabled s"
    and "\<And>p. teams_client_secret_file s = Some p \<Longrightarrow> fs' p = fs p"
  shows "\<exists>g. teams_gateway fs' s = Inr g \<and> tc_client_secret g \<noteq> []"
proof -
  from validate_runtime_safe [OF assms(1)] assms(2) obtain t where t: "secret_value fs s Secret_teams = Inr t" "t \<noteq> []"
    by auto
  moreover have "secret_value fs' s Secret_teams = secret_value fs s Secret_teams"
    using assms(3) by (cases "teams_client_secret_file s") (auto simp: read_secret_def split: option.split list.split)
  ultimately show ?thesis by (simp add: teams_gateway_def bind_result_def)
qed

text \<open>With a valid configuration, only the database can fail.\<close>

lemma make_container_ready:
  assumes valid: "validate_runtime fs writable s r = Inr ()"
    and secret: "\<And>p. teams_client_secret_file s = Some p \<Longrightarrow> p \<noteq> database_path s"
    and m: "make_container t umask_mode s True fs = (fs', res)"
  shows "case res of
      Inl e \<Rightarrow> open_database t umask_mode (database_path s) fs = (fs', Inl e)
    | Inr c \<Rightarrow> open_database t umask_mode (database_path s) fs = (fs', Inr ()) \<and>
        token_records s = Inr (ct_records c) \<and> ct_records c \<noteq> [] \<and>
        (if teams_enabled s then \<exists>g. ct_teams c = Some g \<and> tc_client_secret g \<noteq> [] else ct_teams c = None)"
proof -
  obtain fs1 x where o: "open_database t umask_mode (database_path s) fs = (fs1, x)" by fastforce
  from o have fs1: "fs1 p = fs p" if "p \<noteq> database_path s" for p
    using open_database_guarded [OF o] that by blast
  from validate_runtime_safe [OF valid] obtain records where records: "token_records s = Inr records" "records \<noteq> []"
    by auto
  show ?thesis
  proof (cases x)
    case (Inl e)
    with m o show ?thesis by (auto simp: make_container_def)
  next
    case (Inr u)
    show ?thesis
    proof (cases "teams_enabled s")
      case True
      have "fs1 p = fs p" if "teams_client_secret_file s = Some p" for p using secret [OF that] by (rule fs1)
      from teams_gateway_ready [OF valid True this] obtain g where "teams_gateway fs1 s = Inr g" "tc_client_secret g \<noteq> []"
        by blast
      with True Inr m o records show ?thesis by (auto simp: make_container_def bind_result_def)
    next
      case False
      with Inr m o records show ?thesis by (auto simp: make_container_def bind_result_def)
    qed
  qed
qed

text \<open>
  C39: A process starts safely or not at all. Let the file of the Teams secret not be the database
  file. If the settings are out of range, name legacy variables or fail \<^verbatim>\<open>validate_runtime\<close>, the
  API stops with that error before it has touched any file. If they are valid, only opening the
  database can stop it. And if it starts, then the settings bound the attempts of a job, there is at
  least one token record, no environment variable has the legacy prefix, Teams is wired exactly if it
  is enabled and then with a non-empty secret, a production process offers no API documentation and
  its setting \<^verbatim>\<open>SPRINTER_HOST\<close> is a loopback address (a setting that is only checked: the address
  that is listened on is given to the server that runs the application), and the database file is
  private and was not another program's.
\<close>

theorem startup_sound:
  assumes "start_api t umask_mode writable variables raw fs = (fs', r)"
    and "\<And>p. teams_client_secret_file raw = Some p \<Longrightarrow> p \<noteq> database_path raw"
  shows "case load_settings variables raw of
      Inl e \<Rightarrow> fs' = fs \<and> r = Inl e
    | Inr s \<Rightarrow>
        (case validate_runtime fs writable s Role_api of
           Inl e \<Rightarrow> fs' = fs \<and> r = Inl e
         | Inr _ \<Rightarrow>
             (\<exists>e. r = Inl e \<and> open_database t umask_mode (database_path s) fs = (fs', Inl e)) \<or>
             (\<exists>app c. r = Inr (app, c) \<and> 1 \<le> job_max_attempts s \<and> ct_records c \<noteq> [] \<and>
               (\<forall>v \<in> set variables. \<not> starts_with ''ANALYST_'' v) \<and>
               (if teams_enabled s then \<exists>g. ct_teams c = Some g \<and> tc_client_secret g \<noteq> [] else ct_teams c = None) \<and>
               (environment s = ''production'' \<longrightarrow> host s \<in> {''127.0.0.1'', ''::1''} \<and> ao_docs_url app = None) \<and>
               (\<exists>content. fs' (database_path s) = Some \<lparr>file_content = content, file_mode = 384\<rparr>) \<and>
               \<not> (\<exists>f. fs (database_path s) = Some f \<and> foreign_content t (file_content f))))"
proof (cases "load_settings variables raw")
  case (Inl e)
  with assms(1) show ?thesis by (simp add: start_api_def)
next
  case (Inr s)
  note loaded = load_settings_Inr [OF Inr]
  show ?thesis
  proof (cases "validate_runtime fs writable s Role_api")
    case (Inl e)
    with Inr assms(1) show ?thesis by (simp add: start_api_def start_process_def)
  next
    case valid: (Inr u)
    from valid have ok: "validate_runtime fs writable s Role_api = Inr ()" by simp
    obtain fs1 res where m: "make_container t umask_mode s True fs = (fs1, res)" by fastforce
    have api: "start_api t umask_mode writable variables raw fs =
        (fs1, bind_result res (\<lambda>c. Inr (create_app s, c)))"
      by (cases res) (simp_all add: start_api_def start_process_def Inr valid m)
    have secret: "p \<noteq> database_path s" if "teams_client_secret_file s = Some p" for p
      using assms(2) [of p] loaded(1) that by auto
    note made = make_container_ready [OF ok secret m]
    show ?thesis
    proof (cases res)
      case (Inl e)
      with made api assms(1) valid Inr show ?thesis by auto
    next
      case res: (Inr c)
      with made have o: "open_database t umask_mode (database_path s) fs = (fs1, Inr ())" by simp
      have installed: "\<exists>content. fs1 (database_path s) = Some \<lparr>file_content = content, file_mode = 384\<rparr>"
        "\<not> (\<exists>f. fs (database_path s) = Some f \<and> foreign_content t (file_content f))"
        using open_database_guarded [OF o] by blast+
      have attempts: "1 \<le> job_max_attempts s" using loaded(1,2) by (auto simp: settings_in_range_def)
      have app: "environment s = ''production'' \<longrightarrow> host s \<in> {''127.0.0.1'', ''::1''} \<and> ao_docs_url (create_app s) = None"
        using validate_runtime_safe [OF ok] by (simp add: create_app_def)
      have r: "fs' = fs1" "r = Inr (create_app s, c)" using api assms(1) res by simp_all
      from made res have c: "ct_records c \<noteq> []"
        "if teams_enabled s then \<exists>g. ct_teams c = Some g \<and> tc_client_secret g \<noteq> [] else ct_teams c = None" by simp_all
      show ?thesis
        unfolding Inr valid sum.case r(1)
        by (intro disjI2 exI [of _ "create_app s"] exI [of _ c] conjI r(2) attempts c app loaded(3) installed)
    qed
  qed
qed

text \<open>
  After a disaster: on a database that \<^verbatim>\<open>restore\<close> installed, the API starts, if its
  settings are valid, and changes no file.
\<close>

lemma restored_api_starts:
  assumes restored: "restore_main q m variables raw backup checksum fs = (fs', Inr ())"
    and loaded: "load_settings variables raw = Inr s" and valid: "validate_runtime fs' writable s Role_api = Inr ()"
    and paths: "database_path s @ ''.restoring'' \<noteq> backup"
      "\<And>p. teams_client_secret_file s = Some p \<Longrightarrow> p \<noteq> database_path s"
    and tool: "\<And>c r. sq_revision q c = Inr (Some r) \<Longrightarrow> \<exists>ts. st_tables t c = Inr ts \<and> ''alembic_version'' \<in> set ts"
      "\<And>c. sq_revision q c = Inr (Some SUPPORTED_REVISION) \<Longrightarrow> st_upgrade t c = (c, None)"
  shows "\<exists>app c. start_api t umask_mode writable variables raw fs' = (fs', Inr (app, c))"
proof -
  have r: "restore_database q m backup checksum (database_path s) fs = (fs', Inr ())"
    using restored loaded by (simp add: restore_main_def)
  have o: "open_database t umask_mode (database_path s) fs' = (fs', Inr ())"
    using restored_database_opens [OF r paths(1), of t umask_mode] tool by blast
  obtain fs1 res where c: "make_container t umask_mode s True fs' = (fs1, res)" by fastforce
  from make_container_ready [OF valid paths(2) c] o have "fs1 = fs' \<and> (\<exists>x. res = Inr x)"
    by (cases res) simp_all
  with c show ?thesis by (auto simp: start_api_def start_process_def loaded valid)
qed

section \<open>Witness\<close>

lemma sample_loads: "load_settings [''PATH''] sample_settings = Inr sample_settings"
proof -
  have "settings_in_range sample_settings"
    by (simp add: settings_in_range_def sample_settings_def default_settings_def)
  moreover have "validate_log_level (log_level sample_settings) = Inr (log_level sample_settings)"
    by (simp add: validate_log_level_def sample_settings_def default_settings_def ascii_upper_def code_of_def)
  moreover have "reject_legacy_environment [''PATH''] = Inr ()"
    by (simp add: reject_legacy_environment_def starts_with_def)
  ultimately show ?thesis by (simp add: load_settings_def bind_result_def)
qed

lemma startup_sound_witness:
  "\<exists>fs' app c. start_api sample_tool 420 True [''PATH''] sample_settings sample_files = (fs', Inr (app, c)) \<and>
    ct_records c \<noteq> [] \<and> ao_docs_url app = None"
proof -
  have ok: "validate_runtime sample_files True sample_settings Role_api = Inr ()"
    using sample_settings_ok unfolding validate_runtime_ok_iff by (simp add: host_errors_def)
  have db: "database_path sample_settings = ''/var/lib/sprinter/sprinter.db''" "environment sample_settings = ''production''"
    "teams_client_secret_file sample_settings = None"
    by (simp_all add: sample_settings_def default_settings_def)
  obtain fs' r where run: "start_api sample_tool 420 True [''PATH''] sample_settings sample_files = (fs', r)" by fastforce
  have "snd (open_database sample_tool 420 (database_path sample_settings) sample_files) = Inr ()"
    by (simp add: db open_database_def reject_legacy_def migrate_def sample_files_def sample_tool_def)
  with startup_sound [OF run] show ?thesis
    using run by (auto simp: sample_loads ok db)
qed

end
