(* ===== verification/SeerBridge.thy ===== *)
theory SeerBridge
  imports Integrations JsonRoundtrip Schemas
begin

text \<open>
  The command-line scripts: \<^verbatim>\<open>scripts/submit_seer_run.py\<close>, which submits a finished run of
  the detection pipeline to the API, and \<^verbatim>\<open>scripts/hash_token.py\<close>, which prints the verifier
  of a token. One HTTP exchange (its answer may be a redirect, which the script refuses), the key derivation and the checks of the standard library on
  bracketed or non-ASCII host names are arguments; files are as in \<open>Config\<close>, with their
  contents decoded.

  The lemmas show that every payload the script builds is a request the API accepts, under a key
  of admissible length, and that the printed verifier is the one the configuration makes.
\<close>

section \<open>Splitting a URL\<close>

text \<open>\<^verbatim>\<open>urlsplit\<close> as far as the script reads its result.\<close>

record url_parts =
  up_scheme :: string
  up_netloc :: string
  up_query :: string
  up_fragment :: string

definition scheme_char :: "char \<Rightarrow> bool" where
  "scheme_char c = (is_ascii_letter c \<or> is_digit c \<or> c \<in> set ''+-.'')"

definition text_before :: "char \<Rightarrow> string \<Rightarrow> string" where
  "text_before c s = takeWhile (\<lambda>x. x \<noteq> c) s"

definition text_after :: "char \<Rightarrow> string \<Rightarrow> string" where
  "text_after c s = drop 1 (dropWhile (\<lambda>x. x \<noteq> c) s)"

definition split_scheme :: "string \<Rightarrow> string \<times> string" where
  "split_scheme url =
     (case text_before (CHR '':'') url of
        c # cs \<Rightarrow> if CHR '':'' \<in> set url \<and> is_ascii_letter c \<and> list_all scheme_char (c # cs)
                   then (lower (c # cs), text_after (CHR '':'') url) else ([], url)
      | [] \<Rightarrow> ([], url))"

definition urlsplit :: "(string \<Rightarrow> bool) \<Rightarrow> string \<Rightarrow> exc + url_parts" where
  "urlsplit netloc_ok url0 =
     (let url = filter (\<lambda>c. code_of c \<notin> {9, 10, 13}) (dropWhile (\<lambda>c. code_of c \<le> 32) url0);
          (scheme, rest) = split_scheme url;
          absolute = starts_with ''//'' rest;
          netloc = (if absolute then takeWhile (\<lambda>c. c \<notin> set ''/?#'') (drop 2 rest) else []);
          path = (if absolute then dropWhile (\<lambda>c. c \<notin> set ''/?#'') (drop 2 rest) else rest) in
      if (CHR ''['' \<in> set netloc) \<noteq> (CHR '']'' \<in> set netloc) \<or> \<not> netloc_ok netloc
      then Inl (ValueError, ''Invalid URL'')
      else Inr \<lparr>up_scheme = scheme, up_netloc = netloc,
             up_query = text_after (CHR ''?'') (text_before (CHR ''#'') path), up_fragment = text_after (CHR ''#'') path\<rparr>)"

text \<open>The host and the user information: what follows and precedes the last \<^verbatim>\<open>@\<close>.\<close>

definition hostinfo :: "string \<Rightarrow> string" where
  "hostinfo netloc = rev (text_before (CHR ''@'') (rev netloc))"

definition userinfo :: "string \<Rightarrow> string" where
  "userinfo netloc = rev (text_after (CHR ''@'') (rev netloc))"

definition hostname :: "string \<Rightarrow> string" where
  "hostname netloc =
     (let info = hostinfo netloc;
          host = (if CHR ''['' \<in> set info then text_before (CHR '']'') (text_after (CHR ''['') info) else text_before (CHR '':'') info) in
      lower (text_before (CHR ''%'') host) @ dropWhile (\<lambda>c. c \<noteq> CHR ''%'') host)"

definition username :: "string \<Rightarrow> string" where
  "username netloc = text_before (CHR '':'') (userinfo netloc)"

definition password :: "string \<Rightarrow> string" where
  "password netloc = text_after (CHR '':'') (userinfo netloc)"

section \<open>Reading the inputs\<close>

definition MAX_SUMMARY_BYTES :: nat where "MAX_SUMMARY_BYTES = 1048576"

definition LOCAL_HOSTS :: "string set" where "LOCAL_HOSTS = {''127.0.0.1'', ''::1'', ''localhost''}"

text \<open>The length of a text in UTF-8; code points above 255 are not modelled.\<close>

definition utf8_bytes :: "string \<Rightarrow> nat" where
  "utf8_bytes t = sum_list (map (\<lambda>c. if code_of c < 128 then 1 else 2) t)"

definition private_text_file :: "file_system \<Rightarrow> string \<Rightarrow> string \<Rightarrow> exc + string" where
  "private_text_file fs path label =
     (case fs path of
        None \<Rightarrow> Inl (ValueError, label @ '' is not a readable file: '' @ path)
      | Some f \<Rightarrow>
          if \<not> private_file fs path
          then Inl (ValueError, label @ '' must not be accessible by group or other users: '' @ path)
          else (let v = strip (file_content f) in
                if length v < 24 then Inl (ValueError, label @ '' must contain at least 24 characters'') else Inr v))"

definition load_summary :: "file_system \<Rightarrow> string \<Rightarrow> exc + json dict" where
  "load_summary fs path =
     (case fs path of
        None \<Rightarrow> Inl (ValueError, ''summary is not a readable file: '' @ path)
      | Some f \<Rightarrow>
          if MAX_SUMMARY_BYTES < utf8_bytes (file_content f)
          then Inl (ValueError, ''summary exceeds '' @ str_of_int (int MAX_SUMMARY_BYTES) @ '' bytes'')
          else (case json_loads (file_content f) of
                  None \<Rightarrow> Inl (JSONDecodeError, ''malformed summary'')
                | Some (JObj d) \<Rightarrow> Inr d
                | Some _ \<Rightarrow> Inl (ValueError, ''summary must contain one JSON object'')))"

definition endpoint :: "(string \<Rightarrow> bool) \<Rightarrow> string \<Rightarrow> exc + string" where
  "endpoint netloc_ok base_url =
     bind_result (urlsplit netloc_ok base_url) (\<lambda>u.
       if up_scheme u \<notin> {''http'', ''https''} \<or> hostname (up_netloc u) = []
       then Inl (ValueError, ''Sprinter URL must be an absolute HTTP(S) URL'')
       else if username (up_netloc u) \<noteq> [] \<or> password (up_netloc u) \<noteq> [] \<or> up_query u \<noteq> [] \<or> up_fragment u \<noteq> []
       then Inl (ValueError, ''Sprinter URL must not contain credentials, a query, or a fragment'')
       else if up_scheme u \<noteq> ''https'' \<and> hostname (up_netloc u) \<notin> LOCAL_HOSTS
       then Inl (ValueError, ''Sprinter URL must use HTTPS except for a local loopback address'')
       else Inr (strip_slashes base_url @ ''/api/v1/review-jobs''))"

section \<open>The payload\<close>

definition build_payload :: "json dict \<Rightarrow> string option \<Rightarrow> exc + json dict \<times> string" where
  "build_payload summary run_id =
     (let selected = (case run_id of Some (c # cs) \<Rightarrow> JStr (c # cs) | _ \<Rightarrow> get_or_none summary ''run_id'') in
      case selected of
        JStr r \<Rightarrow>
          if strip r = [] then Inl (ValueError, ''run_id must be supplied or present in the summary'')
          else if 96 < length (strip r) then Inl (ValueError, ''run_id must not exceed 96 characters'')
          else (case optional summary ''workflow'' (JStr ''stix_ingest'') of
             JStr w \<Rightarrow>
               if strip w = [] then Inl (ValueError, ''workflow must be a non-empty string'')
               else if 128 < length (strip w) then Inl (ValueError, ''workflow must not exceed 128 characters'')
               else Inr ([(''selector'', JObj [(''type'', JStr ''run''), (''run_id'', JStr (strip r)),
                              (''workflow'', JStr (strip w))]),
                          (''source'', JStr ''seer-stix-runner''), (''summary'', JObj summary),
                          (''limit'', JInt 20)], strip r)
           | _ \<Rightarrow> Inl (ValueError, ''workflow must be a non-empty string''))
      | _ \<Rightarrow> Inl (ValueError, ''run_id must be supplied or present in the summary''))"

section \<open>Submission\<close>

record submission =
  su_url :: string
  su_authorization :: string
  su_idempotency_key :: string
  su_body :: string

text \<open>\<open>http\<close> gives the status and the body of the response, or the exception of the opener.\<close>

definition submit ::
  "(string \<Rightarrow> bool) \<Rightarrow> (submission \<Rightarrow> exc + nat \<times> string) \<Rightarrow> string \<Rightarrow> string \<Rightarrow> json dict \<Rightarrow> string \<Rightarrow> exc + json dict"
where
  "submit netloc_ok http base_url token payload key =
     bind_result (endpoint netloc_ok base_url) (\<lambda>url.
     bind_result (http \<lparr>su_url = url, su_authorization = ''Bearer '' @ token, su_idempotency_key = key,
                        su_body = dumps (JObj payload)\<rparr>) (\<lambda>(status, body).
       if status \<noteq> 202 then Inl (RuntimeError, ''Sprinter returned unexpected HTTP '' @ str_of_int (int status))
       else (case json_loads body of
               None \<Rightarrow> Inl (JSONDecodeError, ''malformed response'')
             | Some (JObj d) \<Rightarrow> Inr d
             | Some _ \<Rightarrow> Inl (RuntimeError, ''Sprinter returned a non-object response''))))"

text \<open>
  The opener the script builds: an answer outside the two hundreds is an error, and a redirect is
  one as well, because \<^verbatim>\<open>NoRedirect\<close> names no request to follow it with. \<open>http\<close> is the exchange
  of one request.
\<close>

record http_answer =
  ha_status :: nat
  ha_location :: string
  ha_body :: string

definition redirect_request :: "submission \<Rightarrow> nat \<Rightarrow> string \<Rightarrow> submission option" where
  "redirect_request req code newurl = None"

definition open_url :: "(submission \<Rightarrow> exc + http_answer) \<Rightarrow> submission \<Rightarrow> exc + nat \<times> string" where
  "open_url http req = bind_result (http req) (\<lambda>a.
     if 200 \<le> ha_status a \<and> ha_status a < 300 then Inr (ha_status a, ha_body a)
     else case (if ha_status a \<in> {301, 302, 303, 307, 308} then redirect_request req (ha_status a) (ha_location a) else None) of
            Some followed \<Rightarrow> bind_result (http followed) (\<lambda>b. Inr (ha_status b, ha_body b))
          | None \<Rightarrow> Inl (Foreign ''HTTPError'', ''HTTP Error '' @ str_of_int (int (ha_status a))))"

lemma open_url_Inr:
  "open_url http req = Inr (status, body) \<longleftrightarrow>
     (\<exists>a. http req = Inr a \<and> ha_status a = status \<and> ha_body a = body \<and> 200 \<le> status \<and> status < 300)"
  by (cases "http req") (auto simp: open_url_def redirect_request_def)

record arguments =
  ar_sprinter_url :: string
  ar_token_file :: string
  ar_summary_file :: string
  ar_run_id :: "string option"
  ar_idempotency_key :: "string option"

definition seer_key :: "string option \<Rightarrow> string \<Rightarrow> string" where
  "seer_key given run_id = (case given of Some (c # cs) \<Rightarrow> c # cs | _ \<Rightarrow> ''seer:osint-bot:'' @ run_id)"

definition seer_run ::
  "(string \<Rightarrow> bool) \<Rightarrow> (submission \<Rightarrow> exc + http_answer) \<Rightarrow> file_system \<Rightarrow> arguments \<Rightarrow> exc + json dict"
where
  "seer_run netloc_ok http fs a =
     bind_result (private_text_file fs (ar_token_file a) ''token file'') (\<lambda>token.
     bind_result (load_summary fs (ar_summary_file a)) (\<lambda>summary.
     bind_result (build_payload summary (ar_run_id a)) (\<lambda>(payload, run_id).
       submit netloc_ok (open_url http) (ar_sprinter_url a) token payload (seer_key (ar_idempotency_key a) run_id))))"

text \<open>The exit status and what is printed; an exception of another class leaves \<^verbatim>\<open>main\<close>.\<close>

definition seer_main ::
  "(string \<Rightarrow> bool) \<Rightarrow> (submission \<Rightarrow> exc + http_answer) \<Rightarrow> file_system \<Rightarrow> arguments \<Rightarrow> exc + nat \<times> json"
where
  "seer_main netloc_ok http fs a =
     (case seer_run netloc_ok http fs a of
        Inr result \<Rightarrow> Inr (0, JObj result)
      | Inl e \<Rightarrow>
          if caught [ValueError, RuntimeError, Foreign ''HTTPError'', Foreign ''URLError''] e
          then Inr (1, JStr (''submission failed: '' @ snd e)) else Inl e)"

section \<open>Hashing a token\<close>

text \<open>\<^verbatim>\<open>hash_token.main\<close>: the exit status and the printed verifier.\<close>

definition hash_token_main :: "(string \<Rightarrow> string \<Rightarrow> string) \<Rightarrow> string \<Rightarrow> string \<Rightarrow> nat \<times> string" where
  "hash_token_main kdf urandom token =
     (if length token < 24 then (2, ''token must contain at least 24 characters'')
      else (0, ''scrypt_16384_8_1_'' @ hex_of_bytes urandom @ ''_'' @ hex_of_bytes (kdf token urandom)))"

lemma hash_token_main_verifier:
  assumes "length urandom = 16" and "hash_token_main kdf urandom token = (0, v)"
  shows "make_token_verifier kdf [] token urandom = Inr v"
proof -
  have "urandom \<noteq> []" using assms(1) by auto
  with assms show ?thesis
    by (auto simp: hash_token_main_def make_token_verifier_def verifier_prefix_def split: if_splits)
qed

section \<open>The API accepts what the script sends\<close>

lemma load_summary_wf: "load_summary fs path = Inr d \<Longrightarrow> wf_json (JObj d)"
  by (auto simp: load_summary_def simp del: wf_json.simps split: option.splits if_splits json.splits dest: json_loads_wf)

text \<open>
  The run a submission is for: the one given to the script, or else the one the summary names; and
  its workflow. The payload is to carry these.
\<close>

definition names_run :: "json dict \<Rightarrow> string option \<Rightarrow> string \<Rightarrow> bool" where
  "names_run summary given run =
     (if given \<in> {None, Some []} then \<exists>r. dict_get summary ''run_id'' = Some (JStr r) \<and> run = strip r
      else run = strip (the given))"

definition names_workflow :: "json dict \<Rightarrow> string \<Rightarrow> bool" where
  "names_workflow summary workflow =
     (case dict_get summary ''workflow'' of
        None \<Rightarrow> workflow = ''stix_ingest''
      | Some v \<Rightarrow> (\<exists>w. v = JStr w \<and> workflow = strip w))"

lemma build_payload_names:
  assumes "build_payload summary run_id = Inr (payload, r)"
  obtains w where "payload = [(''selector'', JObj [(''type'', JStr ''run''), (''run_id'', JStr r), (''workflow'', JStr w)]),
      (''source'', JStr ''seer-stix-runner''), (''summary'', JObj summary), (''limit'', JInt 20)]"
    "1 \<le> length r" "length r \<le> 96" "1 \<le> length w" "length w \<le> 128"
    "names_run summary run_id r" "names_workflow summary w"
proof -
  let ?selected = "case run_id of Some (c # cs) \<Rightarrow> JStr (c # cs) | _ \<Rightarrow> get_or_none summary ''run_id''"
  let ?workflow = "optional summary ''workflow'' (JStr ''stix_ingest'')"
  obtain x where x: "?selected = JStr x"
    using assms unfolding build_payload_def Let_def by (cases ?selected) simp_all
  have ok: "strip x \<noteq> []" "length (strip x) \<le> 96"
    using assms unfolding build_payload_def Let_def x by (simp_all split: if_split_asm)
  obtain y where y: "?workflow = JStr y"
    using assms ok unfolding build_payload_def Let_def x by (cases ?workflow) simp_all
  have "strip y \<noteq> []" "length (strip y) \<le> 128" and r: "r = strip x"
    and p: "payload = [(''selector'', JObj [(''type'', JStr ''run''), (''run_id'', JStr (strip x)), (''workflow'', JStr (strip y))]),
      (''source'', JStr ''seer-stix-runner''), (''summary'', JObj summary), (''limit'', JInt 20)]"
    using assms ok unfolding build_payload_def Let_def x y by (auto split: if_split_asm)
  moreover have "names_run summary run_id (strip x)"
    using x by (auto simp: names_run_def get_or_none_def split: option.splits list.splits)
  moreover have "strip ''stix_ingest'' = ''stix_ingest''" by code_simp
  then have "names_workflow summary (strip y)"
    using y by (auto simp: names_workflow_def optional_def split: option.splits)
  ultimately show thesis using ok that [of "strip y"] by (simp add: r p Suc_le_eq)
qed

text \<open>The built payload, written and read back, is a valid request for the run.\<close>

lemma build_payload_valid:
  assumes "build_payload summary run_id = Inr (payload, r)" and "wf_json (JObj summary)"
  obtains v w where "names_run summary run_id r" "names_workflow summary w" "json_loads (dumps (JObj payload)) = Some v" "1 \<le> length r" "length r \<le> 96"
    "validate_review_request v = Inr \<lparr>rr_selector = RunSelector r (Some w), rr_source = ''seer-stix-runner'',
       rr_summary = members (sort_keys (JObj summary)), rr_limit = 20\<rparr>"
proof -
  obtain w where p: "payload = [(''selector'', JObj [(''type'', JStr ''run''), (''run_id'', JStr r), (''workflow'', JStr w)]),
      (''source'', JStr ''seer-stix-runner''), (''summary'', JObj summary), (''limit'', JInt 20)]"
    and bounds: "1 \<le> length r" "length r \<le> 96" "1 \<le> length w" "length w \<le> 128"
    and names: "names_run summary run_id r" "names_workflow summary w"
    using assms(1) by (rule build_payload_names)
  have wf: "wf_json (JObj payload)" using assms(2) by (simp add: p)
  have get: "dict_get (members (sort_keys (JObj payload))) k = map_option sort_keys (dict_get payload k)" for k
    by (rule dict_get_sort_keys) (rule wf)
  let ?sel = "[(''type'', JStr ''run''), (''run_id'', JStr r), (''workflow'', JStr w)]"
  have sel: "dict_get (members (sort_keys (JObj ?sel))) k = map_option sort_keys (dict_get ?sel k)" for k
    by (rule dict_get_sort_keys) simp
  obtain s_sel s_summary s_payload where obj: "sort_keys (JObj ?sel) = JObj s_sel"
      "sort_keys (JObj summary) = JObj s_summary" "sort_keys (JObj payload) = JObj s_payload"
    by (simp add: sort_keys.simps)
  have "validate_selector (JObj s_sel) = Inr (RunSelector r (Some w))"
    using bounds sel by (simp add: obj members_def validate_selector_def required_def optional_def
        check_literal_def check_str_def check_optional_str_def del: sort_keys.simps(2))
  moreover have "dict_get s_payload k = map_option sort_keys (dict_get payload k)" for k
    using get by (simp add: obj(3) members_def del: sort_keys.simps(2))
  ultimately have "validate_review_request (JObj s_payload) =
      Inr \<lparr>rr_selector = RunSelector r (Some w), rr_source = ''seer-stix-runner'',
        rr_summary = members (sort_keys (JObj summary)), rr_limit = 20\<rparr>"
    by (simp add: p validate_review_request_def required_def optional_def obj members_def check_str_def check_nat_def
        del: sort_keys.simps(2))
  moreover have "json_loads (dumps (JObj payload)) = Some (JObj s_payload)"
    using json_loads_dumps [OF wf] by (simp only: obj)
  ultimately show thesis using that bounds names by blast
qed

lemma endpoint_Inr:
  assumes "endpoint netloc_ok base_url = Inr url"
  shows "url = strip_slashes base_url @ ''/api/v1/review-jobs''"
    and "\<exists>u. urlsplit netloc_ok base_url = Inr u \<and> username (up_netloc u) = [] \<and> password (up_netloc u) = [] \<and>
      (up_scheme u = ''https'' \<or> up_scheme u = ''http'' \<and> hostname (up_netloc u) \<in> LOCAL_HOSTS)"
  using assms by (auto simp: endpoint_def bind_result_Inr_iff split: if_splits)

lemma private_text_file_Inr:
  "private_text_file fs path label = Inr t \<Longrightarrow>
    private_file fs path \<and> 24 \<le> length t \<and> (\<exists>f. fs path = Some f \<and> t = strip (file_content f))"
  by (auto simp: private_text_file_def Let_def split: option.splits if_splits)

lemma load_summary_Inr:
  "load_summary fs path = Inr d \<Longrightarrow> \<exists>f. fs path = Some f \<and> json_loads (file_content f) = Some (JObj d)"
  by (auto simp: load_summary_def split: option.splits if_splits json.splits)

text \<open>
  A submission by the script that succeeds is one the API accepts and exposes no secret. What
  was sent, read as JSON, is a valid review request for the run and the workflow that the arguments
  and the summary file name, with that summary, under the key given or else a key made of the run
  id whose length is admissible; it carries the token of at least 24 characters from a file private
  to its owner; and it went to the API's path at the address given, which is an HTTPS address or
  this host, without credentials in it.
\<close>

theorem seer_submission_accepted:
  assumes "seer_run netloc_ok http fs a = Inr result"
  shows "\<exists>sub answer v run w summary t f u.
    http sub = Inr answer \<and> ha_status answer = 202 \<and> json_loads (ha_body answer) = Some (JObj result) \<and>
    fs (ar_summary_file a) = Some f \<and> json_loads (file_content f) = Some (JObj summary) \<and>
    names_run summary (ar_run_id a) run \<and> names_workflow summary w \<and>
    json_loads (su_body sub) = Some v \<and>
    validate_review_request v = Inr \<lparr>rr_selector = RunSelector run (Some w), rr_source = ''seer-stix-runner'',
       rr_summary = members (sort_keys (JObj summary)), rr_limit = 20\<rparr> \<and>
    su_idempotency_key sub = seer_key (ar_idempotency_key a) run \<and>
    8 \<le> length (seer_key None run) \<and> length (seer_key None run) \<le> 128 \<and>
    fs (ar_token_file a) = Some t \<and> private_file fs (ar_token_file a) \<and> 24 \<le> length (strip (file_content t)) \<and>
    su_authorization sub = ''Bearer '' @ strip (file_content t) \<and>
    su_url sub = strip_slashes (ar_sprinter_url a) @ ''/api/v1/review-jobs'' \<and>
    urlsplit netloc_ok (ar_sprinter_url a) = Inr u \<and> username (up_netloc u) = [] \<and> password (up_netloc u) = [] \<and>
    (up_scheme u = ''https'' \<or> up_scheme u = ''http'' \<and> hostname (up_netloc u) \<in> LOCAL_HOSTS)"
proof -
  from assms obtain token summary payload run where
    t: "private_text_file fs (ar_token_file a) ''token file'' = Inr token" and
    s: "load_summary fs (ar_summary_file a) = Inr summary" and
    p: "build_payload summary (ar_run_id a) = Inr (payload, run)" and
    sub: "submit netloc_ok (open_url http) (ar_sprinter_url a) token payload (seer_key (ar_idempotency_key a) run) = Inr result"
    by (auto simp: seer_run_def bind_result_Inr_iff)
  obtain v w where n: "names_run summary (ar_run_id a) run" "names_workflow summary w" and
    v: "json_loads (dumps (JObj payload)) = Some v" "1 \<le> length run" "length run \<le> 96"
    "validate_review_request v = Inr \<lparr>rr_selector = RunSelector run (Some w), rr_source = ''seer-stix-runner'',
       rr_summary = members (sort_keys (JObj summary)), rr_limit = 20\<rparr>"
    using build_payload_valid [OF p load_summary_wf [OF s]] by blast
  from sub obtain url answer where url: "endpoint netloc_ok (ar_sprinter_url a) = Inr url" and
    answer: "http \<lparr>su_url = url, su_authorization = ''Bearer '' @ token,
      su_idempotency_key = seer_key (ar_idempotency_key a) run, su_body = dumps (JObj payload)\<rparr> = Inr answer"
      "ha_status answer = 202" "json_loads (ha_body answer) = Some (JObj result)"
    by (auto simp: submit_def bind_result_Inr_iff open_url_Inr split: if_splits option.splits json.splits)
  obtain tf where tf: "fs (ar_token_file a) = Some tf" "token = strip (file_content tf)"
    "private_file fs (ar_token_file a)" "24 \<le> length token" using private_text_file_Inr [OF t] by blast
  obtain f where f: "fs (ar_summary_file a) = Some f" "json_loads (file_content f) = Some (JObj summary)"
    using load_summary_Inr [OF s] by blast
  obtain u where u: "urlsplit netloc_ok (ar_sprinter_url a) = Inr u" "username (up_netloc u) = []"
    "password (up_netloc u) = []"
    "up_scheme u = ''https'' \<or> up_scheme u = ''http'' \<and> hostname (up_netloc u) \<in> LOCAL_HOSTS"
    using endpoint_Inr(2) [OF url] by blast
  show ?thesis
    by (intro exI [of _ "\<lparr>su_url = url, su_authorization = ''Bearer '' @ token,
        su_idempotency_key = seer_key (ar_idempotency_key a) run, su_body = dumps (JObj payload)\<rparr>"]
        exI [of _ answer] exI [of _ v] exI [of _ run] exI [of _ w] exI [of _ summary] exI [of _ tf] exI [of _ f] exI [of _ u])
      (use answer n v f tf u endpoint_Inr(1) [OF url] in \<open>simp add: seer_key_def\<close>)
qed

definition seer_files :: file_system where
  "seer_files = [''/token'' \<mapsto> \<lparr>file_content = replicate 24 (CHR ''t''), file_mode = 384\<rparr>,
     ''/summary'' \<mapsto> \<lparr>file_content = dumps (JObj [(''run_id'', JStr ''r1'')]), file_mode = 420\<rparr>]"

definition seer_arguments :: arguments where
  "seer_arguments = \<lparr>ar_sprinter_url = ''http://localhost:8080/'', ar_token_file = ''/token'',
     ar_summary_file = ''/summary'', ar_run_id = None, ar_idempotency_key = None\<rparr>"

definition seer_payload :: "json dict" where
  "seer_payload = [(''selector'', JObj [(''type'', JStr ''run''), (''run_id'', JStr ''r1''), (''workflow'', JStr ''stix_ingest'')]),
     (''source'', JStr ''seer-stix-runner''), (''summary'', JObj [(''run_id'', JStr ''r1'')]), (''limit'', JInt 20)]"

lemma seer_payload_built: "build_payload [(''run_id'', JStr ''r1'')] None = Inr (seer_payload, ''r1'')"
proof -
  have "strip ''r1'' = ''r1''" "strip ''stix_ingest'' = ''stix_ingest''" by code_simp+
  then show ?thesis by (simp add: build_payload_def get_or_none_def optional_def seer_payload_def)
qed

definition seer_request :: submission where
  "seer_request = \<lparr>su_url = ''http://localhost:8080/api/v1/review-jobs'',
     su_authorization = ''Bearer '' @ replicate 24 (CHR ''t''), su_idempotency_key = ''seer:osint-bot:r1'',
     su_body = dumps (JObj seer_payload)\<rparr>"

text \<open>The sample run sends the sample request, and ends well if it is answered with 202 and an object.\<close>

lemma seer_sample_sends:
  assumes "http seer_request = Inr answer" and "ha_status answer = 202" and "ha_body answer = dumps (JObj [])"
  shows "seer_run (\<lambda>_. True) http seer_files seer_arguments = Inr []"
proof -
  have "strip (replicate 24 (CHR ''t'')) = replicate 24 (CHR ''t'')" by code_simp
  then have "private_text_file seer_files ''/token'' ''token file'' = Inr (replicate 24 (CHR ''t''))"
    by (simp add: private_text_file_def private_file_def seer_files_def)
  moreover have "utf8_bytes (dumps (JObj [(''run_id'', JStr ''r1'')])) = 15" by code_simp
  then have "load_summary seer_files ''/summary'' = Inr [(''run_id'', JStr ''r1'')]"
    using json_loads_dumps [of "JObj [(''run_id'', JStr ''r1'')]"]
    by (simp add: load_summary_def seer_files_def MAX_SUMMARY_BYTES_def)
  moreover have "endpoint (\<lambda>_. True) ''http://localhost:8080/'' = Inr ''http://localhost:8080/api/v1/review-jobs''"
    by code_simp
  moreover have "json_loads (dumps (JObj [])) = Some (JObj [])" using json_loads_dumps [of "JObj []"] by simp
  ultimately show ?thesis using assms
    by (simp add: seer_run_def seer_arguments_def submit_def seer_payload_built seer_key_def seer_request_def open_url_def)
qed

lemma seer_sample_run:
  "seer_run (\<lambda>_. True) (\<lambda>_. Inr \<lparr>ha_status = 202, ha_location = [], ha_body = dumps (JObj [])\<rparr>) seer_files seer_arguments = Inr []"
  by (rule seer_sample_sends, rule refl) simp_all

lemma seer_submission_accepted_witness:
  "\<exists>u. urlsplit (\<lambda>_. True) ''http://localhost:8080/'' = Inr u \<and> hostname (up_netloc u) \<in> LOCAL_HOSTS \<and>
     private_file seer_files ''/token''"
proof -
  obtain u where u: "urlsplit (\<lambda>_. True) ''http://localhost:8080/'' = Inr u"
      "up_scheme u = ''https'' \<or> up_scheme u = ''http'' \<and> hostname (up_netloc u) \<in> LOCAL_HOSTS"
      "private_file seer_files ''/token''"
    using seer_submission_accepted [OF seer_sample_run] by (auto simp: seer_arguments_def)
  have "urlsplit (\<lambda>_. True) ''http://localhost:8080/'' =
      Inr \<lparr>up_scheme = ''http'', up_netloc = ''localhost:8080'', up_query = [], up_fragment = []\<rparr>" by code_simp
  with u show ?thesis by auto
qed

end
