(* ===== verification/EndToEnd.thy ===== *)
theory EndToEnd
  imports SeerBridge Responses
begin

text \<open>
  The submission script and the API together: the script's request arrives at the API as the
  framework hands it on, through the body limit and with the header split into scheme and token,
  and the answer goes back as a status and a text (\<open>to_text\<close> prints the JSON value).

  The lemmas show which job an accepted submission is answered with, whatever the request that
  found it saw, and that a run of the script that ends well has submitted the run it was called for.
\<close>

definition received ::
  "api_env \<Rightarrow> settings \<Rightarrow> string option \<Rightarrow> (json \<Rightarrow> string) \<Rightarrow> api_state \<Rightarrow> submission \<Rightarrow>
   api_state \<times> http_answer"
where
  "received v s client_host to_text st sub =
     (let c = \<lparr>ca_credentials = Some (text_before (CHR '' '') (su_authorization sub), text_after (CHR '' '') (su_authorization sub)),
               ca_host = client_host\<rparr>;
          req = Create_review_job (json_loads (su_body sub)) (Some (su_idempotency_key sub));
          passed = snd (body_limit (max_body_bytes s) [(''content-length'', str_of_int (int (length (su_body sub))))]
            (\<lambda>got. if got = [] then None else Some ()) [Http_request (su_body sub) False]);
          (st', answer) = (case passed of Inl e \<Rightarrow> (st, Inl e) | Inr _ \<Rightarrow> serve v s c req st);
          (code, body) = respond (send_reply req answer) in
      (st', \<lparr>ha_status = code, ha_location = [], ha_body = to_text body\<rparr>))"

section \<open>What an accepted submission leaves\<close>

text \<open>What a job stores of its request, and a later submission of its key is compared with.\<close>

definition stored_request :: "settings \<Rightarrow> review_request \<Rightarrow> string \<times> string \<times> string \<times> string \<times> nat" where
  "stored_request s rq =
     (selector_type (rr_selector rq), dumps (JObj (dump_selector (rr_selector rq))), take 128 (rr_source rq),
      dumps (redact (redaction_keys s) (JObj (rr_summary rq))), min (rr_limit rq) (prompt_max_rows s))"

text \<open>
  The job a submission is answered with, when its select reads the database \<open>seen\<close> and its insert
  runs on \<open>db\<close>: the one the select found, a new one, or the one that took the key in between, whose
  request nobody compares.
\<close>

definition keys_of :: "database \<Rightarrow> string set" where
  "keys_of db = j_idempotency_key ` set (jobs db)"

lemma create_job_answer:
  assumes "create_job s now hex seen key t sel src sm n db = (db', Inr (j, created))"
  shows "jobs db' = jobs db @ (if created then [j] else []) \<and> created = (key \<notin> keys_of seen \<union> keys_of db) \<and>
    j \<in> set (jobs (if key \<in> keys_of seen then seen else db')) \<and> j_idempotency_key j = key \<and>
    (key \<in> keys_of seen \<or> key \<notin> keys_of db \<longrightarrow> request_tuple j = (t, dumps sel, take 128 src, dumps sm, n))"
proof (cases "get_by j_idempotency_key key (jobs seen)")
  case None
  then have unseen: "key \<notin> keys_of seen" by (simp only: get_by_None_iff keys_of_def not_False_eq_True)
  show ?thesis
  proof (cases "get_by j_idempotency_key key (jobs db)")
    case new: None
    then have "key \<notin> keys_of db" by (simp only: get_by_None_iff keys_of_def not_False_eq_True)
    with assms None new unseen show ?thesis
      by (auto simp: create_job_def Let_def new_job_def request_tuple_def split: if_splits)
  next
    case (Some x)
    with get_by_SomeD [OF Some] have "key \<in> keys_of db" by (auto simp: keys_of_def)
    with assms None Some get_by_SomeD [OF Some] unseen show ?thesis
      by (auto simp: create_job_def Let_def split: if_splits)
  qed
next
  case (Some x)
  with get_by_SomeD [OF Some] have "key \<in> keys_of seen" by (auto simp: keys_of_def)
  with assms Some get_by_SomeD [OF Some] show ?thesis by (auto simp: create_job_def split: if_splits)
qed

lemma submission_job:
  assumes "serve v s c (Create_review_job body (Some key)) st = (st', Inr (202, reply))"
  shows "\<exists>b rq j created. body = Some b \<and> validate_review_request b = Inr rq \<and> authorised v s c ''reviews:write'' \<and>
    reply = accepted_job j created \<and> jobs (as_db st') = jobs (as_db st) @ (if created then [j] else []) \<and>
    created = (key \<notin> keys_of (ae_seen v) \<union> keys_of (as_db st)) \<and>
    j \<in> set (jobs (if key \<in> keys_of (ae_seen v) then ae_seen v else as_db st')) \<and> j_idempotency_key j = key \<and>
    (key \<in> keys_of (ae_seen v) \<or> key \<notin> keys_of (as_db st) \<longrightarrow> request_tuple j = stored_request s rq)"
proof -
  obtain b where b: "body = Some b" and
    g: "guarded v s ''reviews:write'' c (create_review_job v s b (Some key)) st = (st', Inr (202, reply))"
    using assms by (cases body) (auto simp: with_body_def rejected_def)
  from g show ?thesis
  proof (cases rule: guarded_cases)
    case (granted p)
    from granted(2) show ?thesis
    proof (cases rule: create_review_job_cases)
      case refused
      then show ?thesis by (auto simp: rejected_def)
    next
      case (accepted k rq db1 j created)
      then have k: "k = key" "reply = accepted_job j created" "jobs (as_db st') = jobs db1"
        by (simp_all add: untouched_def job_tables_def)
      note stored = create_job_answer [OF accepted(5) [unfolded k(1)]]
      show ?thesis
        by (intro exI [of _ b] exI [of _ rq] exI [of _ j] exI [of _ created],
          cases "key \<in> keys_of (ae_seen v)")
          (use stored b accepted(4) granted(1) k in \<open>auto simp: stored_request_def simp del: redact.simps split: if_splits\<close>)
    qed
  qed simp
qed

section \<open>Answers with status 202\<close>

lemma create_review_job_Inl:
  "create_review_job v s b header p db = (db', Inl e) \<Longrightarrow> api_status (fst e) \<noteq> 202"
  by (auto simp: create_review_job_def validated_def rejected_def submit_review_def create_job_def Let_def api_status_def
      is_instance_def split: sum.splits prod.splits option.splits if_splits)

lemma match_records_Inl:
  "match_records verify token m rs = Inl e \<Longrightarrow> \<exists>t. verify token t = Inl e"
  by (induction rs arbitrary: m) (auto simp: bind_result_Inl_iff)

lemma require_scope_Inl:
  assumes "require_scope log verify records scope credentials client_host now st = (st', Inl e)"
    and "\<And>token t e. verify token t = Inl e \<Longrightarrow> fst e = ValueError"
  shows "api_status (fst e) \<noteq> 202"
  using assms(1)
proof (cases rule: require_scope_cases)
  case (raised scheme token e')
  then have "\<exists>t. verify token t = Inl e" by (auto simp: authenticate_def bind_result_Inl_iff dest: match_records_Inl)
  with assms(2) show ?thesis by (fastforce simp: api_status_def is_instance_def)
qed (simp_all add: api_status_def)

lemma serve_submission_Inl:
  assumes "serve v s c (Create_review_job body key) st = (st', Inl e)"
    and "\<And>token t e. ae_verify v token t = Inl e \<Longrightarrow> fst e = ValueError"
  shows "api_status (fst e) \<noteq> 202"
proof -
  from assms(1) obtain b where "guarded v s ''reviews:write'' c (create_review_job v s b key) st = (st', Inl e)"
    by (auto simp: with_body_def rejected_def split: option.splits)
  then show ?thesis
    by (auto simp: guarded_def split: prod.splits sum.splits dest: create_review_job_Inl require_scope_Inl [OF _ assms(2)])
qed

text \<open>The credentials a submission carries, and the request it makes.\<close>

abbreviation caller_of :: "string option \<Rightarrow> submission \<Rightarrow> caller" where
  "caller_of client_host sub \<equiv>
     \<lparr>ca_credentials = Some (text_before (CHR '' '') (su_authorization sub), text_after (CHR '' '') (su_authorization sub)),
      ca_host = client_host\<rparr>"

lemma limited_once:
  "snd (limited_run limit (\<lambda>got. if got = [] then None else Some ()) [] 0 [Http_request body False]) =
     (if limit < int (length body) then Inl (HTTPException 413, ''request body too large'') else Inr (Some ()))"
  by (simp add: limited_run.simps)

lemma body_limit_once_Inl:
  "snd (body_limit limit headers (\<lambda>got. if got = [] then None else Some ()) [Http_request body False]) = Inl e \<Longrightarrow>
    api_status (fst e) \<noteq> 202"
  by (auto simp: body_limit_def limited_once api_status_def split: option.splits list.splits if_splits)

lemma received_202:
  assumes "received v s client_host to_text st sub = (st', a)" and "ha_status a = 202"
    and "\<And>token t e. ae_verify v token t = Inl e \<Longrightarrow> fst e = ValueError"
  shows "\<exists>j created. serve v s (caller_of client_host sub)
      (Create_review_job (json_loads (su_body sub)) (Some (su_idempotency_key sub))) st =
        (st', Inr (202, accepted_job j created)) \<and>
    ha_body a = to_text (accepted_job j created)"
proof -
  let ?req = "Create_review_job (json_loads (su_body sub)) (Some (su_idempotency_key sub))"
  obtain answer where answer: "(case snd (body_limit (max_body_bytes s)
      [(''content-length'', str_of_int (int (length (su_body sub))))]
      (\<lambda>got. if got = [] then None else Some ()) [Http_request (su_body sub) False]) of
      Inl e \<Rightarrow> (st, Inl e) | Inr _ \<Rightarrow> serve v s (caller_of client_host sub) ?req st) = (st', answer)"
    and code: "fst (respond (send_reply ?req answer)) = 202" and printed: "ha_body a = to_text (snd (respond (send_reply ?req answer)))"
    using assms(1,2) unfolding received_def Let_def by (auto split: prod.splits)
  show ?thesis
  proof (cases answer)
    case (Inl e)
    with answer have "api_status (fst e) \<noteq> 202"
      using body_limit_once_Inl serve_submission_Inl [OF _ assms(3)] by (auto split: sum.splits)
    with code Inl show ?thesis by (simp add: send_reply_def respond_def)
  next
    case (Inr reply)
    obtain n body where nb: "reply = (n, body)" by (cases reply)
    with Inr answer code have q: "serve v s (caller_of client_host sub) ?req st = (st', Inr (202, body))" and n: "n = 202"
      by (auto simp: send_reply_def respond_def api_status_def is_instance_def split: sum.splits if_splits)
    from submission_job [OF q] obtain j created where "body = accepted_job j created" by blast
    with q printed show ?thesis
      by (intro exI [of _ j] exI [of _ created]) (simp add: Inr nb n send_reply_def respond_def accepted_job_fits)
  qed
qed

section \<open>A submission by the script\<close>

text \<open>The run of the script against the API: the outcome of the script, and what the API's state becomes.\<close>

definition submitted_run ::
  "(string \<Rightarrow> bool) \<Rightarrow> api_env \<Rightarrow> settings \<Rightarrow> string option \<Rightarrow> (json \<Rightarrow> string) \<Rightarrow> file_system \<Rightarrow> arguments \<Rightarrow> api_state \<Rightarrow>
   exc + json dict"
where
  "submitted_run netloc_ok v s client_host to_text fs a st =
     seer_run netloc_ok (\<lambda>sub. Inr (snd (received v s client_host to_text st sub))) fs a"

text \<open>
  C40: The script and the API agree. When a run of the script against the API ends well, what was
  submitted is what the script was called for: the run its argument or the summary file names, the
  workflow the summary names, and the summary itself, under the key given or made of the run, with
  the token that its private file holds, at the API's path of the given address, which is HTTPS or
  this host. The caller was authorised to write reviews, and the answer the script printed names the
  job of that key: a new one, appended as the only change of the jobs, unless the request's select or
  its insert found the key taken. The job holds that submission, its summary redacted and its limit
  capped; only of a job that another request stored between the select and the insert it is not said
  for what it was stored. The verifier of tokens is assumed to raise nothing but \<^verbatim>\<open>ValueError\<close>.
\<close>

theorem seer_run_submits:
  assumes "submitted_run netloc_ok v s client_host to_text fs a st = Inr result"
    and "\<And>token t e. ae_verify v token t = Inl e \<Longrightarrow> fst e = ValueError"
  shows "\<exists>sub st' run w summary t f u j created.
    fs (ar_summary_file a) = Some f \<and> json_loads (file_content f) = Some (JObj summary) \<and>
    names_run summary (ar_run_id a) run \<and> names_workflow summary w \<and>
    fs (ar_token_file a) = Some t \<and> private_file fs (ar_token_file a) \<and>
    su_authorization sub = ''Bearer '' @ strip (file_content t) \<and>
    su_idempotency_key sub = seer_key (ar_idempotency_key a) run \<and>
    su_url sub = strip_slashes (ar_sprinter_url a) @ ''/api/v1/review-jobs'' \<and>
    urlsplit netloc_ok (ar_sprinter_url a) = Inr u \<and>
    (up_scheme u = ''https'' \<or> up_scheme u = ''http'' \<and> hostname (up_netloc u) \<in> LOCAL_HOSTS) \<and>
    received v s client_host to_text st sub =
      (st', \<lparr>ha_status = 202, ha_location = [], ha_body = to_text (accepted_job j created)\<rparr>) \<and>
    json_loads (to_text (accepted_job j created)) = Some (JObj result) \<and>
    authorised v s (caller_of client_host sub) ''reviews:write'' \<and>
    j_idempotency_key j = su_idempotency_key sub \<and>
    jobs (as_db st') = jobs (as_db st) @ (if created then [j] else []) \<and>
    created = (j_idempotency_key j \<notin> keys_of (ae_seen v) \<union> keys_of (as_db st)) \<and>
    j \<in> set (jobs (if j_idempotency_key j \<in> keys_of (ae_seen v) then ae_seen v else as_db st')) \<and>
    (created \<or> j_idempotency_key j \<in> keys_of (ae_seen v) \<longrightarrow>
      request_tuple j =
        (''run'', dumps (JObj [(''type'', JStr ''run''), (''run_id'', JStr run), (''workflow'', JStr w)]), ''seer-stix-runner'',
         dumps (redact (redaction_keys s) (sort_keys (JObj summary))), min 20 (prompt_max_rows s)))"
proof -
  from seer_submission_accepted [OF assms(1) [unfolded submitted_run_def]] obtain sub answer b run w summary t f u where
    sub: "snd (received v s client_host to_text st sub) = answer" "ha_status answer = 202"
      "json_loads (ha_body answer) = Some (JObj result)" "json_loads (su_body sub) = Some b"
      "validate_review_request b = Inr \<lparr>rr_selector = RunSelector run (Some w), rr_source = ''seer-stix-runner'',
         rr_summary = members (sort_keys (JObj summary)), rr_limit = 20\<rparr>"
      "su_idempotency_key sub = seer_key (ar_idempotency_key a) run"
    and source: "fs (ar_summary_file a) = Some f" "json_loads (file_content f) = Some (JObj summary)"
      "names_run summary (ar_run_id a) run" "names_workflow summary w"
    and token: "fs (ar_token_file a) = Some t" "private_file fs (ar_token_file a)"
      "su_authorization sub = ''Bearer '' @ strip (file_content t)"
    and url: "su_url sub = strip_slashes (ar_sprinter_url a) @ ''/api/v1/review-jobs''"
      "urlsplit netloc_ok (ar_sprinter_url a) = Inr u"
      "up_scheme u = ''https'' \<or> up_scheme u = ''http'' \<and> hostname (up_netloc u) \<in> LOCAL_HOSTS"
    by auto
  obtain st' where r: "received v s client_host to_text st sub = (st', answer)"
    using sub(1) by (metis prod.collapse)
  from received_202 [OF this sub(2)] assms(2) obtain j0 created0 where
    q: "serve v s (caller_of client_host sub)
       (Create_review_job (json_loads (su_body sub)) (Some (su_idempotency_key sub))) st =
         (st', Inr (202, accepted_job j0 created0))" and
    body: "ha_body answer = to_text (accepted_job j0 created0)" by blast
  have answer: "answer = \<lparr>ha_status = 202, ha_location = [], ha_body = to_text (accepted_job j0 created0)\<rparr>"
    using r sub(2) body by (auto simp: received_def Let_def split: prod.splits)
  from submission_job [OF q] sub(4,5) obtain j created where j: "accepted_job j0 created0 = accepted_job j created"
    "jobs (as_db st') = jobs (as_db st) @ (if created then [j] else [])"
    "created = (su_idempotency_key sub \<notin> keys_of (ae_seen v) \<union> keys_of (as_db st))"
    "j \<in> set (jobs (if su_idempotency_key sub \<in> keys_of (ae_seen v) then ae_seen v else as_db st'))"
    "j_idempotency_key j = su_idempotency_key sub" "authorised v s (caller_of client_host sub) ''reviews:write''"
    "su_idempotency_key sub \<in> keys_of (ae_seen v) \<or> su_idempotency_key sub \<notin> keys_of (as_db st) \<longrightarrow>
       request_tuple j = stored_request s \<lparr>rr_selector = RunSelector run (Some w), rr_source = ''seer-stix-runner'',
         rr_summary = members (sort_keys (JObj summary)), rr_limit = 20\<rparr>"
    by auto
  have "JObj (members (sort_keys (JObj summary))) = sort_keys (JObj summary)" by (simp add: members_def)
  then have tuple: "stored_request s \<lparr>rr_selector = RunSelector run (Some w), rr_source = ''seer-stix-runner'',
         rr_summary = members (sort_keys (JObj summary)), rr_limit = 20\<rparr> =
      (''run'', dumps (JObj [(''type'', JStr ''run''), (''run_id'', JStr run), (''workflow'', JStr w)]), ''seer-stix-runner'',
       dumps (redact (redaction_keys s) (sort_keys (JObj summary))), min 20 (prompt_max_rows s))"
    by (simp only: stored_request_def review_request.simps selector_type.simps dump_selector.simps) simp
  show ?thesis
    by (intro exI [of _ sub] exI [of _ st'] exI [of _ run] exI [of _ w] exI [of _ summary] exI [of _ t] exI [of _ f]
        exI [of _ u] exI [of _ j] exI [of _ created])
      (use r answer sub(3,6) body source token url j tuple in \<open>simp del: sort_keys.simps\<close>)
qed

section \<open>Witness\<close>

definition trusting_api :: api_env where
  "trusting_api = sample_api\<lparr>ae_verify := \<lambda>_ _. Inr True\<rparr>"

lemma seer_request_passes:
  "snd (body_limit (max_body_bytes sample_settings) [(''content-length'', str_of_int (int (length (su_body seer_request))))]
     (\<lambda>got. if got = [] then None else Some ()) [Http_request (su_body seer_request) False]) = Inr (Some ())"
proof -
  have n: "length (su_body seer_request) = 131" "py_int (str_of_int 131) = Some 131" "str_of_int 131 = ''131''" by code_simp+
  have "max_body_bytes sample_settings = 1048576" by (simp add: sample_settings_def default_settings_def)
  with n show ?thesis by (simp add: body_limit_def limited_once)
qed

lemma trusting_guarded:
  "guarded trusting_api sample_settings scope (caller_of None seer_request) handler (sample_state db) =
    (case handler \<lparr>p_name = ''op'', p_scopes = {''jobs:read'', ''admin''}\<rparr> db of (db', r) \<Rightarrow>
       (\<lparr>as_limiter = snd (check ''op:unknown'' 5 (new_limiter 5)), as_db = db'\<rparr>, r))"
proof -
  have "text_before (CHR '' '') (su_authorization seer_request) = ''Bearer''" "lower ''Bearer'' = ''bearer''" by code_simp+
  moreover obtain l where "check ''op:unknown'' 5 (new_limiter 5) = (True, l)"
    by (simp add: check_def new_limiter_def Let_def)
  ultimately show ?thesis
    by (simp add: guarded_def require_scope_def sample_configured trusting_api_def sample_api_def sample_state_def
        authenticate_def permits_def split: prod.split)
qed

lemma seer_request_received:
  "snd (received trusting_api sample_settings None (\<lambda>_. dumps (JObj [])) (sample_state empty_database) seer_request) =
     \<lparr>ha_status = 202, ha_location = [], ha_body = dumps (JObj [])\<rparr>"
proof -
  let ?req = "Create_review_job (json_loads (su_body seer_request)) (Some (su_idempotency_key seer_request))"
  let ?st = "sample_state empty_database"
  have "wf_json (JObj [(''run_id'', JStr ''r1'')])" by simp
  from build_payload_valid [OF seer_payload_built this] obtain b rq where
    b: "json_loads (dumps (JObj seer_payload)) = Some b" "validate_review_request b = Inr rq" by blast
  have body: "su_body seer_request = dumps (JObj seer_payload)" by (simp add: seer_request_def)
  have key: "valid_key (Some (su_idempotency_key seer_request)) = Inr (su_idempotency_key seer_request)"
    by (simp add: valid_key_def seer_request_def)
  have seen: "ae_seen trusting_api = empty_database" "jobs empty_database = []"
    by (simp_all add: trusting_api_def sample_api_def empty_database_def)
  have "\<exists>st' reply. serve trusting_api sample_settings (caller_of None seer_request) ?req ?st = (st', Inr (202, reply))"
    by (simp add: body b with_body_def trusting_guarded create_review_job_def validated_def key submit_review_def
        create_job_def seen Let_def)
  then obtain st' reply where
    q: "serve trusting_api sample_settings (caller_of None seer_request) ?req ?st = (st', Inr (202, reply))" by blast
  have "columns_ok (as_db ?st)" by (simp add: columns_ok_def empty_database_def)
  from send_reply_fits [OF q this] show ?thesis
    unfolding received_def Let_def seer_request_passes by (simp add: q respond_def del: serve.simps)
qed

lemma seer_run_submits_witness:
  "\<exists>sub st' j. received trusting_api sample_settings None (\<lambda>_. dumps (JObj [])) (sample_state empty_database) sub =
      (st', \<lparr>ha_status = 202, ha_location = [], ha_body = dumps (JObj [])\<rparr>) \<and> jobs (as_db st') = [j] \<and>
    j_idempotency_key j = ''seer:osint-bot:r1'' \<and>
    j_selector_json j = dumps (JObj [(''type'', JStr ''run''), (''run_id'', JStr ''r1''), (''workflow'', JStr ''stix_ingest'')])"
proof -
  have run: "submitted_run (\<lambda>_. True) trusting_api sample_settings None (\<lambda>_. dumps (JObj [])) seer_files seer_arguments
      (sample_state empty_database) = Inr []"
    unfolding submitted_run_def by (rule seer_sample_sends, rule refl) (simp_all add: seer_request_received)
  have "fst e = ValueError" if "ae_verify trusting_api token t = Inl e" for token t e
    using that by (simp add: trusting_api_def)
  from seer_run_submits [OF run this] obtain sub st' run w summary f j created where
    source: "seer_files (ar_summary_file seer_arguments) = Some f" "json_loads (file_content f) = Some (JObj summary)"
      "names_run summary (ar_run_id seer_arguments) run" "names_workflow summary w" and
    sub: "received trusting_api sample_settings None (\<lambda>_. dumps (JObj [])) (sample_state empty_database) sub =
      (st', \<lparr>ha_status = 202, ha_location = [], ha_body = dumps (JObj [])\<rparr>)" and
    j: "j_idempotency_key j = seer_key (ar_idempotency_key seer_arguments) run"
      "jobs (as_db st') = jobs empty_database @ (if created then [j] else [])"
      "created = (j_idempotency_key j \<notin> keys_of (ae_seen trusting_api) \<union> keys_of empty_database)"
      "created \<longrightarrow> fst (snd (request_tuple j)) =
         dumps (JObj [(''type'', JStr ''run''), (''run_id'', JStr run), (''workflow'', JStr w)])"
    by fastforce
  have "summary = [(''run_id'', JStr ''r1'')]"
    using source(1,2) json_loads_dumps [of "JObj [(''run_id'', JStr ''r1'')]"]
    by (auto simp: seer_files_def seer_arguments_def)
  moreover have "strip ''r1'' = ''r1''" by code_simp
  ultimately have "run = ''r1''" "w = ''stix_ingest''"
    using source(3,4) by (simp_all add: names_run_def names_workflow_def seer_arguments_def)
  moreover have "created"
    using j(3) by (simp add: keys_of_def trusting_api_def sample_api_def empty_database_def)
  ultimately show ?thesis using sub j
    by (intro exI [of _ sub] exI [of _ st'] exI [of _ j])
      (simp add: empty_database_def seer_key_def seer_arguments_def request_tuple_def)
qed

end
