(* ===== verification/Spec2Isabelle.thy ===== *)
theory Spec2Isabelle
  imports EvidenceProperties DeliveryProperties Deployment Progress Transactions Logging Startup EndToEnd
begin

text \<open>
  Sprinter reviews security detections: callers submit review jobs over HTTP, a worker process
  collects the evidence of a job, asks a model runtime (Pi) for a verdict, stores it, and announces
  it to Teams destinations through an outbox; operators enable destinations, query backends and
  back up the database. This development models the Python code under \<^verbatim>\<open>src/src/sprinter\<close>
  and \<^verbatim>\<open>src/scripts\<close> operation by operation, and proves what makes it correct.

  \<^bold>\<open>Theories and code.\<close>
  \<^item> \<open>Prelude\<close>, \<open>PyText\<close>, \<open>Errors\<close>, \<open>Json\<close>, \<open>JsonRoundtrip\<close>: tables as lists of rows with
    select, update and delete; Python strings, dictionaries, exceptions and their classes; JSON
    values, \<^verbatim>\<open>db.dumps\<close> and \<^verbatim>\<open>db.loads\<close>. Interfaces: \<open>keyed_update\<close> (an update that keeps
    the key), \<open>invariant_system\<close> (runs of a step relation), \<open>codec\<close> (what a JSON column promises).
  \<^item> \<open>Config\<close>, \<open>ConfigFacts\<close>: \<^verbatim>\<open>config.py\<close> (settings, token records, \<^verbatim>\<open>validate_runtime\<close>);
    \<open>Auth\<close>: \<^verbatim>\<open>auth.py\<close>, with the interface \<open>sliding_window\<close> of the rate limiter;
    \<open>Schemas\<close>: \<^verbatim>\<open>schemas.py\<close>.
  \<^item> \<open>Models\<close>: the rows of \<^verbatim>\<open>models.py\<close>. \<open>JobStore\<close>, \<open>OutboxStore\<close>, \<open>TeamsStore\<close>,
    \<open>Retention\<close>: every operation of \<^verbatim>\<open>Database\<close> in \<^verbatim>\<open>db.py\<close>; \<open>Transactions\<close>: its
    sessions, the pragmas of its connections, and completing a job statement by statement.
  \<^item> \<open>JobLifecycle\<close>: the abstract specification of the job store, a step relation whose steps are
    the store's operations in any order (submit, claim, succeed, fail, crash, recover, purge), with
    its invariant; \<open>RetryPolicy\<close>: the interface \<open>bounded_retry\<close> that jobs and deliveries share;
    \<open>JobProperties\<close>: the properties of the store.
  \<^item> \<open>PiGateway\<close>: \<^verbatim>\<open>pi_gateway.py\<close>; \<open>Integrations\<close> and \<open>QueryTools\<close>: \<^verbatim>\<open>integrations/\<close>;
    \<open>Cards\<close> and \<open>TeamsGateway\<close>: \<^verbatim>\<open>teams/\<close>.
  \<^item> \<open>Redaction\<close>, \<open>Engine\<close>: \<^verbatim>\<open>engine.py\<close>; \<open>EngineProperties\<close>, \<open>EvidenceProperties\<close>,
    \<open>DeliveryProperties\<close>: processing a job, the evidence and the search for it, notifications and
    the flushing of the outbox.
  \<^item> \<open>Worker\<close>, \<open>Progress\<close>: \<^verbatim>\<open>worker.py\<close>; \<open>Logging\<close>: \<^verbatim>\<open>logging.py\<close> and what the worker
    logs; \<open>Api\<close>, \<open>ApiProperties\<close>, \<open>Responses\<close>: \<^verbatim>\<open>api.py\<close>
    and the response schemas of \<^verbatim>\<open>schemas.py\<close>; \<open>Operations\<close>: \<^verbatim>\<open>backup.py\<close> and
    \<^verbatim>\<open>restore.py\<close>; \<open>DatabaseFile\<close>: opening the database in \<^verbatim>\<open>db.py\<close>, the migration
    and its environment (\<^verbatim>\<open>migrations/env.py\<close>);
    \<open>Startup\<close>: the checks on the settings, the container and the start of the processes;
    \<open>SeerBridge\<close>: the scripts; \<open>EndToEnd\<close>: the submission script against the API.
  \<^item> \<open>Deployment\<close>: the API and a worker on one database, the worker's review of a job and its
    flushing of the outbox cut into the transactions of the code, between which requests are served
    and the worker may die; this theory: the properties that span them.

  \<^bold>\<open>How the code is modelled.\<close> An operation takes the database and returns it updated together with
  its result; an exception is a value of the result. A database transaction is one atomic step;
  \<open>Transactions\<close> proves of the largest that its statements amount to that step. Where the code
  reads before it writes in another statement, the earlier read is an argument of
  its own (\<open>seen\<close>), so that the interleavings of processes are covered. Loops are structural
  recursion, except the JSON reader, which takes fuel: a text needs no more than twice its length
  plus one, as reading back every written value shows. Clock readings, the random parts of
  identifiers, the key derivation and digest functions, HTTP exchanges, the model runtime's
  process, the Teams SDK, SQLite's page copy and the file system are arguments; what is assumed of
  them is a hypothesis of the theorem that needs it. Every operation of the worker (heartbeat, claim,
  the outcome of a review, each announcement, audit event, settlement and purge) reads the clock for
  itself, any time after the one before; within an operation, and within a request, one reading
  stands for all. That a generated identifier is taken is checked for jobs, and for the rows of a completion in
  \<open>Transactions\<close>; elsewhere identifiers are taken to be new.

  \<^bold>\<open>What is shown.\<close> Every request, every worker process and every interleaving of requests with
  the steps of a worker, which may be killed at any of them, is a run of the job life cycle
  (refinement), whatever the services answer; hence identifiers are unique, rows are well-formed, a
  job has a decision exactly if it succeeded, attempts are bounded, claims are exclusive, and an
  accepted job is never lost. Failing jobs and deliveries are given up after exactly their maximum
  of attempts, and a worker that keeps running ends every job (liveness). Completing a job takes
  effect as a whole or not at all. Every answer fits the schema of its route. Secrets in submitted
  summaries and in evidence never reach the database; the search for evidence cannot be escaped
  from; the tools send only what they validated. Cards reach only destinations that are enabled,
  and only an administrator enables one. The rate and body limits hold exactly. The worker pauses
  while the model runtime is unavailable, and its health row, which readiness reads, says so. Backups restore to what was backed
  up, and a file of another program is never opened as the database. A process whose settings are
  invalid stops before it touches a file. The submission script submits exactly the run it was called
  for, and is answered with the job of its key. The log is exactly the sequence of the logged events,
  whatever texts they carry. Lemmas beside these record where the code falls short of its intent: a
  race of two submissions (the second is answered with the job of the first, whatever its request),
  errors that strand a job, a worker that dies between a decision and its
  notifications (the job is not announced; a delivery, once queued, is sent at least once),
  timestamps loaded as naive values, with which readiness raises an error, a purge that goes by days
  because it compares two forms of a timestamp as texts, evidence deleted with its job, backslashes in a Confluence
  query, index patterns in a Splunk search.

  \<^bold>\<open>Not modelled.\<close> Code points above 255, the floats NaN and Infinity, the coercions pydantic
  makes between types (they are refused instead) and the texts of its errors; the columns of the
  tables; the threshold of log levels; signal handling and the waits of the worker; directories;
  reading command lines and environment variables. The Sigma backend and the Teams SDK are third-party code.
\<close>

section \<open>The deployed program\<close>

lemma reachable_deployment:
  assumes "1 \<le> job_max_attempts s" and "steps_star (deployment s before) initial_deployment d"
  shows "\<exists>p. system_ok (abstract_system d p)"
proof -
  have "initial_system = abstract_system initial_deployment {}"
    by (simp add: initial_system_def abstract_system_def initial_deployment_def)
  with deployment_run [OF assms(2), of "{}"] reachable_ok [OF assms(1)] show ?thesis by metis
qed

text \<open>
  C1: The deployed program keeps its database sound. However requests interleave with the steps
  of the worker, whatever the callers send and the services answer, and however often a worker
  is killed or ends by an error: job identifiers and idempotency keys stay unique; every job has
  the fields its status calls for; evidence and decisions belong to jobs and findings to
  decisions; a job has one decision if it succeeded and none otherwise; a job has used at most
  its maximum of attempts, plus one for each worker that died; and the job the worker is
  reviewing is still there as it was claimed, and running.
\<close>

theorem deployment_integrity:
  assumes "1 \<le> job_max_attempts s" and "steps_star (deployment s before) initial_deployment d"
  shows "distinct (map j_id (jobs (base d))) \<and> distinct (map j_idempotency_key (jobs (base d))) \<and>
    references_ok (base d) \<and>
    (\<forall>j \<in> set (jobs (base d)). job_ok j \<and> j_attempts j \<le> j_max_attempts j + deaths d \<and>
      length (decisions_of (j_id j) (base d)) = (if j_status j = Succeeded then 1 else 0)) \<and>
    (\<forall>i w j. phase d = Holding i w j \<longrightarrow> j \<in> set (jobs (base d)) \<and> j_status j = Running)"
proof -
  obtain p where ok: "system_ok (abstract_system d p)" using reachable_deployment [OF assms] by blast
  have "j_attempts j \<le> j_max_attempts j + deaths d" if "j \<in> set (jobs (base d))" for j
    using attempts_within [OF ok, of j] that by simp
  moreover have "held j (base d)" if "phase d = Holding i w j" for i w j
    using system_okD(2) [OF ok, of j] that by simp
  ultimately show ?thesis using system_okD(1) [OF ok]
    by (simp add: store_ok_def jobs_ok_def verdicts_ok_def held_def)
qed

section \<open>From a request to its result\<close>

text \<open>
  C6: An accepted submission is never lost. Let a submission be answered with 202, whether its select
  found the key, it added a job, or its insert failed because another request had taken the key; the
  select may have read an earlier state \<open>sys0\<close> of the database than the insert (\<open>sys\<close>), with anything
  done in between. Whatever happens afterwards, the job of that answer is still there under the same
  key, unless retention removed it: asking for it gives 200 and its present state, its row is
  well-formed, and it has exactly one decision once it succeeded. Unless it was such a job of another
  request, it still is the job of the request that was submitted.
\<close>

theorem accepted_job_stays_visible:
  assumes "1 \<le> job_max_attempts s"
    and "steps_star (lifecycle s before) initial_system sys0" and "ae_seen v = store sys0"
    and "steps_star (lifecycle s before) sys0 sys" and "as_db st = store sys"
    and "serve v s c (Create_review_job body (Some key)) st = (st', Inr (202, reply))"
    and "steps_star (lifecycle s before) (sys\<lparr>store := as_db st'\<rparr>) sys'"
  shows "\<exists>j created b rq. reply = accepted_job j created \<and> body = Some b \<and> validate_review_request b = Inr rq \<and>
    (j_id j \<in> purged sys' \<or>
     (\<exists>j'. get_job (j_id j) (store sys') = Some j' \<and> j_idempotency_key j' = key \<and> job_ok j' \<and>
        (created \<or> key \<in> keys_of (ae_seen v) \<longrightarrow> request_tuple j' = stored_request s rq) \<and>
        length (decisions_of (j_id j) (store sys')) = (if j_status j' = Succeeded then 1 else 0) \<and>
        get_job_route v' (j_id j) (store sys') = Inr (200, job_view (ae_isoformat v') j' (store sys'))))"
proof -
  let ?sys1 = "sys\<lparr>store := as_db st'\<rparr>"
  have later: "steps_star (lifecycle s before) sys0 ?sys1"
    using api_run [OF assms(6), of sys before] assms(4,5) by (auto intro: steps_star_trans)
  then have run: "steps_star (lifecycle s before) initial_system ?sys1"
    using assms(2) by (rule steps_star_trans)
  have ok': "system_ok sys'"
    by (rule reachable_ok [OF assms(1) steps_star_trans [OF assms(7) run]])
  from submission_job [OF assms(6)] obtain b rq j created where
    b: "body = Some b" "validate_review_request b = Inr rq" and
    j: "reply = accepted_job j created" "j_idempotency_key j = key"
      "j \<in> set (jobs (if key \<in> keys_of (ae_seen v) then ae_seen v else as_db st'))" and
    rq: "created \<or> key \<in> keys_of (ae_seen v) \<longrightarrow> request_tuple j = stored_request s rq" by auto
  have "preserved ?sys1 sys'" by (rule run_preserved [OF assms(7,1) reachable_ok [OF assms(1) run]])
  moreover have "preserved sys0 sys'"
    by (rule run_preserved [OF steps_star_trans [OF assms(7) later] assms(1) reachable_ok [OF assms(1,2)]])
  ultimately consider "j_id j \<in> purged sys'" | j' where "j' \<in> set (jobs (store sys'))" "continues j j'"
    using j(3) assms(3) by (auto simp: preserved_def split: if_splits)
  then show ?thesis
  proof cases
    case 1
    with j(1) b show ?thesis by blast
  next
    case (2 j')
    then have get: "get_job (j_id j) (store sys') = Some j'"
      using get_by_unique [of j_id "jobs (store sys')" j'] system_okD(4) [OF ok']
      by (simp add: get_job_def jobs_ok_def continues_def)
    have row: "job_ok j'" "length (decisions_of (j_id j') (store sys')) = (if j_status j' = Succeeded then 1 else 0)"
      using system_okD(1) [OF ok'] 2(1) by (simp_all add: store_ok_def jobs_ok_def verdicts_ok_def)
    have same: "j_idempotency_key j' = key" "j_id j' = j_id j" "request_tuple j' = request_tuple j"
      using j(2) 2(2) by (simp_all add: continues_def)
    show ?thesis
      by (intro exI [of _ j] exI [of _ created] exI [of _ b] exI [of _ rq])
        (use get row same j(1) b rq in \<open>simp add: get_job_route_def\<close>)
  qed
qed

section \<open>Every answer is a document\<close>

text \<open>
  C7: No answer breaks its schema. However the deployed program has been used, the text columns
  that answers are read from hold the documents their readers expect: so whatever a route with a
  response model answers, the framework's validation accepts it and sends it as it is, with no
  field dropped and never as an internal error.
\<close>

theorem responses_fit_schemas:
  assumes "steps_star (deployment s before) initial_deployment d" and "as_db st = base d"
    and "serve v s c req st = (st', r)"
  shows "send_reply req r = r"
proof -
  have "columns_ok (base initial_deployment)"
    by (simp add: columns_ok_def initial_deployment_def empty_database_def)
  from columns.inv_steps [OF assms(1) this] have "columns_ok (as_db st)" by (simp add: assms(2))
  from send_reply_fits [OF assms(3) this] show ?thesis .
qed

section \<open>Witnesses\<close>

lemma sample_accepted:
  "\<exists>st' j. serve sample_api sample_settings sample_caller (Create_review_job (Some sample_body) (Some ''key-0001''))
     (sample_state empty_database) = (st', Inr (202, accepted_job j True))"
  using sample_created [of "\<lparr>p_name = ''op'', p_scopes = {''jobs:read'', ''admin''}\<rparr>"]
  by (auto simp: with_body_def sample_guarded)

lemma sample_settings_attempts: "1 \<le> job_max_attempts sample_settings"
  by (simp add: sample_settings_def default_settings_def)

lemma deployment_integrity_witness:
  "\<exists>st' j. serve sample_api sample_settings sample_caller (Create_review_job (Some sample_body) (Some ''key-0001''))
      (sample_state empty_database) = (st', Inr (202, accepted_job j True)) \<and>
    distinct (map j_id (jobs (as_db st'))) \<and> references_ok (as_db st')"
proof -
  obtain st' j where q: "serve sample_api sample_settings sample_caller (Create_review_job (Some sample_body) (Some ''key-0001''))
      (sample_state empty_database) = (st', Inr (202, accepted_job j True))"
    using sample_accepted by blast
  have "steps_star (deployment sample_settings (<)) initial_deployment (initial_deployment\<lparr>base := as_db st'\<rparr>)"
    by (rule run_one, rule deployment.request [OF q]) (simp add: initial_deployment_def)
  from deployment_integrity [OF sample_settings_attempts this] q show ?thesis by auto
qed

lemma accepted_job_stays_visible_witness:
  "\<exists>st' j j'. serve sample_api sample_settings sample_caller (Create_review_job (Some sample_body) (Some ''key-0001''))
      (sample_state empty_database) = (st', Inr (202, accepted_job j True)) \<and>
    get_job (j_id j) (as_db st') = Some j' \<and> j_idempotency_key j' = ''key-0001''"
proof -
  obtain st' j where q: "serve sample_api sample_settings sample_caller (Create_review_job (Some sample_body) (Some ''key-0001''))
      (sample_state empty_database) = (st', Inr (202, accepted_job j True))"
    using sample_accepted by blast
  let ?sys = "initial_system\<lparr>store := as_db st'\<rparr>"
  have st: "ae_seen sample_api = store initial_system" "as_db (sample_state empty_database) = store initial_system"
    by (simp_all add: initial_system_def sample_api_def)
  from accepted_job_stays_visible [OF sample_settings_attempts steps_star.steps_refl st(1) steps_star.steps_refl st(2) q
      steps_star.steps_refl]
  obtain j2 created where "accepted_job j True = accepted_job j2 created"
    "j_id j2 \<in> purged ?sys \<or> (\<exists>j'. get_job (j_id j2) (store ?sys) = Some j' \<and> j_idempotency_key j' = ''key-0001'')"
    by blast
  with q show ?thesis by (auto simp: accepted_job_def initial_system_def)
qed

lemma responses_fit_schemas_witness:
  "\<exists>st' j. serve sample_api sample_settings sample_caller (Create_review_job (Some sample_body) (Some ''key-0001''))
      (sample_state empty_database) = (st', Inr (202, accepted_job j True)) \<and>
    send_reply (Create_review_job (Some sample_body) (Some ''key-0001'')) (Inr (202, accepted_job j True)) =
      Inr (202, accepted_job j True)"
proof -
  obtain st' j where q: "serve sample_api sample_settings sample_caller (Create_review_job (Some sample_body) (Some ''key-0001''))
      (sample_state empty_database) = (st', Inr (202, accepted_job j True))"
    using sample_accepted by blast
  have "as_db (sample_state empty_database) = base initial_deployment" by (simp add: initial_deployment_def)
  from responses_fit_schemas [OF steps_star.steps_refl this q] q show ?thesis by blast
qed

end
